(* ===== verification/Prelude.thy ===== *)
theory Prelude
  imports Main "HOL-Library.Word"
begin

text \<open>
  What every component shares: the types of Go values (byte slices, strings, instants of time),
  the few functions of Go's \<open>strings\<close>, \<open>bytes\<close> and \<open>strconv\<close> packages the sources call, the
  shapes of SQL statement the store is written in, and the lemma collections the component
  theories simplify with. It ends with the two interfaces that are not tied to a component: a
  transition system with an invariant and a bounded semaphore.
\<close>

section \<open>Lemma collections\<close>

named_theorems table_simps \<open>what an SQL statement does to the rows of a table\<close>
named_theorems trust_simps \<open>operations that leave the trust column alone\<close>
named_theorems count_simps \<open>counting list elements with a property\<close>

section \<open>Go values\<close>

text \<open>
  A Go \<open>[]byte\<close> is a list of 8-bit words, nil and empty alike (the sources test them with
  \<open>len\<close> only). A Go string is a sequence of bytes, which is what HOL's \<open>string\<close> is.
\<close>

type_synonym byte = "8 word"
type_synonym bytes = "byte list"

text \<open>
  \<open>time.Time\<close> is an instant in nanoseconds from the Unix epoch; certificates, CRLs and OCSP
  responses carry whole seconds. The zero \<open>time.Time\<close> is 1 January of year 1 UTC.
\<close>

type_synonym gotime = int

definition nsec :: int where
  "nsec = 1000000000"

definition of_unix :: "int \<Rightarrow> gotime" where
  "of_unix s = s * nsec"

definition unix :: "gotime \<Rightarrow> int" where
  "unix t = t div nsec"

definition zero_time :: gotime where
  "zero_time = of_unix (- 62135596800)"

lemma unix_of_unix [simp]: "unix (of_unix s) = s"
  by (simp add: unix_def of_unix_def nsec_def)

lemma unix_mono: "s \<le> t \<Longrightarrow> unix s \<le> unix t"
  by (simp add: unix_def nsec_def zdiv_mono1)

definition bytes_of :: "string \<Rightarrow> bytes" where
  "bytes_of s = map of_char s"

lemma length_bytes_of [simp]: "length (bytes_of s) = length s"
  by (simp add: bytes_of_def)

subsection \<open>Strings\<close>

text \<open>
  \<open>strings.ToUpper\<close> and \<open>strings.ToLower\<close> on ASCII letters. The sources apply them to hex
  digests, host names and URL schemes and compare the result with ASCII text; no character
  outside ASCII has a hexadecimal digit or one of the letters of \<open>http\<close> as its other case.
\<close>

definition upper_char :: "char \<Rightarrow> char" where
  "upper_char c = (let n = (of_char c :: nat) in if 97 \<le> n \<and> n \<le> 122 then char_of (n - 32) else c)"

definition lower_char :: "char \<Rightarrow> char" where
  "lower_char c = (let n = (of_char c :: nat) in if 65 \<le> n \<and> n \<le> 90 then char_of (n + 32) else c)"

definition to_upper :: "string \<Rightarrow> string" where
  "to_upper s = map upper_char s"

definition to_lower :: "string \<Rightarrow> string" where
  "to_lower s = map lower_char s"

text \<open>\<open>strings.EqualFold\<close>, and \<open>strings.HasPrefix\<close> for strings and byte slices alike.\<close>

definition equal_fold :: "string \<Rightarrow> string \<Rightarrow> bool" where
  "equal_fold s t \<longleftrightarrow> to_lower s = to_lower t"

definition has_prefix :: "'a list \<Rightarrow> 'a list \<Rightarrow> bool" where
  "has_prefix s p \<longleftrightarrow> take (length p) s = p"

lemma has_prefix_iff: "has_prefix s p \<longleftrightarrow> (\<exists>r. s = p @ r)"
  by (auto simp: has_prefix_def) (metis append_take_drop_id)

lemma upper_char_idem [simp]: "upper_char (upper_char c) = upper_char c"
  by (auto simp: upper_char_def Let_def)

lemma to_upper_idem [simp]: "to_upper (to_upper s) = to_upper s"
  by (simp add: to_upper_def)

lemma length_to_upper [simp]: "length (to_upper s) = length s"
  by (simp add: to_upper_def)

lemma to_upper_append: "to_upper (s @ t) = to_upper s @ to_upper t"
  by (simp add: to_upper_def)

text \<open>\<open>%d\<close> of a number that is not negative.\<close>

fun digits_of :: "nat \<Rightarrow> string" where
  "digits_of n = (if n < 10 then [char_of (48 + n)] else digits_of (n div 10) @ [char_of (48 + n mod 10)])"

declare digits_of.simps [simp del]

text \<open>\<open>bytes.Index\<close> and \<open>strings.Index\<close>: the first position of \<open>p\<close> in \<open>s\<close>, if it occurs.\<close>

fun index_of :: "'a list \<Rightarrow> 'a list \<Rightarrow> nat option" where
  "index_of p [] = (if p = [] then Some 0 else None)"
| "index_of p (c # s) =
     (if has_prefix (c # s) p then Some 0 else map_option Suc (index_of p s))"

lemma index_of_Some:
  "index_of p s = Some i \<Longrightarrow> i + length p \<le> length s \<and> take (length p) (drop i s) = p"
proof (induction p s arbitrary: i rule: index_of.induct)
  case (1 p)
  then show ?case by (auto split: if_splits)
next
  case (2 p c s)
  show ?case
  proof (cases "has_prefix (c # s) p")
    case True
    with 2 show ?thesis by (auto simp: has_prefix_def dest: arg_cong [where f = length])
  next
    case False
    with 2 show ?thesis by auto
  qed
qed

lemma index_of_None: "index_of p s = None \<Longrightarrow> \<nexists>a b. s = a @ p @ b"
proof (induction p s rule: index_of.induct)
  case (1 p)
  then show ?case by (auto split: if_splits)
next
  case (2 p c s)
  show ?case
  proof (cases "has_prefix (c # s) p")
    case True
    with 2 show ?thesis by auto
  next
    case False
    with 2 have IH: "\<nexists>a b. s = a @ p @ b" by auto
    show ?thesis
    proof
      assume "\<exists>a b. c # s = a @ p @ b"
      then obtain a b where ab: "c # s = a @ p @ b" by blast
      show False
      proof (cases a)
        case Nil
        with ab False show False by (auto simp: has_prefix_iff)
      next
        case (Cons x a')
        with ab IH show False by auto
      qed
    qed
  qed
qed

section \<open>Tables\<close>

text \<open>
  A table is the list of its rows in ascending \<open>INTEGER PRIMARY KEY\<close> order. \<open>INSERT\<close> without
  an id takes the largest id plus one, so a new row goes to the end.
\<close>

definition next_id :: "('r \<Rightarrow> nat) \<Rightarrow> 'r list \<Rightarrow> nat" where
  "next_id rid rs = Suc (fold max (map rid rs) 0)"

definition update_where :: "('r \<Rightarrow> bool) \<Rightarrow> ('r \<Rightarrow> 'r) \<Rightarrow> 'r list \<Rightarrow> 'r list" where
  "update_where P f rs = map (\<lambda>r. if P r then f r else r) rs"

definition delete_where :: "('r \<Rightarrow> bool) \<Rightarrow> 'r list \<Rightarrow> 'r list" where
  "delete_where P rs = filter (\<lambda>r. \<not> P r) rs"

lemma fold_max_ge: "(n::nat) \<le> fold max ns n"
proof (induction ns arbitrary: n)
  case (Cons x ns)
  from Cons [of "max x n"] show ?case by simp
qed simp

lemma fold_max_mono: "(m::nat) \<le> n \<Longrightarrow> fold max ns m \<le> fold max ns n"
  by (induction ns arbitrary: m n) auto

lemma fold_max_member: "k \<in> set ns \<Longrightarrow> (k::nat) \<le> fold max ns n"
proof (induction ns arbitrary: n)
  case (Cons x ns)
  then show ?case
    using fold_max_ge [of "max x n" ns] by (auto intro: le_trans)
qed simp

lemma next_id_fresh: "r \<in> set rs \<Longrightarrow> rid r < next_id rid rs"
  by (auto simp: next_id_def less_Suc_eq_le intro!: fold_max_member)

lemma set_update_where [table_simps]:
  "set (update_where P f rs) = (\<lambda>r. if P r then f r else r) ` set rs"
  by (simp add: update_where_def)

lemma update_where_hit: "r \<in> set rs \<Longrightarrow> P r \<Longrightarrow> f r \<in> set (update_where P f rs)"
  by (force simp: update_where_def)

lemma update_where_miss: "r \<in> set rs \<Longrightarrow> \<not> P r \<Longrightarrow> r \<in> set (update_where P f rs)"
  by (force simp: update_where_def)

lemma set_delete_where [table_simps]: "set (delete_where P rs) = {r \<in> set rs. \<not> P r}"
  by (simp add: delete_where_def)

lemma map_update_where [table_simps]:
  "(\<And>r. g (f r) = g r) \<Longrightarrow> map g (update_where P f rs) = map g rs"
  by (simp add: update_where_def)

lemma length_update_where [simp]: "length (update_where P f rs) = length rs"
  by (simp add: update_where_def)

lemma filter_update_where:
  "(\<And>r. Q (f r) = Q r) \<Longrightarrow> filter Q (update_where P f rs) = update_where P f (filter Q rs)"
  by (induction rs) (auto simp: update_where_def)

lemma distinct_delete_where [simp]: "distinct (map g rs) \<Longrightarrow> distinct (map g (delete_where P rs))"
  by (simp add: delete_where_def distinct_map_filter)

lemma sorted_delete_where [simp]:
  "sorted_wrt R (map g rs) \<Longrightarrow> sorted_wrt R (map g (delete_where P rs))"
  by (induction rs) (auto simp: delete_where_def)

text \<open>
  A table whose ids ascend and whose unique column has no duplicate keeps both under the three
  kinds of statement.
\<close>

definition table_ok :: "('r \<Rightarrow> nat) \<Rightarrow> ('r \<Rightarrow> 'k) \<Rightarrow> 'r list \<Rightarrow> bool" where
  "table_ok rid key rs \<longleftrightarrow> sorted_wrt (<) (map rid rs) \<and> distinct (map key rs)"

lemma table_ok_Nil [simp]: "table_ok rid key []"
  by (simp add: table_ok_def)

lemma table_ok_delete [simp]: "table_ok rid key rs \<Longrightarrow> table_ok rid key (delete_where P rs)"
  by (simp add: table_ok_def)

lemma table_ok_update:
  "(\<And>r. rid (f r) = rid r) \<Longrightarrow> (\<And>r. key (f r) = key r) \<Longrightarrow> table_ok rid key rs
   \<Longrightarrow> table_ok rid key (update_where P f rs)"
  by (simp add: table_ok_def table_simps)

lemma table_ok_insert:
  "table_ok rid key rs \<Longrightarrow> rid r = next_id rid rs \<Longrightarrow> key r \<notin> key ` set rs
   \<Longrightarrow> table_ok rid key (rs @ [r])"
  by (auto simp: table_ok_def sorted_wrt_append intro: next_id_fresh)

lemma table_ok_key: "table_ok rid key rs \<Longrightarrow> r \<in> set rs \<Longrightarrow> s \<in> set rs \<Longrightarrow> key r = key s \<Longrightarrow> r = s"
  by (auto simp: table_ok_def distinct_map inj_on_def)

lemma table_ok_distinct_ids: "table_ok rid key rs \<Longrightarrow> distinct (map rid rs)"
  by (simp add: table_ok_def strict_sorted_iff)

text \<open>\<open>SELECT ... LIMIT 1\<close>: the first matching row.\<close>

lemma find_None_iff': "find P rs = None \<longleftrightarrow> (\<forall>r \<in> set rs. \<not> P r)"
  by (auto simp: find_None_iff)

lemma find_SomeD: "find P rs = Some r \<Longrightarrow> r \<in> set rs \<and> P r"
  by (auto simp: find_Some_iff)

lemma find_unique:
  assumes "r \<in> set rs" and "P r" and u: "\<And>s. s \<in> set rs \<Longrightarrow> P s \<Longrightarrow> s = r"
  shows "find P rs = Some r"
proof (cases "find P rs")
  case None
  with assms(1,2) show ?thesis by (auto simp: find_None_iff)
next
  case (Some s)
  with u [of s] show ?thesis by (auto dest: find_SomeD)
qed

lemma find_append: "find P (xs @ ys) = (case find P xs of None \<Rightarrow> find P ys | Some x \<Rightarrow> Some x)"
  by (induction xs) auto

lemma find_update_where:
  "(\<And>r. P (f r) = P r) \<Longrightarrow>
   find P (update_where Q f rs) = map_option (\<lambda>r. if Q r then f r else r) (find P rs)"
  by (induction rs) (auto simp: update_where_def)

lemma find_iff_list_ex: "find P rs = None \<longleftrightarrow> \<not> list_ex P rs"
  by (auto simp: find_None_iff list_ex_iff)

lemma list_ex_find: "list_ex P rs \<longleftrightarrow> find P rs \<noteq> None"
  by (simp add: find_iff_list_ex)

section \<open>Counting\<close>

definition cnt :: "('a \<Rightarrow> bool) \<Rightarrow> 'a list \<Rightarrow> nat" where
  "cnt P xs = length (filter P xs)"

lemma cnt_simps [simp]: "cnt P [] = 0" "cnt P (x # xs) = of_bool (P x) + cnt P xs"
  by (simp_all add: cnt_def)

lemma cnt_update [count_simps]:
  "i < length xs \<Longrightarrow> cnt P (xs[i := y]) + of_bool (P (xs ! i)) = cnt P xs + of_bool (P y)"
proof (induction xs arbitrary: i)
  case (Cons x xs)
  show ?case
  proof (cases i)
    case 0
    then show ?thesis by simp
  next
    case (Suc j)
    with Cons.prems have "cnt P (xs[j := y]) + of_bool (P (xs ! j)) = cnt P xs + of_bool (P y)"
      by (intro Cons.IH) simp
    with Suc show ?thesis by (simp only: list_update_code nth_Cons_Suc cnt_simps add.assoc)
  qed
qed simp

lemma cnt_mono: "(\<And>x. x \<in> set xs \<Longrightarrow> P x \<Longrightarrow> Q x) \<Longrightarrow> cnt P xs \<le> cnt Q xs"
  by (induction xs) (auto simp: cnt_def intro: le_SucI)

lemma cnt_disj: "cnt (\<lambda>x. P x \<or> Q x) xs \<le> cnt P xs + cnt Q xs"
  by (induction xs) (auto simp: cnt_def)

lemma cnt_pos: "cnt P xs > 0 \<longleftrightarrow> (\<exists>i < length xs. P (xs ! i))"
  by (auto simp: cnt_def filter_empty_conv in_set_conv_nth) (metis nth_mem)

lemma cnt_append [simp]: "cnt P (xs @ ys) = cnt P xs + cnt P ys"
  by (simp add: cnt_def)

section \<open>Interfaces\<close>

text \<open>
  A transition system with an invariant: what holds at the start and is kept by every step
  holds in every state a run reaches.
\<close>

locale transition_system =
  fixes start :: "'s \<Rightarrow> bool"
    and step :: "'s \<Rightarrow> 's \<Rightarrow> bool"
    and inv :: "'s \<Rightarrow> bool"
  assumes inv_start: "start s \<Longrightarrow> inv s"
    and inv_step: "inv s \<Longrightarrow> step s t \<Longrightarrow> inv t"
begin

lemma inv_run: "step\<^sup>*\<^sup>* s t \<Longrightarrow> inv s \<Longrightarrow> inv t"
  by (induction rule: rtranclp_induct) (auto intro: inv_step)

lemma inv_reachable: "start s \<Longrightarrow> step\<^sup>*\<^sup>* s t \<Longrightarrow> inv t"
  by (auto intro: inv_run inv_start)

text \<open>A function of the state no step lets grow past what it was stays below it.\<close>

lemma run_antimono:
  assumes "step\<^sup>*\<^sup>* s t" and "inv s" and "\<And>u v. inv u \<Longrightarrow> step u v \<Longrightarrow> f v \<le> (f u :: nat)"
  shows "f t \<le> f s"
  using assms(1,2)
proof (induction rule: rtranclp_induct)
  case (step u v)
  then have "inv u" by (auto intro: inv_run)
  with step assms(3) [of u v] show ?case by (auto intro: le_trans)
qed simp

end

text \<open>
  A bounded semaphore: what a Go channel of \<open>struct{}\<close> with a capacity is used as.
  \<open>acquire\<close> fails (blocks, or falls to a \<open>default\<close> branch) when it is full, \<open>release\<close> when it is
  empty.
\<close>

locale semaphore =
  fixes capacity :: "'c \<Rightarrow> nat"
    and used :: "'c \<Rightarrow> nat"
    and acquire :: "'c \<Rightarrow> 'c option"
    and release :: "'c \<Rightarrow> 'c option"
  assumes acquire_iff: "(\<exists>d. acquire c = Some d) \<longleftrightarrow> used c < capacity c"
    and acquire_used: "acquire c = Some d \<Longrightarrow> used d = Suc (used c) \<and> capacity d = capacity c"
    and release_iff: "(\<exists>d. release c = Some d) \<longleftrightarrow> 0 < used c"
    and release_used: "release c = Some d \<Longrightarrow> Suc (used d) = used c \<and> capacity d = capacity c"
begin

lemma acquire_within: "used c \<le> capacity c \<Longrightarrow> acquire c = Some d \<Longrightarrow> used d \<le> capacity d"
  using acquire_iff [of c] acquire_used [of c d] by auto

lemma release_within: "used c \<le> capacity c \<Longrightarrow> release c = Some d \<Longrightarrow> used d \<le> capacity d"
  using release_used [of c d] by auto

lemma acquire_refused: "acquire c = None \<longleftrightarrow> capacity c \<le> used c"
  using acquire_iff [of c] by (cases "acquire c") auto

lemma release_after_acquire: "acquire c = Some d \<Longrightarrow> \<exists>e. release d = Some e \<and> used e = used c"
  using release_iff [of d] acquire_used [of c d] release_used [of d] by fastforce

text \<open>A run of acquisitions and releases, each blocked one skipped, never passes the capacity.\<close>

lemma run_within:
  assumes "used c \<le> capacity c"
  shows "used (foldl (\<lambda>c a. case (if a then acquire c else release c) of None \<Rightarrow> c | Some d \<Rightarrow> d) c as)
       \<le> capacity c
     \<and> capacity (foldl (\<lambda>c a. case (if a then acquire c else release c) of None \<Rightarrow> c | Some d \<Rightarrow> d) c as)
       = capacity c"
  using assms
proof (induction as arbitrary: c)
  case (Cons a as)
  define d where "d = (case (if a then acquire c else release c) of None \<Rightarrow> c | Some d \<Rightarrow> d)"
  have d: "used d \<le> capacity d \<and> capacity d = capacity c"
  proof (cases "if a then acquire c else release c")
    case None
    with Cons.prems show ?thesis by (simp add: d_def)
  next
    case (Some e)
    then have e: "d = e" by (simp add: d_def)
    show ?thesis
    proof (cases a)
      case True
      with Some have "acquire c = Some d" by (simp add: e)
      then show ?thesis using acquire_within [OF Cons.prems] acquire_used by blast
    next
      case False
      with Some have "release c = Some d" by (simp add: e)
      then show ?thesis using release_within [OF Cons.prems] release_used by blast
    qed
  qed
  from Cons.IH [of d] d show ?case by (simp add: d_def)
qed simp

end

end
