(* ===== verification/Digest.thy ===== *)
theory Digest
  imports Prelude
begin

text \<open>
  Content addresses (\<open>sha1hex\<close> and \<open>SHA256Hex\<close> of internal/store/store.go, \<open>sha1Hex\<close> of
  cmd/certview/handler.go): the upper-case hexadecimal form of a digest. The two hash functions
  are the record \<open>hashes\<close>, an argument of every definition that takes a digest: the code relies
  on their being functions, and, where a property says so, on their telling apart the objects at
  hand. The hexadecimal encoding is modelled and proved injective, so that two objects share an
  address exactly when they share a digest.
\<close>

unbundle bit_operations_syntax

record hashes =
  sha1_sum :: "bytes \<Rightarrow> bytes"
  sha256_sum :: "bytes \<Rightarrow> bytes"

text \<open>\<open>hex.EncodeToString\<close>: two lower-case digits for a byte, high half first.\<close>

definition hex_digit :: "byte \<Rightarrow> char" where
  "hex_digit n = (if n < 10 then char_of (48 + unat n) else char_of (87 + unat n))"

fun hex_encode :: "bytes \<Rightarrow> string" where
  "hex_encode [] = []"
| "hex_encode (b # bs) = hex_digit (drop_bit 4 b) # hex_digit (b AND 15) # hex_encode bs"

definition sha1hex :: "hashes \<Rightarrow> bytes \<Rightarrow> string" where
  "sha1hex H der = to_upper (hex_encode (sha1_sum H der))"

definition SHA256Hex :: "hashes \<Rightarrow> bytes \<Rightarrow> string" where
  "SHA256Hex H der = to_upper (hex_encode (sha256_sum H der))"

text \<open>\<open>hex.DecodeString\<close>, the reading the encoding is shown against: either case.\<close>

definition hex_value :: "char \<Rightarrow> byte option" where
  "hex_value c = (let n = (of_char c :: nat) in
     if 48 \<le> n \<and> n \<le> 57 then Some (of_nat (n - 48))
     else if 97 \<le> n \<and> n \<le> 102 then Some (of_nat (n - 87))
     else if 65 \<le> n \<and> n \<le> 70 then Some (of_nat (n - 55))
     else None)"

fun hex_decode :: "string \<Rightarrow> bytes option" where
  "hex_decode [] = Some []"
| "hex_decode (h # l # s) =
     (case (hex_value h, hex_value l, hex_decode s) of
        (Some a, Some b, Some bs) \<Rightarrow> Some ((push_bit 4 a OR b) # bs)
      | _ \<Rightarrow> None)"
| "hex_decode [c] = None"

lemma of_char_char_of: "(m::nat) < 256 \<Longrightarrow> of_char (char_of m :: char) = m"
  by (simp add: of_char_of)

lemma hex_value_upper_digit:
  assumes "n < 16"
  shows "hex_value (upper_char (hex_digit n)) = Some n"
proof -
  have 16: "unat n < 16"
    using assms by (simp add: word_less_nat_alt)
  show ?thesis
  proof (cases "unat n < 10")
    case True
    then have "hex_digit n = char_of (48 + unat n)"
      by (simp add: hex_digit_def word_less_nat_alt)
    with True show ?thesis
      by (simp add: upper_char_def hex_value_def of_char_char_of Let_def)
  next
    case False
    then have "hex_digit n = char_of (87 + unat n)"
      by (simp add: hex_digit_def word_less_nat_alt)
    with False 16 have "upper_char (hex_digit n) = char_of (55 + unat n)"
      by (simp add: upper_char_def of_char_char_of Let_def)
    with False 16 show ?thesis
      by (simp add: hex_value_def of_char_char_of Let_def)
  qed
qed

lemma high_nibble: "drop_bit 4 (b::byte) < 16"
proof -
  have "unat b < 256"
    using unsigned_less [of b, where 'a = nat] by simp
  then have "unat b div 16 < 16" by simp
  then show ?thesis
    by (simp add: word_less_nat_alt unat_drop_bit_eq drop_bit_eq_div unat_div)
qed

lemma low_nibble: "(b::byte) AND 15 < 16"
proof -
  have "b AND 15 \<le> 15" by (rule word_and_le1)
  then show ?thesis by (simp add: word_le_nat_alt word_less_nat_alt)
qed

lemma nibbles_join: "push_bit 4 (drop_bit 4 (b::byte)) OR (b AND 15) = b"
proof -
  have m: "(15::byte) = mask 4" by (simp add: mask_eq_exp_minus_1)
  show ?thesis
    unfolding m
    by (rule bit_word_eqI) (auto simp: bit_simps)
qed

lemma hex_decode_upper: "hex_decode (to_upper (hex_encode bs)) = Some bs"
  by (induction bs)
     (simp_all add: to_upper_def hex_value_upper_digit high_nibble low_nibble nibbles_join)

lemma upper_hex_inj: "to_upper (hex_encode bs) = to_upper (hex_encode cs) \<longleftrightarrow> bs = cs"
  by (metis hex_decode_upper option.inject)

lemma SHA256Hex_eq_iff: "SHA256Hex H a = SHA256Hex H b \<longleftrightarrow> sha256_sum H a = sha256_sum H b"
  by (simp add: SHA256Hex_def upper_hex_inj)

lemma sha1hex_eq_iff: "sha1hex H a = sha1hex H b \<longleftrightarrow> sha1_sum H a = sha1_sum H b"
  by (simp add: sha1hex_def upper_hex_inj)

lemma to_upper_SHA256Hex [simp]: "to_upper (SHA256Hex H der) = SHA256Hex H der"
  by (simp add: SHA256Hex_def)

lemma to_upper_sha1hex [simp]: "to_upper (sha1hex H der) = sha1hex H der"
  by (simp add: sha1hex_def)

lemma length_hex_encode [simp]: "length (hex_encode bs) = 2 * length bs"
  by (induction bs) simp_all

lemma length_SHA256Hex: "length (SHA256Hex H der) = 2 * length (sha256_sum H der)"
  by (simp add: SHA256Hex_def)

lemma length_sha1hex: "length (sha1hex H der) = 2 * length (sha1_sum H der)"
  by (simp add: sha1hex_def)

text \<open>The digests the examples of the development are evaluated with.\<close>

definition sample_hashes :: hashes where
  "sample_hashes = \<lparr>sha1_sum = (\<lambda>d. 1 # d), sha256_sum = (\<lambda>d. 2 # d)\<rparr>"

end
