(* ===== verification/Store.thy ===== *)
theory Store
  imports Digest "HOL-Library.Product_Lexorder"
begin

text \<open>
  The certificate, CRL and OCSP archive (internal/store/store.go) on its current schema: one
  record per row of each table, one definition per exported method, every SQL statement of the
  method in its order. SQLite itself is assumed to execute statements as documented and not to
  fail for reasons of its own (I/O, locking); the failures the statements themselves can have,
  a violated \<open>NOT NULL\<close> and a missing row, are values of \<open>db_error\<close>. The readings of the clock
  are arguments, one for each \<open>time.Now()\<close>. The lemmas about these definitions are in the theory
  Store_Laws.
\<close>

section \<open>Rows\<close>

text \<open>
  A BLOB or TEXT column that may be NULL is an option. Binding a nil \<open>[]byte\<close> binds NULL; the
  byte slices that reach the store are nil or not empty (\<open>extractCertInfo\<close>, \<open>ParseCRL\<close>).
\<close>

record cert_row =
  c_id :: nat
  c_subject :: string
  c_issuer :: string
  c_serial :: string
  c_ski :: string
  c_aki :: string
  c_name_der :: "bytes option"
  c_trusted :: bool
  c_pool :: bool
  c_sha1 :: string
  c_sha256 :: string
  c_der :: bytes
  c_is_ca :: bool
  c_self_signed :: bool
  c_source :: "string option"
  c_created :: int

record crl_row =
  k_id :: nat
  k_issuer :: string
  k_sha256 :: string
  k_der :: bytes
  k_this :: int
  k_next :: int
  k_created :: int

record ocsp_row =
  o_id :: nat
  o_thumb :: string
  o_responder :: string
  o_status :: string
  o_this :: int
  o_next :: "int option"
  o_produced :: int
  o_sha256 :: string
  o_der :: bytes
  o_created :: int

record store =
  certs :: "cert_row list"
  crls :: "crl_row list"
  crl_urls :: "(string \<times> string) list"
  ocsps :: "ocsp_row list"

definition empty_store :: store where
  "empty_store = \<lparr>certs = [], crls = [], crl_urls = [], ocsps = []\<rparr>"

datatype db_error = NotNull string | NoRows

text \<open>The parameters \<open>subject, issuer, ..., sourceURL\<close> the saving methods share.\<close>

record cert_args =
  a_subject :: string
  a_issuer :: string
  a_serial :: string
  a_ski :: string
  a_aki :: string
  a_name_der :: bytes
  a_der :: bytes
  a_is_ca :: bool
  a_self_signed :: bool
  a_source :: string

definition sql_blob :: "bytes \<Rightarrow> bytes option" where
  "sql_blob b = (if b = [] then None else Some b)"

text \<open>The row an \<open>INSERT INTO certs\<close> adds; \<open>trusted\<close> and \<open>pool\<close> default to 0.\<close>

definition cert_of_args :: "hashes \<Rightarrow> gotime \<Rightarrow> bool \<Rightarrow> bool \<Rightarrow> cert_args \<Rightarrow> cert_row list \<Rightarrow> cert_row" where
  "cert_of_args H now t p a rs =
     \<lparr>c_id = next_id c_id rs, c_subject = a_subject a, c_issuer = a_issuer a,
      c_serial = a_serial a, c_ski = a_ski a, c_aki = a_aki a,
      c_name_der = sql_blob (a_name_der a), c_trusted = t, c_pool = p,
      c_sha1 = sha1hex H (a_der a), c_sha256 = SHA256Hex H (a_der a), c_der = a_der a,
      c_is_ca = a_is_ca a, c_self_signed = a_self_signed a, c_source = Some (a_source a),
      c_created = unix now\<rparr>"

definition has_sha :: "string \<Rightarrow> cert_row \<Rightarrow> bool" where
  "has_sha h r \<longleftrightarrow> c_sha256 r = h"

section \<open>Certificates\<close>

text \<open>
  \<open>SaveCert\<close> archives: \<open>INSERT OR IGNORE\<close> skips a row that would violate the unique index on
  \<open>sha256\<close> or a \<open>NOT NULL\<close>.
\<close>

definition SaveCert :: "hashes \<Rightarrow> gotime \<Rightarrow> cert_args \<Rightarrow> store \<Rightarrow> store" where
  "SaveCert H now a s =
     (if a_der a = [] \<or> list_ex (has_sha (SHA256Hex H (a_der a))) (certs s) then s
      else s\<lparr>certs := certs s @ [cert_of_args H now False False a (certs s)]\<rparr>)"

text \<open>\<open>SavePoolCert\<close>: an upsert on \<open>sha256\<close> that sets \<open>pool\<close> on a known certificate.\<close>

definition SavePoolCert :: "hashes \<Rightarrow> gotime \<Rightarrow> cert_args \<Rightarrow> store \<Rightarrow> store \<times> (db_error + unit)" where
  "SavePoolCert H now a s =
     (let h = SHA256Hex H (a_der a) in
      if a_der a = [] then (s, Inl (NotNull ''certs.der''))
      else if list_ex (has_sha h) (certs s)
      then (s\<lparr>certs := update_where (has_sha h) (\<lambda>r. r\<lparr>c_pool := True\<rparr>) (certs s)\<rparr>, Inr ())
      else (s\<lparr>certs := certs s @ [cert_of_args H now False True a (certs s)]\<rparr>, Inr ()))"

text \<open>
  \<open>ImportTrustedCert\<close>: the certificate joins the pool in any case; it becomes trusted when it is
  new or its recorded source is another one (\<open>IS NOT\<close> compares NULL too). The result is
  \<open>RowsAffected > 0\<close> of the upsert.
\<close>

definition ImportTrustedCert :: "hashes \<Rightarrow> gotime \<Rightarrow> cert_args \<Rightarrow> store \<Rightarrow> store \<times> (db_error + bool)" where
  "ImportTrustedCert H now a s =
     (let h = SHA256Hex H (a_der a);
          s1 = s\<lparr>certs := update_where (has_sha h) (\<lambda>r. r\<lparr>c_pool := True\<rparr>) (certs s)\<rparr> in
      if a_der a = [] then (s1, Inl (NotNull ''certs.der''))
      else case find (has_sha h) (certs s1) of
        None \<Rightarrow> (s1\<lparr>certs := certs s1 @ [cert_of_args H now True True a (certs s1)]\<rparr>, Inr True)
      | Some r \<Rightarrow>
          if c_source r \<noteq> Some (a_source a)
          then (s1\<lparr>certs := update_where (has_sha h)
                     (\<lambda>r. r\<lparr>c_trusted := True, c_source := Some (a_source a)\<rparr>) (certs s1)\<rparr>, Inr True)
          else (s1, Inr False))"

text \<open>\<open>WithdrawBundleRoots\<close>; the result is the number of rows changed.\<close>

definition withdrawn :: "string \<Rightarrow> string list \<Rightarrow> cert_row \<Rightarrow> bool" where
  "withdrawn source keep r \<longleftrightarrow>
     c_source r = Some source \<and> c_self_signed r \<and> (keep \<noteq> [] \<longrightarrow> c_sha256 r \<notin> set keep)"

definition WithdrawBundleRoots :: "string \<Rightarrow> string list \<Rightarrow> store \<Rightarrow> store \<times> nat" where
  "WithdrawBundleRoots source keep s =
     (s\<lparr>certs := update_where (withdrawn source keep)
          (\<lambda>r. r\<lparr>c_trusted := False, c_source := Some (source @ '':removed'')\<rparr>) (certs s)\<rparr>,
      length (filter (withdrawn source keep) (certs s)))"

definition SetTrusted :: "string \<Rightarrow> bool \<Rightarrow> store \<Rightarrow> store \<times> (db_error + unit)" where
  "SetTrusted h t s =
     (let s' = s\<lparr>certs := update_where (has_sha (to_upper h)) (\<lambda>r. r\<lparr>c_trusted := t\<rparr>) (certs s)\<rparr> in
      if list_ex (has_sha (to_upper h)) (certs s) then (s', Inr ()) else (s', Inl NoRows))"

definition IsCertTrusted :: "string \<Rightarrow> store \<Rightarrow> bool" where
  "IsCertTrusted h s =
     (case find (has_sha (to_upper h)) (certs s) of None \<Rightarrow> False | Some r \<Rightarrow> c_trusted r)"

definition FindCertByThumbprint :: "string \<Rightarrow> store \<Rightarrow> bytes option" where
  "FindCertByThumbprint d s =
     (if length d = 40 then map_option c_der (find (\<lambda>r. c_sha1 r = to_upper d) (certs s))
      else if length d = 64 then map_option c_der (find (has_sha (to_upper d)) (certs s))
      else None)"

section \<open>Candidate issuers\<close>

record candidate =
  cand_der :: bytes
  cand_pool :: bool

text \<open>
  The \<open>WHERE\<close> clause: \<open>subject_name_der = ?\<close> holds of no row when the argument is NULL; the key
  identifier is compared only when there is one.
\<close>

definition issuer_match :: "bytes \<Rightarrow> string \<Rightarrow> cert_row \<Rightarrow> bool" where
  "issuer_match name aki r \<longleftrightarrow>
     name \<noteq> [] \<and> c_name_der r = Some name \<and> (aki \<noteq> [] \<longrightarrow> c_ski r = aki)"

definition pool_cond :: "cert_row \<Rightarrow> bool" where
  "pool_cond r \<longleftrightarrow> c_trusted r \<or> c_pool r"

text \<open>\<open>ORDER BY is_self_signed DESC, trusted DESC, id\<close>.\<close>

definition pool_order :: "cert_row \<Rightarrow> bool \<times> bool \<times> nat" where
  "pool_order r = (\<not> c_self_signed r, \<not> c_trusted r, c_id r)"

definition pool_branch :: "bytes \<Rightarrow> string \<Rightarrow> nat \<Rightarrow> store \<Rightarrow> cert_row list" where
  "pool_branch name aki n s =
     take n (sort_key pool_order (filter (\<lambda>r. issuer_match name aki r \<and> pool_cond r) (certs s)))"

definition archived_matches :: "bytes \<Rightarrow> string \<Rightarrow> store \<Rightarrow> cert_row list" where
  "archived_matches name aki s = filter (\<lambda>r. issuer_match name aki r \<and> \<not> pool_cond r) (certs s)"

text \<open>The \<open>UNION ALL\<close>: the pool, then the oldest and the newest archived matches.\<close>

definition issuer_rows :: "bytes \<Rightarrow> string \<Rightarrow> nat \<Rightarrow> nat \<Rightarrow> store \<Rightarrow> (nat \<times> candidate) list" where
  "issuer_rows name aki n archive s =
     map (\<lambda>r. (c_id r, \<lparr>cand_der = c_der r, cand_pool = True\<rparr>)) (pool_branch name aki n s) @
     (if archive > 0
      then map (\<lambda>r. (c_id r, \<lparr>cand_der = c_der r, cand_pool = False\<rparr>))
             (take archive (archived_matches name aki s) @
              take archive (rev (archived_matches name aki s)))
      else [])"

text \<open>The loop over the rows: a row already seen, by id, is skipped.\<close>

fun unseen :: "nat list \<Rightarrow> (nat \<times> 'a) list \<Rightarrow> 'a list" where
  "unseen seen [] = []"
| "unseen seen ((i, c) # rs) = (if i \<in> set seen then unseen seen rs else c # unseen (i # seen) rs)"

definition FindIssuers :: "bytes \<Rightarrow> string \<Rightarrow> nat \<Rightarrow> nat \<Rightarrow> store \<Rightarrow> candidate list" where
  "FindIssuers name aki n archive s = unseen [] (issuer_rows name aki n archive s)"

section \<open>CRLs\<close>

text \<open>
  \<open>SaveCRL\<close>: expired rows go, then the URLs that map to no fresh row, then the row is added
  once per content, the URL mapped to it, and the issuer's older rows no URL maps to go too.
\<close>

definition save_crl_row :: "hashes \<Rightarrow> gotime \<Rightarrow> string \<Rightarrow> bytes \<Rightarrow> gotime \<Rightarrow> gotime \<Rightarrow> crl_row list \<Rightarrow> crl_row list" where
  "save_crl_row H now issuer der this nxt rs =
     (if der = [] \<or> list_ex (\<lambda>r. k_sha256 r = SHA256Hex H der) rs then rs
      else rs @ [\<lparr>k_id = next_id k_id rs, k_issuer = issuer, k_sha256 = SHA256Hex H der, k_der = der,
                 k_this = unix this, k_next = unix nxt, k_created = unix now\<rparr>])"

definition expire_crls :: "gotime \<Rightarrow> store \<Rightarrow> store" where
  "expire_crls now s = s\<lparr>crls := delete_where (\<lambda>r. k_next r < unix now) (crls s)\<rparr>"

definition drop_dangling_urls :: "gotime \<Rightarrow> store \<Rightarrow> store" where
  "drop_dangling_urls now s =
     s\<lparr>crl_urls := delete_where
        (\<lambda>u. \<not> list_ex (\<lambda>r. k_sha256 r = snd u \<and> unix now \<le> k_next r) (crls s)) (crl_urls s)\<rparr>"

text \<open>\<open>INSERT OR REPLACE\<close> on the primary key \<open>url\<close>.\<close>

definition map_url :: "string \<Rightarrow> string \<Rightarrow> (string \<times> string) list \<Rightarrow> (string \<times> string) list" where
  "map_url url h us = delete_where (\<lambda>u. fst u = url) us @ [(url, h)]"

definition drop_superseded :: "string \<Rightarrow> gotime \<Rightarrow> store \<Rightarrow> store" where
  "drop_superseded issuer this s =
     s\<lparr>crls := delete_where
        (\<lambda>r. k_issuer r = issuer \<and> k_this r < unix this \<and> \<not> list_ex (\<lambda>u. snd u = k_sha256 r) (crl_urls s))
        (crls s)\<rparr>"

definition SaveCRL :: "hashes \<Rightarrow> gotime \<Rightarrow> gotime \<Rightarrow> gotime \<Rightarrow> string \<Rightarrow> string \<Rightarrow> bytes \<Rightarrow> gotime \<Rightarrow> gotime
    \<Rightarrow> store \<Rightarrow> store" where
  "SaveCRL H t1 t2 t3 issuer url der this nxt s =
     (let s1 = drop_dangling_urls t2 (expire_crls t1 s);
          s2 = s1\<lparr>crls := save_crl_row H t3 issuer der this nxt (crls s1)\<rparr>;
          s3 = (if url \<noteq> [] then s2\<lparr>crl_urls := map_url url (SHA256Hex H der) (crl_urls s2)\<rparr> else s2)
      in drop_superseded issuer this s3)"

definition fresh_crl_row :: "gotime \<Rightarrow> string \<Rightarrow> store \<Rightarrow> crl_row option" where
  "fresh_crl_row now url s =
     (case map_of (crl_urls s) url of None \<Rightarrow> None
      | Some h \<Rightarrow> find (\<lambda>r. k_sha256 r = h \<and> unix now < k_next r) (crls s))"

definition FindFreshCRL :: "gotime \<Rightarrow> string \<Rightarrow> store \<Rightarrow> bytes option" where
  "FindFreshCRL now url s = map_option k_der (fresh_crl_row now url s)"

definition FreshCRLSize :: "gotime \<Rightarrow> string \<Rightarrow> store \<Rightarrow> nat" where
  "FreshCRLSize now url s =
     (case fresh_crl_row now url s of None \<Rightarrow> 0 | Some r \<Rightarrow> length (k_der r))"

text \<open>\<open>ORDER BY this_update DESC LIMIT 1\<close>: the first row of a stable descending sort.\<close>

definition FindFreshCRLByIssuer :: "gotime \<Rightarrow> string \<Rightarrow> store \<Rightarrow> bytes option" where
  "FindFreshCRLByIssuer now issuer s =
     (if issuer = [] then None
      else case sort_key (\<lambda>r. - k_this r) (filter (\<lambda>r. k_issuer r = issuer \<and> unix now < k_next r) (crls s)) of
        [] \<Rightarrow> None | r # _ \<Rightarrow> Some (k_der r))"

section \<open>OCSP responses\<close>

definition ocsp_expired :: "gotime \<Rightarrow> ocsp_row \<Rightarrow> bool" where
  "ocsp_expired now r = (case o_next r of None \<Rightarrow> False | Some n \<Rightarrow> n < unix now)"

definition SaveOCSP :: "hashes \<Rightarrow> gotime \<Rightarrow> gotime \<Rightarrow> string \<Rightarrow> string \<Rightarrow> string \<Rightarrow> bytes
    \<Rightarrow> gotime \<Rightarrow> gotime \<Rightarrow> gotime \<Rightarrow> store \<Rightarrow> store \<times> (db_error + unit)" where
  "SaveOCSP H t1 t2 thumb url status der this nxt produced s =
     (let rs = delete_where (\<lambda>r. o_thumb r = to_upper thumb \<or> ocsp_expired t1 r) (ocsps s);
          row = \<lparr>o_id = next_id o_id rs, o_thumb = to_upper thumb, o_responder = url,
                 o_status = status, o_this = unix this,
                 o_next = (if nxt = zero_time then None else Some (unix nxt)),
                 o_produced = unix produced, o_sha256 = SHA256Hex H der, o_der = der,
                 o_created = unix t2\<rparr> in
      if der = [] then (s\<lparr>ocsps := rs\<rparr>, Inl (NotNull ''ocsp_responses.der''))
      else (s\<lparr>ocsps := rs @ [row]\<rparr>, Inr ()))"

definition ocsp_fresh :: "gotime \<Rightarrow> ocsp_row \<Rightarrow> bool" where
  "ocsp_fresh now r = (case o_next r of None \<Rightarrow> True | Some n \<Rightarrow> unix now < n)"

definition FindFreshOCSP :: "gotime \<Rightarrow> string \<Rightarrow> store \<Rightarrow> bytes option" where
  "FindFreshOCSP now thumb s =
     (if thumb = [] then None
      else case sort_key (\<lambda>r. - o_this r)
             (filter (\<lambda>r. o_thumb r = to_upper thumb \<and> ocsp_fresh now r) (ocsps s)) of
        [] \<Rightarrow> None | r # _ \<Rightarrow> Some (o_der r))"

section \<open>Objects by content\<close>

text \<open>\<open>derTables\<close> in order; \<open>LIMIT 1\<close> takes the row with the least id.\<close>

definition FindDERBySHA256 :: "string \<Rightarrow> store \<Rightarrow> bytes option" where
  "FindDERBySHA256 h s =
     (case find (has_sha (to_upper h)) (certs s) of Some r \<Rightarrow> Some (c_der r) | None \<Rightarrow>
      (case find (\<lambda>r. k_sha256 r = to_upper h) (crls s) of Some r \<Rightarrow> Some (k_der r) | None \<Rightarrow>
       (case find (\<lambda>r. o_sha256 r = to_upper h) (ocsps s) of Some r \<Rightarrow> Some (o_der r) | None \<Rightarrow> None)))"

definition DERSize :: "string \<Rightarrow> store \<Rightarrow> nat" where
  "DERSize h s =
     (case find (has_sha (to_upper h)) (certs s) of Some r \<Rightarrow> length (c_der r) | None \<Rightarrow>
      (case find (\<lambda>r. k_sha256 r = to_upper h) (crls s) of Some r \<Rightarrow> length (k_der r) | None \<Rightarrow>
       (case find (\<lambda>r. o_sha256 r = to_upper h) (ocsps s) of Some r \<Rightarrow> length (o_der r) | None \<Rightarrow> 0)))"

definition HasDER :: "string \<Rightarrow> store \<Rightarrow> bool" where
  "HasDER h s \<longleftrightarrow>
     list_ex (has_sha (to_upper h)) (certs s) \<or>
     list_ex (\<lambda>r. k_sha256 r = to_upper h) (crls s) \<or>
     list_ex (\<lambda>r. o_sha256 r = to_upper h) (ocsps s)"

definition Stats :: "store \<Rightarrow> nat \<times> nat" where
  "Stats s = (length (certs s), length (crls s))"

end
