(* ===== verification/Store_Laws.thy ===== *)
theory Store_Laws
  imports Store
begin

text \<open>
  What the archive of the theory Store guarantees: its invariant under every operation, which
  operations can change the trust of a certificate, what the issuer search returns, and that
  what was saved is found again. The interfaces the analysis relies on are the locales
  \<open>cert_archive\<close> and \<open>issuer_index\<close>, interpreted here on the store.
\<close>

section \<open>The operations as one type\<close>

text \<open>
  Every method that writes, with its arguments. \<open>SaveCert\<close>, \<open>SavePoolCert\<close>, \<open>SaveCRL\<close> and
  \<open>SaveOCSP\<close> are what an analysis calls; the others are reached from the bundle import and the
  admin listener only.
\<close>

datatype store_op =
    Op_SaveCert gotime cert_args
  | Op_SavePoolCert gotime cert_args
  | Op_SaveCRL gotime gotime gotime string string bytes gotime gotime
  | Op_SaveOCSP gotime gotime string string string bytes gotime gotime gotime
  | Op_ImportTrustedCert gotime cert_args
  | Op_WithdrawBundleRoots string "string list"
  | Op_SetTrusted string bool

fun apply_op :: "hashes \<Rightarrow> store_op \<Rightarrow> store \<Rightarrow> store" where
  "apply_op H (Op_SaveCert t a) s = SaveCert H t a s"
| "apply_op H (Op_SavePoolCert t a) s = fst (SavePoolCert H t a s)"
| "apply_op H (Op_SaveCRL t1 t2 t3 i u d b n) s = SaveCRL H t1 t2 t3 i u d b n s"
| "apply_op H (Op_SaveOCSP t1 t2 th u st d b n p) s = fst (SaveOCSP H t1 t2 th u st d b n p s)"
| "apply_op H (Op_ImportTrustedCert t a) s = fst (ImportTrustedCert H t a s)"
| "apply_op H (Op_WithdrawBundleRoots src keep) s = fst (WithdrawBundleRoots src keep s)"
| "apply_op H (Op_SetTrusted h t) s = fst (SetTrusted h t s)"

definition store_step :: "hashes \<Rightarrow> store \<Rightarrow> store \<Rightarrow> bool" where
  "store_step H s t \<longleftrightarrow> (\<exists>op. t = apply_op H op s)"

fun analysis_op :: "store_op \<Rightarrow> bool" where
  "analysis_op (Op_SaveCert _ _) = True"
| "analysis_op (Op_SavePoolCert _ _) = True"
| "analysis_op (Op_SaveCRL _ _ _ _ _ _ _ _) = True"
| "analysis_op (Op_SaveOCSP _ _ _ _ _ _ _ _ _) = True"
| "analysis_op _ = False"

section \<open>The invariant\<close>

text \<open>
  Certificates and CRLs are stored once per content and filed under their own digest, ids ascend,
  a certificate has at most one OCSP response.
\<close>

definition certs_ok :: "hashes \<Rightarrow> cert_row list \<Rightarrow> bool" where
  "certs_ok H rs \<longleftrightarrow> table_ok c_id c_sha256 rs \<and>
     (\<forall>r \<in> set rs. c_der r \<noteq> [] \<and> c_sha256 r = SHA256Hex H (c_der r) \<and> c_sha1 r = sha1hex H (c_der r))"

definition crls_ok :: "hashes \<Rightarrow> crl_row list \<Rightarrow> bool" where
  "crls_ok H rs \<longleftrightarrow> table_ok k_id k_sha256 rs \<and>
     (\<forall>r \<in> set rs. k_der r \<noteq> [] \<and> k_sha256 r = SHA256Hex H (k_der r))"

definition ocsps_ok :: "hashes \<Rightarrow> ocsp_row list \<Rightarrow> bool" where
  "ocsps_ok H rs \<longleftrightarrow> table_ok o_id o_thumb rs \<and>
     (\<forall>r \<in> set rs. o_der r \<noteq> [] \<and> o_sha256 r = SHA256Hex H (o_der r))"

definition store_ok :: "hashes \<Rightarrow> store \<Rightarrow> bool" where
  "store_ok H s \<longleftrightarrow> certs_ok H (certs s) \<and> crls_ok H (crls s) \<and> ocsps_ok H (ocsps s)
     \<and> distinct (map fst (crl_urls s))"

lemma certs_ok_update:
  assumes "certs_ok H rs"
    and "\<And>r. c_id (f r) = c_id r" "\<And>r. c_sha256 (f r) = c_sha256 r"
      "\<And>r. c_sha1 (f r) = c_sha1 r" "\<And>r. c_der (f r) = c_der r"
  shows "certs_ok H (update_where P f rs)"
  using assms by (auto simp: certs_ok_def table_simps intro!: table_ok_update)

lemma certs_ok_insert:
  assumes "certs_ok H rs" and "a_der a \<noteq> []" and "\<not> list_ex (has_sha (SHA256Hex H (a_der a))) rs"
  shows "certs_ok H (rs @ [cert_of_args H now t p a rs])"
  using assms
  by (auto simp: certs_ok_def cert_of_args_def list_ex_iff has_sha_def intro!: table_ok_insert)

lemma store_ok_empty: "store_ok H empty_store"
  by (simp add: store_ok_def empty_store_def certs_ok_def crls_ok_def ocsps_ok_def)

lemma store_ok_SaveCert: "store_ok H s \<Longrightarrow> store_ok H (SaveCert H now a s)"
  by (auto simp: store_ok_def SaveCert_def intro: certs_ok_insert)

lemma store_ok_SavePoolCert: "store_ok H s \<Longrightarrow> store_ok H (fst (SavePoolCert H now a s))"
  by (auto simp: store_ok_def SavePoolCert_def Let_def intro: certs_ok_insert certs_ok_update)

lemma store_ok_ImportTrustedCert: "store_ok H s \<Longrightarrow> store_ok H (fst (ImportTrustedCert H now a s))"
  by (auto simp: store_ok_def ImportTrustedCert_def Let_def find_iff_list_ex split: option.splits
      intro!: certs_ok_insert certs_ok_update)

lemma store_ok_WithdrawBundleRoots: "store_ok H s \<Longrightarrow> store_ok H (fst (WithdrawBundleRoots src keep s))"
  by (auto simp: store_ok_def WithdrawBundleRoots_def intro: certs_ok_update)

lemma store_ok_SetTrusted: "store_ok H s \<Longrightarrow> store_ok H (fst (SetTrusted h t s))"
  by (auto simp: store_ok_def SetTrusted_def Let_def intro: certs_ok_update)

lemma crls_ok_delete: "crls_ok H rs \<Longrightarrow> crls_ok H (delete_where P rs)"
  by (simp add: crls_ok_def table_simps)

lemma crls_ok_save: "crls_ok H rs \<Longrightarrow> crls_ok H (save_crl_row H now i der this nxt rs)"
  by (auto simp: crls_ok_def save_crl_row_def list_ex_iff intro!: table_ok_insert)

lemma distinct_map_url: "distinct (map fst us) \<Longrightarrow> distinct (map fst (map_url u h us))"
  by (auto simp: map_url_def table_simps)

lemmas SaveCRL_defs = SaveCRL_def expire_crls_def drop_dangling_urls_def drop_superseded_def Let_def

lemma store_ok_SaveCRL: "store_ok H s \<Longrightarrow> store_ok H (SaveCRL H t1 t2 t3 i u der b n s)"
  by (simp add: store_ok_def SaveCRL_defs crls_ok_delete crls_ok_save distinct_map_url)

lemma store_ok_SaveOCSP: "store_ok H s \<Longrightarrow> store_ok H (fst (SaveOCSP H t1 t2 th u st der b n p s))"
  by (auto simp: store_ok_def SaveOCSP_def Let_def ocsps_ok_def table_simps intro!: table_ok_insert)

lemmas store_ok_ops = store_ok_SaveCert store_ok_SavePoolCert store_ok_SaveCRL store_ok_SaveOCSP
  store_ok_ImportTrustedCert store_ok_WithdrawBundleRoots store_ok_SetTrusted

lemma store_ok_apply_op: "store_ok H s \<Longrightarrow> store_ok H (apply_op H op s)"
  by (cases op) (simp_all add: store_ok_ops)

interpretation store_system: transition_system "\<lambda>s. s = empty_store" "store_step H" "store_ok H" for H
  by unfold_locales (auto simp: store_ok_empty store_step_def store_ok_apply_op)

lemma store_run_steps: "(store_step H)\<^sup>*\<^sup>* s (fold (apply_op H) ops s)"
proof (induction ops arbitrary: s)
  case (Cons op ops)
  have "store_step H s (apply_op H op s)" by (auto simp: store_step_def)
  from converse_rtranclp_into_rtranclp [of "store_step H", OF this Cons.IH] show ?case by simp
qed simp

section \<open>Trust\<close>

lemma cert_by_sha:
  "store_ok H s \<Longrightarrow> r \<in> set (certs s) \<Longrightarrow> find (has_sha (c_sha256 r)) (certs s) = Some r"
  by (rule find_unique)
     (auto simp: store_ok_def certs_ok_def has_sha_def dest: table_ok_key)

lemma trust_of_row:
  assumes "find (has_sha (to_upper h)) (certs s) = Some r"
  shows "IsCertTrusted h s = c_trusted r"
  using assms by (simp add: IsCertTrusted_def)

lemma SaveCert_trust [trust_simps]: "IsCertTrusted h (SaveCert H now a s) = IsCertTrusted h s"
  by (auto simp: SaveCert_def IsCertTrusted_def find_append cert_of_args_def split: option.splits)

lemma SavePoolCert_trust [trust_simps]:
  "IsCertTrusted h (fst (SavePoolCert H now a s)) = IsCertTrusted h s"
proof -
  have "find (has_sha h') (update_where Q (\<lambda>r. r\<lparr>c_pool := True\<rparr>) rs)
      = map_option (\<lambda>r. if Q r then r\<lparr>c_pool := True\<rparr> else r) (find (has_sha h') rs)" for h' Q rs
    by (rule find_update_where) (simp add: has_sha_def)
  then show ?thesis
    by (auto simp: SavePoolCert_def IsCertTrusted_def Let_def find_append cert_of_args_def
        split: option.splits)
qed

lemma SaveCRL_certs [simp]: "certs (SaveCRL H t1 t2 t3 i u der b n s) = certs s"
  by (simp add: SaveCRL_defs)

lemma SaveOCSP_certs [simp]: "certs (fst (SaveOCSP H t1 t2 th u st der b n p s)) = certs s"
  by (simp add: SaveOCSP_def Let_def)

lemma SaveCRL_trust [trust_simps]:
  "IsCertTrusted h (SaveCRL H t1 t2 t3 i u der b n s) = IsCertTrusted h s"
  by (simp add: IsCertTrusted_def)

lemma SaveOCSP_trust [trust_simps]:
  "IsCertTrusted h (fst (SaveOCSP H t1 t2 th u st der b n p s)) = IsCertTrusted h s"
  by (simp add: IsCertTrusted_def)

lemma analysis_op_trust: "analysis_op op \<Longrightarrow> IsCertTrusted h (apply_op H op s) = IsCertTrusted h s"
  by (cases op) (simp_all add: trust_simps)

text \<open>What an analysis may do to the certificates, as an interface: it never changes trust.\<close>

locale cert_archive =
  fixes trusted :: "string \<Rightarrow> 's \<Rightarrow> bool"
    and save :: "'op \<Rightarrow> 's \<Rightarrow> 's"
    and harmless :: "'op \<Rightarrow> bool"
  assumes harmless_save: "harmless op \<Longrightarrow> trusted h (save op s) = trusted h s"
begin

lemma harmless_saves:
  "\<forall>op \<in> set ops. harmless op \<Longrightarrow> trusted h (fold save ops s) = trusted h s"
  by (induction ops arbitrary: s) (simp_all add: harmless_save)

end

interpretation archive: cert_archive IsCertTrusted "apply_op H" analysis_op for H
  by unfold_locales (rule analysis_op_trust)

text \<open>
  Property C29. Whatever sequence of operations the store has gone through from an empty database,
  the certificates and the CRLs are stored once per content, each row is filed under the digests
  of its own DER, row ids ascend, and no certificate has two OCSP responses.
\<close>

lemma store_invariant: "store_ok H (fold (apply_op H) ops empty_store)"
  by (rule store_system.inv_reachable [OF refl store_run_steps])

text \<open>
  No sequence of uploads, archived or pooled certificates, CRLs and OCSP responses
  changes the trust of any certificate: trust comes from the bundle and from the administrator.
\<close>

lemma analysis_never_changes_trust:
  assumes "\<forall>op \<in> set ops. analysis_op op"
  shows "IsCertTrusted h (fold (apply_op H) ops s) = IsCertTrusted h s"
  using assms by (rule archive.harmless_saves)

subsection \<open>An administrator's decision survives the bundle\<close>

text \<open>
  \<open>denied h src\<close>: the certificate \<open>h\<close> was imported from the bundle \<open>src\<close> and is not trusted. The
  operations that end this are the administrator trusting it, another bundle vouching for it,
  and the bundle \<open>src\<close> itself letting go of its roots.
\<close>

definition denied :: "string \<Rightarrow> string \<Rightarrow> store \<Rightarrow> bool" where
  "denied h src s \<longleftrightarrow> (\<exists>r \<in> set (certs s). c_sha256 r = h \<and> c_source r = Some src \<and> \<not> c_trusted r)"

fun lifts_denial :: "hashes \<Rightarrow> string \<Rightarrow> string \<Rightarrow> store_op \<Rightarrow> bool" where
  "lifts_denial H h src (Op_SetTrusted h' t) = (t \<and> to_upper h' = h)"
| "lifts_denial H h src (Op_ImportTrustedCert t a) = (SHA256Hex H (a_der a) = h \<and> a_source a \<noteq> src)"
| "lifts_denial H h src (Op_WithdrawBundleRoots src' keep) = (src' = src)"
| "lifts_denial H h src op = False"

lemma denied_not_trusted:
  assumes "store_ok H s" and "denied h src s"
  shows "\<not> IsCertTrusted h s"
proof -
  from assms(2) obtain r where r: "r \<in> set (certs s)" "c_sha256 r = h" "\<not> c_trusted r"
    by (auto simp: denied_def)
  moreover from r assms(1) have "to_upper h = h"
    by (auto simp: store_ok_def certs_ok_def)
  ultimately show ?thesis
    using cert_by_sha [OF assms(1) r(1)] by (simp add: IsCertTrusted_def)
qed

lemma denied_insert: "certs t = certs s @ rs \<Longrightarrow> denied h src s \<Longrightarrow> denied h src t"
  by (auto simp: denied_def)

lemma denied_update:
  assumes "certs t = update_where P f (certs s)" and "denied h src s"
    and "\<And>r. c_sha256 r = h \<Longrightarrow> c_source r = Some src \<Longrightarrow> \<not> c_trusted r \<Longrightarrow> P r \<Longrightarrow>
           c_sha256 (f r) = h \<and> c_source (f r) = Some src \<and> \<not> c_trusted (f r)"
  shows "denied h src t"
proof -
  from assms(2) obtain r where r: "r \<in> set (certs s)" "c_sha256 r = h" "c_source r = Some src" "\<not> c_trusted r"
    by (auto simp: denied_def)
  let ?q = "if P r then f r else r"
  have "?q \<in> set (certs t)" using r(1) by (auto simp: assms(1) table_simps)
  moreover have "c_sha256 ?q = h \<and> c_source ?q = Some src \<and> \<not> c_trusted ?q"
    using r assms(3) by simp
  ultimately show ?thesis unfolding denied_def by blast
qed

lemma denied_pool_mark:
  "denied h src s \<Longrightarrow>
   denied h src (s\<lparr>certs := update_where P (\<lambda>r. r\<lparr>c_pool := True\<rparr>) (certs s)\<rparr>)"
  by (erule denied_update [where P = P and f = "\<lambda>r. r\<lparr>c_pool := True\<rparr>", rotated]) simp_all

lemma denied_import:
  assumes ok: "store_ok H s" and d: "denied h src s"
    and "SHA256Hex H (a_der a) = h \<longrightarrow> a_source a = src"
  shows "denied h src (fst (ImportTrustedCert H now a s))"
proof -
  let ?h = "SHA256Hex H (a_der a)"
  let ?s1 = "s\<lparr>certs := update_where (has_sha ?h) (\<lambda>r. r\<lparr>c_pool := True\<rparr>) (certs s)\<rparr>"
  have ok1: "store_ok H ?s1" using ok by (auto simp: store_ok_def intro: certs_ok_update)
  have d1: "denied h src ?s1" using d by (rule denied_pool_mark)
  then obtain q where q: "q \<in> set (certs ?s1)" "c_sha256 q = h" "c_source q = Some src"
    by (auto simp: denied_def)
  have keep: "denied h src (?s1\<lparr>certs := update_where (has_sha ?h)
       (\<lambda>r. r\<lparr>c_trusted := True, c_source := Some (a_source a)\<rparr>) (certs ?s1)\<rparr>)" if ne: "?h \<noteq> h"
    by (rule denied_update [where P = "has_sha ?h" and s = ?s1
          and f = "\<lambda>r. r\<lparr>c_trusted := True, c_source := Some (a_source a)\<rparr>", OF _ d1])
       (use ne in \<open>simp_all add: has_sha_def\<close>)
  show ?thesis
  proof (cases "?h = h")
    case True
    with cert_by_sha [OF ok1 q(1)] q have "find (has_sha ?h) (certs ?s1) = Some q" by simp
    with True assms(3) q(3) d1 show ?thesis by (simp add: ImportTrustedCert_def Let_def)
  next
    case False
    then show ?thesis
      using d1 keep
      by (auto simp: ImportTrustedCert_def Let_def split: option.splits intro!: denied_insert [OF _ d1])
  qed
qed

lemma denied_step:
  assumes "store_ok H s" and "denied h src s" and "\<not> lifts_denial H h src op"
  shows "denied h src (apply_op H op s)"
proof (cases op)
  case (Op_SaveCert t a)
  with assms show ?thesis by (auto simp: SaveCert_def intro: denied_insert)
next
  case (Op_SavePoolCert t a)
  with assms show ?thesis
    by (auto simp: SavePoolCert_def Let_def intro: denied_insert denied_pool_mark)
next
  case (Op_SaveCRL t1 t2 t3 i u d b n)
  with assms show ?thesis by (simp add: denied_def)
next
  case (Op_SaveOCSP t1 t2 th u st d b n p)
  with assms show ?thesis by (simp add: denied_def)
next
  case (Op_ImportTrustedCert t a)
  with assms show ?thesis by (auto intro: denied_import)
next
  case (Op_WithdrawBundleRoots src' keep)
  with assms show ?thesis
    by (auto simp: WithdrawBundleRoots_def withdrawn_def intro!: denied_update [where s = s])
next
  case (Op_SetTrusted h' t)
  with assms show ?thesis
    by (auto simp: SetTrusted_def Let_def has_sha_def intro!: denied_update [where s = s])
qed

lemma denied_run:
  assumes "store_ok H s" and "denied h src s" and "\<forall>op \<in> set ops. \<not> lifts_denial H h src op"
  shows "store_ok H (fold (apply_op H) ops s) \<and> denied h src (fold (apply_op H) ops s)"
  using assms by (induction ops arbitrary: s) (simp_all add: store_ok_apply_op denied_step)

lemma import_records_source:
  assumes "store_ok H s" and "a_der a \<noteq> []"
  shows "\<exists>r \<in> set (certs (fst (ImportTrustedCert H now a s))).
           c_sha256 r = SHA256Hex H (a_der a) \<and> c_source r = Some (a_source a)"
proof -
  let ?h = "SHA256Hex H (a_der a)"
  let ?rs = "update_where (has_sha ?h) (\<lambda>r. r\<lparr>c_pool := True\<rparr>) (certs s)"
  show ?thesis
  proof (cases "find (has_sha ?h) ?rs")
    case None
    with assms(2) show ?thesis by (auto simp: ImportTrustedCert_def Let_def cert_of_args_def)
  next
    case (Some r)
    then have r: "r \<in> set ?rs" "has_sha ?h r" by (auto dest: find_SomeD)
    show ?thesis
    proof (cases "c_source r = Some (a_source a)")
      case True
      with Some r assms(2) show ?thesis
        by (auto simp: ImportTrustedCert_def Let_def has_sha_def)
    next
      case False
      with Some r assms(2) show ?thesis
        by (auto simp: ImportTrustedCert_def Let_def has_sha_def
            intro!: bexI [OF _ update_where_hit [where P = "has_sha ?h", OF r(1)]])
    qed
  qed
qed

lemma untrust_denies:
  assumes "store_ok H s" and "r \<in> set (certs s)" and "c_source r = Some src"
  shows "denied (c_sha256 r) src (fst (SetTrusted (c_sha256 r) False s))"
proof -
  have "to_upper (c_sha256 r) = c_sha256 r"
    using assms(1,2) by (auto simp: store_ok_def certs_ok_def)
  with assms(2,3) show ?thesis
    by (auto simp: denied_def SetTrusted_def Let_def table_simps has_sha_def
        intro!: bexI [of _ "r\<lparr>c_trusted := False\<rparr>"] image_eqI [of _ _ r])
qed

text \<open>
  Once the administrator untrusts a root imported from a bundle, it stays untrusted
  through any number of restarts that import the same bundle again, uploads, and analyses; only
  the administrator, another bundle, or the root leaving its bundle can change that.
\<close>

lemma untrust_survives_reimport:
  assumes "store_ok H s" and "a_der a \<noteq> []" and "h = SHA256Hex H (a_der a)"
    and "\<forall>op \<in> set ops. \<not> lifts_denial H h (a_source a) op"
  shows "\<not> IsCertTrusted h
    (fold (apply_op H) (Op_ImportTrustedCert t a # Op_SetTrusted h False # ops) s)"
proof -
  let ?s1 = "fst (ImportTrustedCert H t a s)"
  have ok1: "store_ok H ?s1" using assms(1) by (rule store_ok_ImportTrustedCert)
  obtain r where r: "r \<in> set (certs ?s1)" "c_sha256 r = h" "c_source r = Some (a_source a)"
    using import_records_source [OF assms(1,2)] assms(3) by blast
  have "denied h (a_source a) (fst (SetTrusted h False ?s1))"
    using untrust_denies [OF ok1 r(1,3)] r(2) by simp
  from denied_run [OF store_ok_SetTrusted [OF ok1] this assms(4)] show ?thesis
    by (auto dest: denied_not_trusted)
qed

text \<open>Arguments for the examples.\<close>

definition sample_args :: "string \<Rightarrow> bytes \<Rightarrow> bool \<Rightarrow> string \<Rightarrow> cert_args" where
  "sample_args name der ss source =
     \<lparr>a_subject = name, a_issuer = name, a_serial = ''01'', a_ski = ''AB'', a_aki = '''',
      a_name_der = bytes_of name, a_der = der, a_is_ca = True, a_self_signed = ss, a_source = source\<rparr>"

lemma untrust_survives_reimport_witness:
  "\<not> IsCertTrusted (SHA256Hex sample_hashes [48])
     (fold (apply_op sample_hashes)
       [Op_ImportTrustedCert 0 (sample_args ''CN=R'' [48] True ''ru-gov''),
        Op_SetTrusted (SHA256Hex sample_hashes [48]) False,
        Op_ImportTrustedCert 5 (sample_args ''CN=R'' [48] True ''ru-gov''),
        Op_SaveCert 6 (sample_args ''CN=R'' [48] True '''')] empty_store)"
  by (rule untrust_survives_reimport)
     (simp_all add: store_ok_empty sample_args_def)

lemma analysis_never_changes_trust_witness:
  "IsCertTrusted (SHA256Hex sample_hashes [48])
     (fold (apply_op sample_hashes)
       [Op_SaveCert 1 (sample_args ''CN=R'' [48] True ''''),
        Op_SavePoolCert 2 (sample_args ''CN=R'' [48] True '''')]
       (fst (ImportTrustedCert sample_hashes 0 (sample_args ''CN=R'' [48] True ''mozilla'') empty_store)))
   = IsCertTrusted (SHA256Hex sample_hashes [48])
       (fst (ImportTrustedCert sample_hashes 0 (sample_args ''CN=R'' [48] True ''mozilla'') empty_store))"
  by (rule analysis_never_changes_trust) simp

end
