(* ===== verification/Store_Find.thy ===== *)
theory Store_Find
  imports Store_Laws
begin

text \<open>
  What the store finds: the candidate issuers of a certificate (\<open>FindIssuers\<close>), objects by
  content hash and by thumbprint, the fresh CRL of a URL or an issuer, the fresh OCSP response
  of a certificate.
\<close>

section \<open>Candidate issuers\<close>

definition cand_of :: "cert_row \<Rightarrow> candidate" where
  "cand_of r = \<lparr>cand_der = c_der r, cand_pool = pool_cond r\<rparr>"

definition issuer_sample :: "bytes \<Rightarrow> string \<Rightarrow> nat \<Rightarrow> nat \<Rightarrow> store \<Rightarrow> cert_row list" where
  "issuer_sample name aki n m s = pool_branch name aki n s @
     (if m > 0 then take m (archived_matches name aki s) @ take m (rev (archived_matches name aki s)) else [])"

fun first_by :: "('r \<Rightarrow> nat) \<Rightarrow> nat list \<Rightarrow> 'r list \<Rightarrow> 'r list" where
  "first_by rid seen [] = []"
| "first_by rid seen (r # rs) =
     (if rid r \<in> set seen then first_by rid seen rs else r # first_by rid (rid r # seen) rs)"

lemma unseen_map: "unseen seen (map (\<lambda>r. (rid r, g r)) rs) = map g (first_by rid seen rs)"
  by (induction rid seen rs rule: first_by.induct) simp_all

lemma set_first_by: "inj_on rid (set rs) \<Longrightarrow> set (first_by rid seen rs) = {r \<in> set rs. rid r \<notin> set seen}"
proof (induction rid seen rs rule: first_by.induct)
  case (2 rid seen r rs)
  then show ?case by (auto simp: inj_on_def)
qed simp

lemma distinct_first_by: "distinct (map rid (first_by rid seen rs)) \<and>
    rid ` set (first_by rid seen rs) \<inter> set seen = {}"
  by (induction rid seen rs rule: first_by.induct) auto

lemma length_first_by: "length (first_by rid seen rs) \<le> length rs"
  by (induction rid seen rs rule: first_by.induct) auto

lemma first_by_subset: "set (first_by rid seen rs) \<subseteq> set rs"
  by (induction rid seen rs rule: first_by.induct) auto

lemma first_by_append:
  "\<exists>seen'. first_by rid seen (xs @ ys) = first_by rid seen xs @ first_by rid seen' ys"
  by (induction rid seen xs rule: first_by.induct) auto

lemma first_by_distinct:
  "distinct (map rid rs) \<Longrightarrow> rid ` set rs \<inter> set seen = {} \<Longrightarrow> first_by rid seen rs = rs"
  by (induction rid seen rs rule: first_by.induct) auto

lemma set_pool_branch: "set (pool_branch name aki n s) \<subseteq> {r \<in> set (certs s). issuer_match name aki r \<and> pool_cond r}"
  by (auto simp: pool_branch_def dest: in_set_takeD)

lemma set_archived: "set (archived_matches name aki s) = {r \<in> set (certs s). issuer_match name aki r \<and> \<not> pool_cond r}"
  by (auto simp: archived_matches_def)

lemma set_issuer_sample: "set (issuer_sample name aki n m s) \<subseteq> {r \<in> set (certs s). issuer_match name aki r}"
  using set_pool_branch [of name aki n s]
  by (auto simp: issuer_sample_def set_archived dest!: in_set_takeD)

lemma issuer_rows_sample:
  "issuer_rows name aki n m s = map (\<lambda>r. (c_id r, cand_of r)) (issuer_sample name aki n m s)"
proof -
  have "r \<in> set (pool_branch name aki n s) \<Longrightarrow> pool_cond r" for r
    using set_pool_branch [of name aki n s] by auto
  moreover have "r \<in> set (take m (archived_matches name aki s) @ take m (rev (archived_matches name aki s)))
      \<Longrightarrow> \<not> pool_cond r" for r
    by (auto simp: set_archived dest!: in_set_takeD)
  ultimately show ?thesis
    by (auto simp: issuer_rows_def issuer_sample_def cand_of_def)
qed

lemma FindIssuers_rows:
  "FindIssuers name aki n m s = map cand_of (first_by c_id [] (issuer_sample name aki n m s))"
  by (simp add: FindIssuers_def issuer_rows_sample unseen_map)

lemma certs_inj_id: "store_ok H s \<Longrightarrow> inj_on c_id (set (certs s))"
  by (auto simp: store_ok_def certs_ok_def dest!: table_ok_distinct_ids simp: distinct_map)

lemma certs_inj_der: "store_ok H s \<Longrightarrow> inj_on c_der (set (certs s))"
  by (auto simp: store_ok_def certs_ok_def inj_on_def dest: table_ok_key)

lemma set_FindIssuers:
  assumes "store_ok H s"
  shows "set (FindIssuers name aki n m s) = cand_of ` set (issuer_sample name aki n m s)"
proof -
  have "inj_on c_id (set (issuer_sample name aki n m s))"
    using certs_inj_id [OF assms] set_issuer_sample [of name aki n m s] by (auto intro: inj_on_subset)
  then show ?thesis by (simp add: FindIssuers_rows set_first_by)
qed

lemma length_FindIssuers: "length (FindIssuers name aki n m s) \<le> n + 2 * m"
proof -
  have "length (issuer_sample name aki n m s) \<le> n + 2 * m"
    by (auto simp: issuer_sample_def pool_branch_def)
  then show ?thesis
    using length_first_by [of c_id "[]" "issuer_sample name aki n m s"] by (simp add: FindIssuers_rows)
qed

lemma distinct_FindIssuers:
  assumes "store_ok H s"
  shows "distinct (map cand_der (FindIssuers name aki n m s))"
proof -
  let ?rs = "first_by c_id [] (issuer_sample name aki n m s)"
  have id: "inj_on c_id (set (issuer_sample name aki n m s))"
    using certs_inj_id [OF assms] set_issuer_sample [of name aki n m s] by (auto intro: inj_on_subset)
  then have "set ?rs \<subseteq> set (certs s)"
    using set_issuer_sample [of name aki n m s] by (auto simp: set_first_by)
  then have "inj_on c_der (set ?rs)"
    using certs_inj_der [OF assms] by (rule inj_on_subset [rotated])
  moreover have "distinct ?rs"
    using distinct_first_by [of c_id "[]"] by (auto simp: distinct_map)
  ultimately show ?thesis
    by (simp add: FindIssuers_rows comp_def cand_of_def distinct_map)
qed

lemma FindIssuers_sound:
  assumes "store_ok H s" and "c \<in> set (FindIssuers name aki n m s)"
  shows "\<exists>r \<in> set (certs s). issuer_match name aki r \<and> cand_der c = c_der r \<and> cand_pool c = pool_cond r"
  using assms set_issuer_sample [of name aki n m s]
  by (auto simp: set_FindIssuers cand_of_def)

text \<open>The pool part of the answer is the pool branch itself, in its order.\<close>

lemma pool_part:
  assumes "store_ok H s"
  shows "filter cand_pool (FindIssuers name aki n m s) = map cand_of (pool_branch name aki n s)"
proof -
  let ?p = "pool_branch name aki n s"
  let ?a = "if m > 0 then take m (archived_matches name aki s) @ take m (rev (archived_matches name aki s)) else []"
  obtain seen where seen: "first_by c_id [] (?p @ ?a) = first_by c_id [] ?p @ first_by c_id seen ?a"
    using first_by_append by blast
  have "distinct (certs s)"
    using assms by (auto simp: store_ok_def certs_ok_def table_ok_def distinct_map)
  then have "distinct ?p" by (simp add: pool_branch_def)
  moreover have "inj_on c_id (set ?p)"
    using certs_inj_id [OF assms] set_pool_branch [of name aki n s] by (auto intro: inj_on_subset)
  ultimately have "distinct (map c_id ?p)" by (simp add: distinct_map)
  then have p: "first_by c_id [] ?p = ?p" by (intro first_by_distinct) simp_all
  have "set (first_by c_id seen ?a) \<subseteq> set ?a" by (rule first_by_subset)
  then have "\<forall>r \<in> set (first_by c_id seen ?a). \<not> pool_cond r"
    by (force simp: set_archived dest!: in_set_takeD split: if_splits)
  moreover have "\<forall>r \<in> set ?p. pool_cond r" using set_pool_branch [of name aki n s] by auto
  ultimately show ?thesis
    by (simp add: FindIssuers_rows issuer_sample_def seen p filter_map comp_def cand_of_def)
qed

text \<open>
  The search, as the analysis relies on it: what it returns is stored under the name and key
  identifier asked for, the answer is bounded, and a search without archive returns pool
  certificates only.
\<close>

locale issuer_index =
  fixes valid :: "'s \<Rightarrow> bool"
    and stored :: "'s \<Rightarrow> bytes \<Rightarrow> bytes \<Rightarrow> string \<Rightarrow> bool \<Rightarrow> bool"
      \<comment> \<open>DER, subject name, key identifier, in the pool\<close>
    and search :: "bytes \<Rightarrow> string \<Rightarrow> nat \<Rightarrow> nat \<Rightarrow> 's \<Rightarrow> candidate list"
  assumes search_sound: "valid s \<Longrightarrow> c \<in> set (search name aki n m s) \<Longrightarrow>
      \<exists>ski. stored s (cand_der c) name ski (cand_pool c) \<and> (aki \<noteq> [] \<longrightarrow> ski = aki)"
    and search_bound: "length (search name aki n m s) \<le> n + 2 * m"
    and search_pool: "valid s \<Longrightarrow> c \<in> set (search name aki n 0 s) \<Longrightarrow> cand_pool c"
    and search_named: "search [] aki n m s = []"
begin

lemma pool_search:
  "valid s \<Longrightarrow> d \<in> set (map cand_der (search name aki n 0 s)) \<Longrightarrow>
   \<exists>ski. stored s d name ski True \<and> (aki \<noteq> [] \<longrightarrow> ski = aki)"
  using search_sound [of s _ name aki n 0] search_pool [of s _ name aki n] by fastforce

lemma pool_search_bound: "length (map cand_der (search name aki n 0 s)) \<le> n"
  using search_bound [of name aki n 0 s] by simp

end

definition stored_cert :: "store \<Rightarrow> bytes \<Rightarrow> bytes \<Rightarrow> string \<Rightarrow> bool \<Rightarrow> bool" where
  "stored_cert s der name ski p \<longleftrightarrow>
     (\<exists>r \<in> set (certs s). c_der r = der \<and> c_name_der r = Some name \<and> c_ski r = ski \<and> pool_cond r = p)"

lemma FindIssuers_pool_only:
  "c \<in> set (FindIssuers name aki n 0 s) \<Longrightarrow> cand_pool c"
  using set_pool_branch [of name aki n s] first_by_subset [of c_id "[]" "pool_branch name aki n s"]
  by (auto simp: FindIssuers_rows issuer_sample_def cand_of_def)

lemma FindIssuers_nil_name: "FindIssuers [] aki n m s = []"
proof -
  have "issuer_sample [] aki n m s = []"
    using set_issuer_sample [of "[]" aki n m s] by (auto simp: issuer_match_def)
  then show ?thesis by (simp add: FindIssuers_rows)
qed

interpretation issuers: issuer_index "store_ok H" stored_cert FindIssuers for H
proof
  fix s c name aki n m
  assume "store_ok H s" "c \<in> set (FindIssuers name aki n m s)"
  then show "\<exists>ski. stored_cert s (cand_der c) name ski (cand_pool c) \<and> (aki \<noteq> [] \<longrightarrow> ski = aki)"
    using FindIssuers_sound by (fastforce simp: stored_cert_def issuer_match_def)
qed (auto simp: length_FindIssuers FindIssuers_nil_name intro: FindIssuers_pool_only)

text \<open>
  Every candidate \<open>FindIssuers\<close> returns is the DER of a stored certificate with the
  subject name asked for and, when a key identifier was given, with that subject key identifier;
  its pool flag is the certificate's; no certificate is returned twice, and there are at most
  \<open>pool + 2 * archive\<close> of them.
\<close>

lemma find_issuers_sound_and_bounded:
  assumes "store_ok H s"
  shows "(\<forall>c \<in> set (FindIssuers name aki n m s). \<exists>r \<in> set (certs s). c_name_der r = Some name
            \<and> (aki = [] \<or> c_ski r = aki) \<and> cand_der c = c_der r \<and> cand_pool c = (c_trusted r \<or> c_pool r))
       \<and> distinct (map cand_der (FindIssuers name aki n m s))
       \<and> length (FindIssuers name aki n m s) \<le> n + 2 * m"
proof (intro conjI ballI)
  fix c assume "c \<in> set (FindIssuers name aki n m s)"
  from FindIssuers_sound [OF assms this] obtain r where "r \<in> set (certs s)"
    "issuer_match name aki r" "cand_der c = c_der r" "cand_pool c = pool_cond r" by blast
  then show "\<exists>r \<in> set (certs s). c_name_der r = Some name \<and> (aki = [] \<or> c_ski r = aki)
      \<and> cand_der c = c_der r \<and> cand_pool c = (c_trusted r \<or> c_pool r)"
    by (intro bexI [of _ r]) (auto simp: issuer_match_def pool_cond_def)
qed (rule distinct_FindIssuers [OF assms], rule length_FindIssuers)

definition sample_store :: store where
  "sample_store = fold (apply_op sample_hashes)
     [Op_SavePoolCert 1 (sample_args ''CN=A'' [48, 1] False ''''),
      Op_SaveCert 2 (sample_args ''CN=A'' [48, 2] False ''''),
      Op_ImportTrustedCert 3 (sample_args ''CN=A'' [48, 3] True ''mozilla'')] empty_store"

lemma sample_store_ok: "store_ok sample_hashes sample_store"
  unfolding sample_store_def by (rule store_system.inv_reachable [OF refl store_run_steps])

lemma find_issuers_sound_and_bounded_witness:
  "distinct (map cand_der (FindIssuers (bytes_of ''CN=A'') ''AB'' 8 16 sample_store))
   \<and> length (FindIssuers (bytes_of ''CN=A'') ''AB'' 8 16 sample_store) \<le> 40"
  using find_issuers_sound_and_bounded [OF sample_store_ok, of "bytes_of ''CN=A''" "''AB''" 8 16] by simp

text \<open>Archiving adds rows outside the pool.\<close>

lemma archive_keeps_pool_branch:
  "pool_branch name aki n (SaveCert H t a s) = pool_branch name aki n s"
  by (simp add: SaveCert_def pool_branch_def cert_of_args_def pool_cond_def)

lemma archive_all_keeps_pool_branch:
  "pool_branch name aki n (fold (\<lambda>(t, a). SaveCert H t a) ups s) = pool_branch name aki n s"
  by (induction ups arbitrary: s) (auto simp: archive_keeps_pool_branch)

lemma archive_all_ok: "store_ok H s \<Longrightarrow> store_ok H (fold (\<lambda>(t, a). SaveCert H t a) ups s)"
  by (induction ups arbitrary: s) (auto simp: store_ok_SaveCert)

text \<open>
  Property C31. No number of uploaded or archived certificates, whatever names and key identifiers
  they claim, changes which pool candidates \<open>FindIssuers\<close> returns, or their order.
\<close>

lemma archive_cannot_displace_pool:
  assumes "store_ok H s"
  shows "filter cand_pool (FindIssuers name aki n m (fold (\<lambda>(t, a). SaveCert H t a) ups s))
       = filter cand_pool (FindIssuers name aki n m s)"
  by (simp add: pool_part [OF assms] pool_part [OF archive_all_ok [OF assms]] archive_all_keeps_pool_branch)

lemma archive_cannot_displace_pool_witness:
  "filter cand_pool (FindIssuers (bytes_of ''CN=A'') ''AB'' 1 1
       (fold (\<lambda>(t, a). SaveCert sample_hashes t a) [(9, sample_args ''CN=A'' [48, 9] True '''')] sample_store))
   = filter cand_pool (FindIssuers (bytes_of ''CN=A'') ''AB'' 1 1 sample_store)"
  by (rule archive_cannot_displace_pool [OF sample_store_ok])

text \<open>What a bounded pool branch leaves out ranks after everything it takes.\<close>

lemma sorted_take_drop_le:
  assumes "sorted (map f xs)" and "x \<in> set (take n xs)" and "y \<in> set (drop n xs)"
  shows "f x \<le> f y"
proof -
  have "sorted (map f (take n xs) @ map f (drop n xs))"
    using assms(1) by (simp flip: map_append)
  with assms(2,3) show ?thesis by (simp add: sorted_append)
qed

text \<open>
  A pool certificate that matches is returned, unless \<open>n\<close> others are that rank no
  lower in the order self-signed, trusted, oldest first: a trusted self-signed root is left out
  only in favour of \<open>n\<close> trusted self-signed roots with smaller ids.
\<close>

lemma find_issuers_prefers_trusted_roots:
  assumes "store_ok H s" and "r \<in> set (certs s)" and "issuer_match name aki r" and "pool_cond r"
    and "c_der r \<notin> set (map cand_der (FindIssuers name aki n m s))"
  shows "\<exists>rs \<subseteq> set (certs s). card rs = n \<and> (\<forall>q \<in> rs. pool_order q \<le> pool_order r
           \<and> c_der q \<in> set (map cand_der (FindIssuers name aki n m s)))"
proof -
  let ?all = "sort_key pool_order (filter (\<lambda>r. issuer_match name aki r \<and> pool_cond r) (certs s))"
  have sub: "set (pool_branch name aki n s) \<subseteq> set (issuer_sample name aki n m s)"
    by (simp add: issuer_sample_def)
  have "r \<notin> set (take n ?all)"
    using assms(5) sub by (force simp: set_FindIssuers [OF assms(1)] cand_of_def pool_branch_def)
  moreover have "r \<in> set ?all" using assms(2-4) by simp
  ultimately have r: "r \<in> set (drop n ?all)" by (metis Un_iff append_take_drop_id set_append)
  then have n: "n \<le> length ?all" by (metis drop_eq_Nil empty_iff list.set(1) nat_le_linear)
  have "distinct (certs s)"
    using assms(1) by (auto simp: store_ok_def certs_ok_def table_ok_def distinct_map)
  then have "distinct (take n ?all)" by simp
  then have "card (set (take n ?all)) = n"
    using n by (simp add: distinct_card del: length_sort)
  moreover have "q \<in> set (take n ?all) \<Longrightarrow> pool_order q \<le> pool_order r" for q
    by (rule sorted_take_drop_le [OF _ _ r]) simp_all
  moreover have "q \<in> set (take n ?all) \<Longrightarrow> c_der q \<in> set (map cand_der (FindIssuers name aki n m s))" for q
    using sub by (force simp: set_FindIssuers [OF assms(1)] cand_of_def pool_branch_def)
  moreover have "set (take n ?all) \<subseteq> set (certs s)" by (auto dest: in_set_takeD)
  ultimately show ?thesis by blast
qed

lemmas sample_store_eval = sample_store_def SavePoolCert_def SaveCert_def ImportTrustedCert_def Let_def
  empty_store_def has_sha_def cert_of_args_def SHA256Hex_eq_iff sample_hashes_def sample_args_def
  sql_blob_def bytes_of_def next_id_def update_where_def

lemma find_issuers_prefers_trusted_roots_witness:
  "\<exists>rs \<subseteq> set (certs sample_store). card rs = 1 \<and> (\<forall>q \<in> rs. pool_order q \<le> pool_order (hd (certs sample_store))
     \<and> c_der q \<in> set (map cand_der (FindIssuers (bytes_of ''CN=A'') ''AB'' 1 0 sample_store)))"
proof (rule find_issuers_prefers_trusted_roots [OF sample_store_ok])
  show "hd (certs sample_store) \<in> set (certs sample_store)"
    by (simp add: sample_store_eval)
  show "issuer_match (bytes_of ''CN=A'') ''AB'' (hd (certs sample_store))"
    by (simp add: sample_store_eval issuer_match_def)
  show "pool_cond (hd (certs sample_store))"
    by (simp add: sample_store_eval pool_cond_def)
  show "c_der (hd (certs sample_store))
      \<notin> set (map cand_der (FindIssuers (bytes_of ''CN=A'') ''AB'' 1 0 sample_store))"
    by (simp add: sample_store_eval FindIssuers_rows issuer_sample_def pool_branch_def pool_order_def
        issuer_match_def pool_cond_def cand_of_def)
qed

end
