(* ===== verification/Store_Roundtrip.thy ===== *)
theory Store_Roundtrip
  imports Store_Find
begin

text \<open>
  What is saved is found again, by content, by thumbprint, by URL, by issuer and by certificate,
  and stays found for as long as the code means it to.
\<close>

section \<open>Content addressing\<close>

lemma find_by_content: "store_ok H s \<Longrightarrow> FindDERBySHA256 h s = Some d \<Longrightarrow> SHA256Hex H d = to_upper h"
  by (auto simp: FindDERBySHA256_def store_ok_def certs_ok_def crls_ok_def ocsps_ok_def has_sha_def
      split: option.splits dest!: find_SomeD)

text \<open>
  The three lookups by content hash agree: \<open>HasDER\<close> is true exactly when
  \<open>FindDERBySHA256\<close> returns an object, \<open>DERSize\<close> is its length and 0 otherwise; and the object
  returned has the hash asked for, in whatever letter case it was written.
\<close>

lemma content_lookups_agree:
  assumes "store_ok H s"
  shows "HasDER h s = (FindDERBySHA256 h s \<noteq> None)
       \<and> DERSize h s = (case FindDERBySHA256 h s of None \<Rightarrow> 0 | Some d \<Rightarrow> length d)
       \<and> (\<forall>d \<in> set_option (FindDERBySHA256 h s). SHA256Hex H d = to_upper h)"
proof (intro conjI ballI)
  show "HasDER h s = (FindDERBySHA256 h s \<noteq> None)"
    by (simp add: HasDER_def FindDERBySHA256_def list_ex_find split: option.splits)
  show "DERSize h s = (case FindDERBySHA256 h s of None \<Rightarrow> 0 | Some d \<Rightarrow> length d)"
    by (simp add: DERSize_def FindDERBySHA256_def split: option.splits)
qed (use find_by_content [OF assms] in auto)

lemma content_lookups_agree_witness:
  "HasDER (SHA256Hex sample_hashes [48, 2]) sample_store
     = (FindDERBySHA256 (SHA256Hex sample_hashes [48, 2]) sample_store \<noteq> None)"
  using content_lookups_agree [OF sample_store_ok] by simp

text \<open>No operation deletes a certificate or changes its DER.\<close>

lemma update_where_persists:
  assumes "r \<in> set rs" and "\<And>r. g (f r) = g r"
  shows "\<exists>r' \<in> set (update_where P f rs). g r' = g r"
proof (cases "P r")
  case True
  from update_where_hit [of r rs P f, OF assms(1) this] assms(2) show ?thesis by blast
next
  case False
  from update_where_miss [of r rs P f, OF assms(1) this] show ?thesis by blast
qed

lemma cert_persists:
  assumes "r \<in> set (certs s)"
  shows "\<exists>r' \<in> set (certs (apply_op H op s)). (c_sha256 r', c_der r') = (c_sha256 r, c_der r)"
proof -
  have up: "\<exists>r' \<in> set (update_where P f rs). (c_sha256 r', c_der r') = (c_sha256 q, c_der q)"
    if "q \<in> set rs" "\<And>r. c_sha256 (f r) = c_sha256 r" "\<And>r. c_der (f r) = c_der r"
    for P q rs and f :: "cert_row \<Rightarrow> cert_row"
    using update_where_persists [of q rs "\<lambda>r. (c_sha256 r, c_der r)" f P] that by simp
  show ?thesis
  proof (cases op)
    case (Op_ImportTrustedCert t a)
    let ?h = "SHA256Hex H (a_der a)"
    let ?rs = "update_where (has_sha ?h) (\<lambda>r. r\<lparr>c_pool := True\<rparr>) (certs s)"
    obtain q where q: "q \<in> set ?rs" "(c_sha256 q, c_der q) = (c_sha256 r, c_der r)"
      using up [OF assms, of "\<lambda>r. r\<lparr>c_pool := True\<rparr>"] by force
    from q up [OF q(1), of "\<lambda>r. r\<lparr>c_trusted := True, c_source := Some (a_source a)\<rparr>"] Op_ImportTrustedCert
    show ?thesis by (fastforce simp: ImportTrustedCert_def Let_def split: option.splits)
  next
    case (Op_SavePoolCert t a)
    with assms up [OF assms, of "\<lambda>r. r\<lparr>c_pool := True\<rparr>"] show ?thesis
      by (auto simp: SavePoolCert_def Let_def)
  next
    case (Op_WithdrawBundleRoots src keep)
    with up [OF assms, of "\<lambda>r. r\<lparr>c_trusted := False, c_source := Some (src @ '':removed'')\<rparr>"]
    show ?thesis by (simp add: WithdrawBundleRoots_def)
  next
    case (Op_SetTrusted h t)
    with up [OF assms, of "\<lambda>r. r\<lparr>c_trusted := t\<rparr>"] show ?thesis
      by (simp add: SetTrusted_def Let_def)
  qed (use assms in \<open>auto simp: SaveCert_def\<close>)
qed

lemma cert_persists_run:
  "r \<in> set (certs s) \<Longrightarrow>
   \<exists>r' \<in> set (certs (fold (apply_op H) ops s)). (c_sha256 r', c_der r') = (c_sha256 r, c_der r)"
proof (induction ops arbitrary: s r)
  case (Cons op ops)
  obtain q where "q \<in> set (certs (apply_op H op s))" "(c_sha256 q, c_der q) = (c_sha256 r, c_der r)"
    using cert_persists [OF Cons.prems] by blast
  with Cons.IH [OF this(1)] show ?case by auto
qed auto

lemma saved_row:
  assumes "store_ok H s" and "a_der a \<noteq> []"
    and "\<forall>r \<in> set (certs s). sha256_sum H (c_der r) = sha256_sum H (a_der a) \<longrightarrow> c_der r = a_der a"
  shows "\<exists>r \<in> set (certs (SaveCert H t a s)). c_sha256 r = SHA256Hex H (a_der a) \<and> c_der r = a_der a"
proof (cases "list_ex (has_sha (SHA256Hex H (a_der a))) (certs s)")
  case True
  then obtain r where "r \<in> set (certs s)" "c_sha256 r = SHA256Hex H (a_der a)"
    by (auto simp: list_ex_iff has_sha_def)
  moreover from this assms(1,3) have "c_der r = a_der a"
    by (auto simp: store_ok_def certs_ok_def SHA256Hex_eq_iff)
  ultimately show ?thesis using True by (auto simp: SaveCert_def)
next
  case False
  with assms(2) show ?thesis by (auto simp: SaveCert_def cert_of_args_def)
qed

lemma store_ok_run: "store_ok H s \<Longrightarrow> store_ok H (fold (apply_op H) ops s)"
  by (rule store_system.inv_run [OF store_run_steps])

text \<open>
  A certificate saved once is found by its SHA-256 in either letter case, as an
  object and as a certificate thumbprint, after any later sequence of operations, as long as no
  certificate with the same digest and another content was there before.
\<close>

lemma saved_cert_is_found:
  assumes "store_ok H s" and "a_der a \<noteq> []"
    and "\<forall>r \<in> set (certs s). sha256_sum H (c_der r) = sha256_sum H (a_der a) \<longrightarrow> c_der r = a_der a"
    and "to_upper h = SHA256Hex H (a_der a)"
  shows "FindDERBySHA256 h (fold (apply_op H) (Op_SaveCert t a # ops) s) = Some (a_der a)
       \<and> (length h = 64 \<longrightarrow>
            FindCertByThumbprint h (fold (apply_op H) (Op_SaveCert t a # ops) s) = Some (a_der a))"
proof -
  let ?s = "fold (apply_op H) (Op_SaveCert t a # ops) s"
  have ok: "store_ok H ?s" using assms(1) by (rule store_ok_run)
  obtain r where r: "r \<in> set (certs ?s)" "c_sha256 r = SHA256Hex H (a_der a)" "c_der r = a_der a"
    using saved_row [OF assms(1-3)] cert_persists_run [of _ "SaveCert H t a s"] by fastforce
  from cert_by_sha [OF ok r(1)] r(2,3) assms(4) show ?thesis
    by (simp add: FindDERBySHA256_def FindCertByThumbprint_def)
qed

lemma saved_cert_is_found_witness:
  "FindDERBySHA256 (SHA256Hex sample_hashes [48, 7])
     (fold (apply_op sample_hashes) (Op_SaveCert 1 (sample_args ''CN=Z'' [48, 7] False '''') # [Op_SetTrusted ''00'' True])
       empty_store) = Some [48, 7]"
  using saved_cert_is_found [OF store_ok_empty, of "sample_args ''CN=Z'' [48, 7] False ''''" sample_hashes
      "SHA256Hex sample_hashes [48, 7]" 1 "[Op_SetTrusted ''00'' True]"]
  by (simp add: sample_args_def empty_store_def)

section \<open>CRLs\<close>

lemma map_of_map_url: "map_of (map_url u h us) v = (if v = u then Some h else map_of us v)"
  by (induction us) (auto simp: map_url_def delete_where_def map_add_def split: option.splits)

lemma saved_crl_rows:
  assumes "der \<noteq> []"
    and "\<forall>r \<in> set (crls s). k_sha256 r = SHA256Hex H der \<longrightarrow> P r"
    and "\<And>i. P \<lparr>k_id = i, k_issuer = issuer, k_sha256 = SHA256Hex H der, k_der = der,
               k_this = unix this, k_next = unix nxt, k_created = unix t3\<rparr>"
  shows "(\<exists>r \<in> set (save_crl_row H t3 issuer der this nxt (delete_where Q (crls s))).
            k_sha256 r = SHA256Hex H der)
       \<and> (\<forall>r \<in> set (save_crl_row H t3 issuer der this nxt (delete_where Q (crls s))).
            k_sha256 r = SHA256Hex H der \<longrightarrow> P r)"
  using assms by (auto simp: save_crl_row_def list_ex_iff table_simps)

text \<open>
  A CRL that is still fresh is served for the URL it was saved under, with its
  size, whatever else the store held and whatever URL mapping it replaced, as long as no stored
  CRL has its digest and other content.
\<close>

lemma saved_crl_is_served:
  assumes "url \<noteq> []" and "der \<noteq> []" and "unix now < unix nxt"
    and "\<forall>r \<in> set (crls s). k_sha256 r = SHA256Hex H der \<longrightarrow> k_der r = der \<and> k_next r = unix nxt"
  shows "FindFreshCRL now url (SaveCRL H t1 t2 t3 issuer url der this nxt s) = Some der
       \<and> FreshCRLSize now url (SaveCRL H t1 t2 t3 issuer url der this nxt s) = length der"
proof -
  let ?h = "SHA256Hex H der" and ?s = "SaveCRL H t1 t2 t3 issuer url der this nxt s"
  let ?rs = "save_crl_row H t3 issuer der this nxt (delete_where (\<lambda>r. k_next r < unix t1) (crls s))"
  note rows = saved_crl_rows [of der s H "\<lambda>r. k_der r = der \<and> k_next r = unix nxt" issuer this nxt t3
      "\<lambda>r. k_next r < unix t1", OF assms(2,4), simplified]
  have url: "(url, ?h) \<in> set (crl_urls ?s)" "map_of (crl_urls ?s) url = Some ?h"
    using assms(1) by (simp_all add: SaveCRL_defs map_of_map_url) (simp add: map_url_def)
  have sub: "set (crls ?s) \<subseteq> set ?rs" by (auto simp: SaveCRL_defs table_simps)
  obtain r where "r \<in> set ?rs" "k_sha256 r = ?h" using rows by blast
  moreover from this url(1) have "r \<in> set (crls ?s)"
    by (force simp: SaveCRL_defs table_simps list_ex_iff)
  ultimately have r: "r \<in> set (crls ?s)" "k_sha256 r = ?h" by blast+
  have all: "\<forall>q \<in> set (crls ?s). k_sha256 q = ?h \<longrightarrow> k_der q = der \<and> k_next q = unix nxt"
    using rows sub by blast
  then obtain q where "find (\<lambda>r. k_sha256 r = ?h \<and> unix now < k_next r) (crls ?s) = Some q"
    using r assms(3) by (cases "find (\<lambda>r. k_sha256 r = ?h \<and> unix now < k_next r) (crls ?s)")
      (auto simp: find_None_iff)
  moreover from this all have "k_der q = der" by (auto dest: find_SomeD)
  ultimately show ?thesis
    by (simp add: FindFreshCRL_def FreshCRLSize_def fresh_crl_row_def url(2))
qed

lemma saved_crl_is_served_witness:
  "FindFreshCRL (of_unix 20) ''http://ca/a.crl''
     (SaveCRL sample_hashes 0 0 0 ''CN=CA'' ''http://ca/a.crl'' [48, 5] (of_unix 10) (of_unix 30) empty_store)
   = Some [48, 5]"
  using saved_crl_is_served [of "''http://ca/a.crl''" "[48, 5]" "of_unix 20" "of_unix 30" empty_store
      sample_hashes 0 0 0 "''CN=CA''" "of_unix 10"]
  by (simp add: empty_store_def)

text \<open>The fallback by issuer takes a fresh CRL with the latest \<open>thisUpdate\<close>.\<close>

definition fresh_of_issuer :: "gotime \<Rightarrow> string \<Rightarrow> crl_row \<Rightarrow> bool" where
  "fresh_of_issuer now issuer r \<longleftrightarrow> k_issuer r = issuer \<and> unix now < k_next r"

lemma sort_key_head:
  "sort_key f xs = y # ys \<Longrightarrow> y \<in> set xs \<and> (\<forall>x \<in> set xs. f y \<le> f x)"
proof -
  assume a: "sort_key f xs = y # ys"
  then have s: "set xs = set (y # ys)" by (metis set_sort)
  have "sorted (map f (y # ys))" by (metis a sorted_sort_key)
  with s show ?thesis by auto
qed

lemma FindFreshCRLByIssuer_latest:
  assumes "issuer \<noteq> []" and "r \<in> set (crls s)" and "fresh_of_issuer now issuer r"
  shows "\<exists>q \<in> set (crls s). fresh_of_issuer now issuer q \<and> k_this r \<le> k_this q
           \<and> FindFreshCRLByIssuer now issuer s = Some (k_der q)"
proof -
  let ?xs = "filter (\<lambda>r. k_issuer r = issuer \<and> unix now < k_next r) (crls s)"
  have r: "r \<in> set ?xs" using assms by (simp add: fresh_of_issuer_def)
  then obtain q qs where q: "sort_key (\<lambda>r. - k_this r) ?xs = q # qs"
    by (cases "sort_key (\<lambda>r. - k_this r) ?xs") (metis empty_iff list.set(1) set_sort, blast)
  from sort_key_head [OF q] r have "q \<in> set ?xs" "k_this r \<le> k_this q" by auto
  with q assms(1) show ?thesis
    by (auto simp: FindFreshCRLByIssuer_def fresh_of_issuer_def)
qed

text \<open>
  Saving a fresh CRL never rolls an issuer back: whatever fresh CRL was stored for
  an issuer, afterwards the issuer lookup returns one whose \<open>thisUpdate\<close> is not earlier. The
  clock readings of the save do not pass the time of the lookup.
\<close>

lemma save_crl_never_rolls_back:
  assumes "r \<in> set (crls s)" and "fresh_of_issuer now iss r" and "iss \<noteq> []"
    and "unix t1 \<le> unix now" and "der \<noteq> []" and "unix now < unix nxt"
    and "\<forall>q \<in> set (crls s). k_sha256 q = SHA256Hex H der
           \<longrightarrow> k_issuer q = issuer \<and> k_this q = unix this \<and> k_next q = unix nxt"
  shows "\<exists>q \<in> set (crls (SaveCRL H t1 t2 t3 issuer url der this nxt s)).
           fresh_of_issuer now iss q \<and> k_this r \<le> k_this q
         \<and> FindFreshCRLByIssuer now iss (SaveCRL H t1 t2 t3 issuer url der this nxt s) = Some (k_der q)"
proof -
  let ?s = "SaveCRL H t1 t2 t3 issuer url der this nxt s"
  let ?del = "delete_where (\<lambda>r. k_next r < unix t1) (crls s)"
  let ?rs = "save_crl_row H t3 issuer der this nxt ?del"
  have "\<exists>q \<in> set (crls ?s). fresh_of_issuer now iss q \<and> k_this r \<le> k_this q"
  proof (cases "r \<in> set (crls ?s)")
    case False
    have "r \<in> set ?rs" using assms(1,2,4)
      by (auto simp: save_crl_row_def table_simps fresh_of_issuer_def)
    with False have older: "k_issuer r = issuer" "k_this r < unix this"
      by (auto simp: SaveCRL_defs table_simps)
    obtain q where q: "q \<in> set ?rs" "k_issuer q = issuer" "k_this q = unix this" "k_next q = unix nxt"
      using saved_crl_rows [of der s H
          "\<lambda>q. k_issuer q = issuer \<and> k_this q = unix this \<and> k_next q = unix nxt" issuer this nxt t3
          "\<lambda>r. k_next r < unix t1", OF assms(5,7), simplified] by blast
    then have "q \<in> set (crls ?s)" by (auto simp: SaveCRL_defs table_simps)
    moreover have "fresh_of_issuer now iss q" "k_this r \<le> k_this q"
      using q older assms(2,6) by (auto simp: fresh_of_issuer_def)
    ultimately show ?thesis by blast
  qed (use assms(2) in blast)
  then obtain q where "q \<in> set (crls ?s)" "fresh_of_issuer now iss q" "k_this r \<le> k_this q" by blast
  from FindFreshCRLByIssuer_latest [OF assms(3) this(1,2)] this(3) show ?thesis
    by (meson order_trans)
qed

definition sample_crl_store :: store where
  "sample_crl_store = SaveCRL sample_hashes 0 0 0 ''CN=CA'' '''' [48, 5] (of_unix 10) (of_unix 90) empty_store"

lemmas sample_crl_eval = sample_crl_store_def SaveCRL_defs save_crl_row_def empty_store_def delete_where_def

lemma save_crl_never_rolls_back_witness:
  "\<exists>q \<in> set (crls (SaveCRL sample_hashes 0 0 0 ''CN=CA'' '''' [48, 4] (of_unix 5) (of_unix 80) sample_crl_store)).
     10 \<le> k_this q \<and> FindFreshCRLByIssuer (of_unix 20) ''CN=CA''
       (SaveCRL sample_hashes 0 0 0 ''CN=CA'' '''' [48, 4] (of_unix 5) (of_unix 80) sample_crl_store) = Some (k_der q)"
proof -
  have c: "crls sample_crl_store = [\<lparr>k_id = 1, k_issuer = ''CN=CA'', k_sha256 = SHA256Hex sample_hashes [48, 5],
      k_der = [48, 5], k_this = 10, k_next = 90, k_created = unix 0\<rparr>]"
    by (simp add: sample_crl_eval next_id_def)
  have d: "SHA256Hex sample_hashes [48, 5] \<noteq> SHA256Hex sample_hashes [48, 4]"
    by (simp add: SHA256Hex_eq_iff sample_hashes_def)
  show ?thesis
    using save_crl_never_rolls_back [of "hd (crls sample_crl_store)" sample_crl_store "of_unix 20" "''CN=CA''"
        0 "[48, 4]" "of_unix 80" sample_hashes "''CN=CA''" "of_unix 5" 0 0 "''''"] d
    by (auto simp: c fresh_of_issuer_def unix_def [of 0])
qed

lemma save_crl_row_cases:
  "r \<in> set (save_crl_row H t issuer der this nxt rs) \<Longrightarrow>
   r \<in> set rs \<or> k_issuer r = issuer \<and> k_this r = unix this \<and> k_next r = unix nxt"
  by (auto simp: save_crl_row_def split: if_splits)

text \<open>
  Property C32. A CRL without \<open>nextUpdate\<close> (the zero time), which the analysis calls fresh and saves, is never served: its
  \<open>next_update\<close> column holds the year 1. Yet it takes over the URL it was fetched from, which then serves nothing,
  whatever fresh CRL it served before; it takes the place of every older CRL of its issuer that no other URL maps to, so
  the issuer may be left without any; and whatever is saved next removes it.
\<close>

lemma crl_without_next_update_evicts:
  fixes t1 t2 t3 this :: gotime and issuer url :: string
  assumes "\<forall>r \<in> set (crls s). k_sha256 r \<noteq> SHA256Hex H der" and "0 \<le> now" and "0 \<le> later"
  defines "s' \<equiv> SaveCRL H t1 t2 t3 issuer url der this zero_time s"
    and "replaced \<equiv> \<lambda>r. k_issuer r = issuer \<and> k_this r < unix this
      \<and> (\<forall>u. (u, k_sha256 r) \<in> set (crl_urls s) \<longrightarrow> u = url \<and> url \<noteq> '''')"
  shows "(url \<noteq> '''' \<longrightarrow> FindFreshCRL now url s' = None)
     \<and> (\<forall>r \<in> set (crls s'). k_sha256 r = SHA256Hex H der \<longrightarrow> \<not> unix now < k_next r)
     \<and> (\<forall>r \<in> set (crls s). replaced r \<longrightarrow> r \<notin> set (crls s'))
     \<and> ((\<forall>r \<in> set (crls s). k_issuer r = issuer \<longrightarrow> replaced r) \<longrightarrow> FindFreshCRLByIssuer now issuer s' = None)
     \<and> (\<forall>r \<in> set (crls (SaveCRL H later t2' t3' issuer' url' der' this' nxt' s')).
          k_sha256 r = SHA256Hex H der \<longrightarrow> SHA256Hex H der' = SHA256Hex H der)"
proof (intro conjI impI)
  have old: "unix zero_time < 0" by (simp add: unix_def zero_time_def of_unix_def nsec_def)
  have pos: "0 \<le> unix now" "0 \<le> unix later" using assms(2,3) by (simp_all add: unix_def nsec_def)
  have mine: "k_next r = unix zero_time" if "r \<in> set (crls s')" "k_sha256 r = SHA256Hex H der" for r
    using that assms(1) by (auto simp: s'_def SaveCRL_defs table_simps save_crl_row_def split: if_splits)
  then show stale: "\<forall>r \<in> set (crls s'). k_sha256 r = SHA256Hex H der \<longrightarrow> \<not> unix now < k_next r"
    using old pos(1) by fastforce
  show "FindFreshCRL now url s' = None" if "url \<noteq> ''''"
  proof -
    have "map_of (crl_urls s') url = Some (SHA256Hex H der)" using that by (simp add: s'_def SaveCRL_defs map_of_map_url)
    with stale show ?thesis by (auto simp: FindFreshCRL_def fresh_crl_row_def find_None_iff)
  qed
  have urls: "(u, h) \<in> set (crl_urls s) \<and> u \<noteq> url \<or> h = SHA256Hex H der" if "(u, h) \<in> set (crl_urls s')" "url \<noteq> ''''" for u h
    using that by (auto simp: s'_def SaveCRL_defs table_simps map_url_def)
  have same: "set (crl_urls s') \<subseteq> set (crl_urls s)" if "url = ''''"
    using that by (auto simp: s'_def SaveCRL_defs table_simps)
  have gone: "r \<notin> set (crls s')" if "replaced r" "r \<in> set (crls s)" for r
  proof
    assume "r \<in> set (crls s')"
    then have "list_ex (\<lambda>u. snd u = k_sha256 r) (crl_urls s')"
      using that by (auto simp: s'_def SaveCRL_def Let_def drop_superseded_def replaced_def table_simps)
    then obtain u where u: "(u, k_sha256 r) \<in> set (crl_urls s')" by (auto simp: list_ex_iff)
    show False
    proof (cases "url = ''''")
      case True
      with same u that(1) show False by (auto simp: replaced_def)
    next
      case False
      with urls [OF u] that assms(1) show False by (auto simp: replaced_def)
    qed
  qed
  then show "\<forall>r \<in> set (crls s). replaced r \<longrightarrow> r \<notin> set (crls s')" by blast
  show "FindFreshCRLByIssuer now issuer s' = None" if all: "\<forall>r \<in> set (crls s). k_issuer r = issuer \<longrightarrow> replaced r"
  proof -
    have "\<not> unix now < k_next r" if r: "r \<in> set (crls s')" "k_issuer r = issuer" for r
    proof (cases "r \<in> set (crls s)")
      case True
      with gone all r show ?thesis by blast
    next
      case False
      with r(1) have "k_sha256 r = SHA256Hex H der"
        by (auto simp: s'_def SaveCRL_defs table_simps save_crl_row_def split: if_splits)
      with stale r(1) show ?thesis by blast
    qed
    then have "filter (\<lambda>r. k_issuer r = issuer \<and> unix now < k_next r) (crls s') = []" by (auto simp: filter_empty_conv)
    then show ?thesis by (simp add: FindFreshCRLByIssuer_def)
  qed
  show "\<forall>r \<in> set (crls (SaveCRL H later t2' t3' issuer' url' der' this' nxt' s')).
      k_sha256 r = SHA256Hex H der \<longrightarrow> SHA256Hex H der' = SHA256Hex H der"
  proof (intro ballI impI)
    fix r
    assume r: "r \<in> set (crls (SaveCRL H later t2' t3' issuer' url' der' this' nxt' s'))" "k_sha256 r = SHA256Hex H der"
    then have "r \<in> set (crls s') \<and> \<not> k_next r < unix later \<or> k_sha256 r = SHA256Hex H der'"
      by (auto simp: SaveCRL_defs table_simps save_crl_row_def split: if_splits)
    with mine r(2) old pos(2) show "SHA256Hex H der' = SHA256Hex H der" by fastforce
  qed
qed

text \<open>A URL and its issuer served a CRL until one without \<open>nextUpdate\<close> came from it.\<close>

definition sample_url_store :: store where
  "sample_url_store = SaveCRL sample_hashes 0 0 0 ''CN=CA'' ''http://ca/a.crl'' [48, 5] (of_unix 10) (of_unix 90) empty_store"

lemma sample_url_rows:
  "crls sample_url_store = [\<lparr>k_id = 1, k_issuer = ''CN=CA'', k_sha256 = SHA256Hex sample_hashes [48, 5], k_der = [48, 5],
     k_this = 10, k_next = 90, k_created = unix 0\<rparr>]"
  "crl_urls sample_url_store = [(''http://ca/a.crl'', SHA256Hex sample_hashes [48, 5])]"
  by (simp_all add: sample_url_store_def SaveCRL_defs save_crl_row_def empty_store_def delete_where_def map_url_def next_id_def)

lemma crl_without_next_update_evicts_witness:
  "FindFreshCRL (of_unix 20) ''http://ca/a.crl'' sample_url_store = Some [48, 5]
   \<and> FindFreshCRL (of_unix 20) ''http://ca/a.crl''
       (SaveCRL sample_hashes 0 0 0 ''CN=CA'' ''http://ca/a.crl'' [48, 6] (of_unix 15) zero_time sample_url_store) = None
   \<and> FindFreshCRLByIssuer (of_unix 20) ''CN=CA''
       (SaveCRL sample_hashes 0 0 0 ''CN=CA'' ''http://ca/a.crl'' [48, 6] (of_unix 15) zero_time sample_url_store) = None"
proof -
  let ?s = "SaveCRL sample_hashes 0 0 0 ''CN=CA'' ''http://ca/a.crl'' [48, 6] (of_unix 15) zero_time sample_url_store"
  have new: "\<forall>r \<in> set (crls sample_url_store). k_sha256 r \<noteq> SHA256Hex sample_hashes [48, 6]"
    by (simp add: sample_url_rows SHA256Hex_eq_iff) (simp add: sample_hashes_def)
  have times: "0 \<le> of_unix 20" "unix (of_unix 15) = 15" "unix (of_unix 20) = 20" by (simp_all add: of_unix_def unix_def nsec_def)
  have replaced: "\<forall>r \<in> set (crls sample_url_store). k_issuer r = ''CN=CA'' \<longrightarrow> k_issuer r = ''CN=CA'' \<and> k_this r < unix (of_unix 15)
      \<and> (\<forall>u. (u, k_sha256 r) \<in> set (crl_urls sample_url_store) \<longrightarrow> u = ''http://ca/a.crl'' \<and> ''http://ca/a.crl'' \<noteq> '''')"
    by (simp add: sample_url_rows times)
  note evicts = crl_without_next_update_evicts [OF new times(1) order_refl, where ?t1.0 = 0 and ?t2.0 = 0 and ?t3.0 = 0
      and issuer = "''CN=CA''" and url = "''http://ca/a.crl''" and this = "of_unix 15"]
  have "FindFreshCRL (of_unix 20) ''http://ca/a.crl'' ?s = None" using evicts by blast
  moreover have "FindFreshCRLByIssuer (of_unix 20) ''CN=CA'' ?s = None" using evicts replaced by blast
  moreover have "FindFreshCRL (of_unix 20) ''http://ca/a.crl'' sample_url_store = Some [48, 5]"
    by (simp add: sample_url_rows FindFreshCRL_def fresh_crl_row_def times)
  ultimately show ?thesis by blast
qed

section \<open>OCSP responses\<close>

text \<open>
  A saved OCSP response that is still fresh is the one returned for its certificate,
  it is the only one stored for it, and the fresh responses of other certificates are untouched.
\<close>

lemma saved_ocsp_is_served:
  assumes "der \<noteq> []" and "thumb \<noteq> []" and "nxt = zero_time \<or> unix now < unix nxt"
    and "unix t1 \<le> unix now"
  shows "FindFreshOCSP now thumb (fst (SaveOCSP H t1 t2 thumb url st der this nxt p s)) = Some der
    \<and> filter (\<lambda>r. o_thumb r = to_upper thumb) (ocsps (fst (SaveOCSP H t1 t2 thumb url st der this nxt p s)))
        = [last (ocsps (fst (SaveOCSP H t1 t2 thumb url st der this nxt p s)))]
    \<and> (\<forall>other. to_upper other \<noteq> to_upper thumb \<longrightarrow>
         FindFreshOCSP now other (fst (SaveOCSP H t1 t2 thumb url st der this nxt p s)) = FindFreshOCSP now other s)"
proof -
  let ?s = "fst (SaveOCSP H t1 t2 thumb url st der this nxt p s)"
  let ?rs = "delete_where (\<lambda>r. o_thumb r = to_upper thumb \<or> ocsp_expired t1 r) (ocsps s)"
  have s: "ocsps ?s = ?rs @ [last (ocsps ?s)]" "o_thumb (last (ocsps ?s)) = to_upper thumb"
      "o_der (last (ocsps ?s)) = der" "ocsp_fresh now (last (ocsps ?s))"
    using assms by (auto simp: SaveOCSP_def Let_def ocsp_fresh_def)
  have none: "filter (\<lambda>r. o_thumb r = to_upper thumb \<and> Q r) ?rs = []" for Q
    by (auto simp: filter_empty_conv table_simps)
  have one: "filter (\<lambda>r. o_thumb r = to_upper thumb \<and> Q r) (ocsps ?s)
      = (if Q (last (ocsps ?s)) then [last (ocsps ?s)] else [])" for Q
    by (subst s(1)) (simp add: none s(2))
  have other: "filter (\<lambda>r. o_thumb r = to_upper o' \<and> ocsp_fresh now r) (ocsps ?s)
      = filter (\<lambda>r. o_thumb r = to_upper o' \<and> ocsp_fresh now r) (ocsps s)"
    if "to_upper o' \<noteq> to_upper thumb" for o'
  proof -
    have "filter (\<lambda>r. o_thumb r = to_upper o' \<and> ocsp_fresh now r) ?rs
        = filter (\<lambda>r. o_thumb r = to_upper o' \<and> ocsp_fresh now r) (ocsps s)"
      using that assms(4)
      by (auto simp: delete_where_def ocsp_fresh_def ocsp_expired_def intro!: filter_cong
          split: option.splits)
    with that show ?thesis by (subst s(1)) (simp add: s(2))
  qed
  show ?thesis
    using one [of "ocsp_fresh now"] one [of "\<lambda>_. True"] other s assms(2)
    by (simp add: FindFreshOCSP_def)
qed

lemma saved_ocsp_is_served_witness:
  "FindFreshOCSP (of_unix 20) ''ab'' (fst (SaveOCSP sample_hashes 0 0 ''ab'' ''http://o'' ''good'' [48, 1]
      (of_unix 10) (of_unix 30) (of_unix 10) empty_store)) = Some [48, 1]"
  using saved_ocsp_is_served [of "[48, 1]" "''ab''" "of_unix 30" "of_unix 20" 0 sample_hashes 0
      "''http://o''" "''good''" "of_unix 10" "of_unix 10" empty_store]
  by (simp add: unix_def [of 0])

end
