(* ===== verification/Limits.thy ===== *)
theory Limits
  imports Prelude
begin

text \<open>
  The bounds on external data (internal/limits/limits.go, the constants and the fetch helpers of
  cmd/certview/guard.go): the errors of a fetch and what of them a client is told, the fetch
  budget, the choice of URLs, the bounded read of a body and the look at its first bytes.
\<close>

section \<open>Constants\<close>

definition CertSize :: nat where "CertSize = 65536"
definition slotWait :: gotime where "slotWait = 30 * nsec"
definition analyzeTimeout :: gotime where "analyzeTimeout = 180 * nsec"
definition hardTimeout :: gotime where "hardTimeout = 600 * nsec"
definition bigCRLSize :: nat where "bigCRLSize = 16777216"
definition bigCRLQueue :: nat where "bigCRLQueue = 2"
definition bigTransfers :: nat where "bigTransfers = 2"
definition bigTransferSize :: int where "bigTransferSize = 1048576"
definition maxPending :: nat where "maxPending = 64"
definition maxCRLSize :: int where "maxCRLSize = 134217728"
definition maxFetches :: int where "maxFetches = 20"
definition maxAIAURLs :: nat where "maxAIAURLs = 3"
definition maxCDPURLs :: nat where "maxCDPURLs = 3"
definition maxOCSPURLs :: nat where "maxOCSPURLs = 2"
definition maxAIACerts :: nat where "maxAIACerts = 32"
definition maxAltCandidates :: nat where "maxAltCandidates = 8"
definition archiveSample :: nat where "archiveSample = 16"
definition maxChainDepth :: nat where "maxChainDepth = 10"

lemmas limit_defs = CertSize_def slotWait_def analyzeTimeout_def hardTimeout_def bigCRLSize_def
  bigCRLQueue_def bigTransfers_def bigTransferSize_def maxPending_def maxCRLSize_def maxFetches_def
  maxAIAURLs_def maxCDPURLs_def maxOCSPURLs_def maxAIACerts_def maxAltCandidates_def
  archiveSample_def maxChainDepth_def

record fetch_kind =
  fk_name :: string
  fk_max :: int
  fk_timeout :: gotime

definition fetchAIA :: fetch_kind where
  "fetchAIA = \<lparr>fk_name = ''AIA'', fk_max = 1048576, fk_timeout = 15 * nsec\<rparr>"

definition fetchCRL :: fetch_kind where
  "fetchCRL = \<lparr>fk_name = ''CRL'', fk_max = maxCRLSize, fk_timeout = 0\<rparr>"

definition fetchOCSP :: fetch_kind where
  "fetchOCSP = \<lparr>fk_name = ''OCSP'', fk_max = 65536, fk_timeout = 15 * nsec\<rparr>"

section \<open>Errors\<close>

text \<open>
  The error values a fetch can end with. \<open>Wrapped\<close> is \<open>fmt.Errorf\<close> with \<open>%w\<close>. \<open>LibError\<close> stands
  for any error of the libraries: its text, whether it is a \<open>net.Error\<close> and then whether it says
  \<open>Timeout()\<close>, and what it unwraps to. \<open>DnsError\<close> is a \<open>net.DNSError\<close>, itself a \<open>net.Error\<close>.
\<close>

datatype goerr =
    ErrBusy
  | ErrBudget
  | ErrNotObject
  | ErrBlocked
  | DeadlineExceeded
  | Canceled
  | StatusError int
  | SizeError int int
  | UnreachableError string goerr
  | RecentFailure gotime goerr
  | Wrapped string goerr
  | DnsError string bool
  | LibError string "bool option" "goerr option"

text \<open>The error and what it unwraps to, in the order \<open>errors.Is\<close> and \<open>errors.As\<close> look at them.\<close>

fun err_chain :: "goerr \<Rightarrow> goerr list" where
  "err_chain (UnreachableError a e) = UnreachableError a e # err_chain e"
| "err_chain (RecentFailure t e) = RecentFailure t e # err_chain e"
| "err_chain (Wrapped s e) = Wrapped s e # err_chain e"
| "err_chain (LibError s t (Some e)) = LibError s t (Some e) # err_chain e"
| "err_chain e = [e]"

fun as_recent :: "goerr \<Rightarrow> (gotime \<times> goerr) option" where
  "as_recent (RecentFailure t e) = Some (t, e)"
| "as_recent (UnreachableError a e) = as_recent e"
| "as_recent (Wrapped s e) = as_recent e"
| "as_recent (LibError s t (Some e)) = as_recent e"
| "as_recent e = None"

fun is_dns :: "goerr \<Rightarrow> bool" where
  "is_dns (DnsError _ _) = True"
| "is_dns _ = False"

fun is_unreachable :: "goerr \<Rightarrow> bool" where
  "is_unreachable (UnreachableError _ _) = True"
| "is_unreachable _ = False"

fun is_status :: "goerr \<Rightarrow> bool" where
  "is_status (StatusError _) = True"
| "is_status _ = False"

fun is_size :: "goerr \<Rightarrow> bool" where
  "is_size (SizeError _ _) = True"
| "is_size _ = False"

text \<open>\<open>net.Error\<close> and its \<open>Timeout()\<close>; the error of an exceeded deadline is one too.\<close>

fun net_timeout :: "goerr \<Rightarrow> bool option" where
  "net_timeout (LibError _ t _) = t"
| "net_timeout (DnsError _ t) = Some t"
| "net_timeout DeadlineExceeded = Some True"
| "net_timeout _ = None"

definition is_err :: "goerr \<Rightarrow> goerr \<Rightarrow> bool" where
  "is_err e target \<longleftrightarrow> target \<in> set (err_chain e)"

definition as_timeout :: "goerr \<Rightarrow> bool" where
  "as_timeout e \<longleftrightarrow> (case List.map_filter net_timeout (err_chain e) of [] \<Rightarrow> False | t # _ \<Rightarrow> t)"

subsection \<open>Texts\<close>

definition string_of_int :: "int \<Rightarrow> string" where
  "string_of_int n = (if n < 0 then ''-'' @ digits_of (nat (- n)) else digits_of (nat n))"

text \<open>
  \<open>time.Duration.String\<close> of a duration that is not negative: hours, minutes and seconds with the
  fraction's trailing zeros cut, or the unit that fits a duration under a second.
\<close>

fun pad_digits :: "nat \<Rightarrow> nat \<Rightarrow> string" where
  "pad_digits 0 v = ''''"
| "pad_digits (Suc k) v = pad_digits k (v div 10) @ [char_of (48 + v mod 10)]"

definition frac_string :: "nat \<Rightarrow> nat \<Rightarrow> string" where
  "frac_string prec v =
     (let ds = rev (dropWhile (\<lambda>c. c = CHR ''0'') (rev (pad_digits prec v)))
      in if ds = [] then '''' else ''.'' @ ds)"

definition duration_string :: "gotime \<Rightarrow> string" where
  "duration_string d =
     (let u = nat d; s = u div 1000000000; m = s div 60; h = m div 60 in
      if u = 0 then ''0s''
      else if u < 1000 then digits_of u @ ''ns''
      else if u < 1000000 then digits_of (u div 1000) @ frac_string 3 u @ [char_of (194::nat), char_of (181::nat)] @ ''s''
      else if u < 1000000000 then digits_of (u div 1000000) @ frac_string 6 u @ ''ms''
      else (if h > 0 then digits_of h @ ''h'' else '''')
         @ (if m > 0 then digits_of (m mod 60) @ ''m'' else '''')
         @ digits_of (s mod 60) @ frac_string 9 u @ ''s'')"

text \<open>\<open>err.Error()\<close>.\<close>

fun err_text :: "goerr \<Rightarrow> string" where
  "err_text ErrBusy = ''server busy, try again later''"
| "err_text ErrBudget = ''fetch budget of 20 per analysis exhausted''"
| "err_text ErrNotObject = ''not a DER or PEM object''"
| "err_text ErrBlocked = ''address is not a public unicast address''"
| "err_text DeadlineExceeded = ''context deadline exceeded''"
| "err_text Canceled = ''context canceled''"
| "err_text (StatusError c) = ''HTTP '' @ string_of_int c"
| "err_text (SizeError n m) =
     (if n < 0 then ''too large: over '' @ string_of_int m @ '' bytes''
      else ''too large: '' @ string_of_int n @ '' bytes, limit '' @ string_of_int m)"
| "err_text (UnreachableError a e) = ''unreachable '' @ a @ '': '' @ err_text e"
| "err_text (RecentFailure t e) = ''failed within the last '' @ duration_string t @ '': '' @ err_text e"
| "err_text (Wrapped s e) = s @ err_text e"
| "err_text (DnsError s t) = s"
| "err_text (LibError s t e) = s"

lemma as_recent_smaller: "as_recent e = Some (t, e') \<Longrightarrow> size e' < size e"
  by (induction e rule: as_recent.induct) auto

text \<open>
  \<open>publicError\<close>. The last group of cases returns \<open>err.Error()\<close>: the text of the whole error,
  with whatever wraps the budget, object, status or size error in it.
\<close>

function publicError :: "goerr \<Rightarrow> string" where
  "publicError e =
     (case as_recent e of
        Some (t, e') \<Rightarrow> ''failed within the last '' @ duration_string t @ '': '' @ publicError e'
      | None \<Rightarrow>
          if is_err e ErrBlocked then ''address is not public''
          else if list_ex is_dns (err_chain e) then ''name not resolved''
          else if is_err e DeadlineExceeded \<or> as_timeout e then ''timeout''
          else if list_ex is_unreachable (err_chain e) then ''connection failed''
          else if is_err e ErrBudget \<or> is_err e ErrNotObject
               \<or> list_ex is_status (err_chain e) \<or> list_ex is_size (err_chain e) then err_text e
          else ''connection failed or invalid response'')"
  by pat_completeness auto
termination
  by (relation "measure size") (auto dest: as_recent_smaller)

declare publicError.simps [simp del]

section \<open>Budget, URLs, bodies\<close>

text \<open>
  \<open>spendFetch\<close>: the budget of an analysis is an \<open>atomic.Int32\<close>; a context without one (not under
  \<open>guardAnalysis\<close>) is unlimited.
\<close>

definition spendFetch :: "32 word option \<Rightarrow> 32 word option \<times> goerr option" where
  "spendFetch b =
     (case b of None \<Rightarrow> (None, None)
      | Some n \<Rightarrow> (Some (n - 1), if sint (n - 1) < 0 then Some ErrBudget else None))"

definition new_budget :: "32 word option" where
  "new_budget = Some (word_of_int maxFetches)"

definition is_http :: "string \<Rightarrow> bool" where
  "is_http u \<longleftrightarrow> has_prefix (to_lower u) ''http://'' \<or> has_prefix (to_lower u) ''https://''"

fun usable_loop :: "nat \<Rightarrow> string list \<Rightarrow> string list \<Rightarrow> string list" where
  "usable_loop mx out [] = out"
| "usable_loop mx out (u # us) =
     (if length out = mx then out
      else usable_loop mx (if is_http u then out @ [u] else out) us)"

definition usableURLs :: "string list \<Rightarrow> nat \<Rightarrow> string list" where
  "usableURLs urls mx = usable_loop mx [] urls"

text \<open>
  A body is the bytes that can be read of it and the error that ends it, if it does not end with
  EOF. \<open>io.LimitReader\<close> stops after \<open>max + 1\<close> bytes, before such an error.
\<close>

record body =
  b_bytes :: bytes
  b_err :: "goerr option"

definition readLimited :: "body \<Rightarrow> int \<Rightarrow> int \<Rightarrow> goerr + bytes" where
  "readLimited r contentLength mx =
     (if contentLength > mx then Inl (SizeError contentLength mx)
      else let data = take (nat (mx + 1)) (b_bytes r) in
        case (if length (b_bytes r) < nat (mx + 1) then b_err r else None) of
          Some e \<Rightarrow> Inl e
        | None \<Rightarrow> if int (length data) > mx then Inl (SizeError (- 1) mx) else Inr data)"

text \<open>
  \<open>checkObjectStart\<close>: the first six bytes are PEM's dashes, or the header of a DER SEQUENCE with a
  definite length of at most four length bytes. \<open>n << 8 | b\<close> of a byte \<open>b\<close> is \<open>n * 256 + b\<close>; four
  bytes stay far below the 64 bits of the code's integers.
\<close>

definition be_value :: "bytes \<Rightarrow> int" where
  "be_value bs = foldl (\<lambda>n b. n * 256 + uint b) 0 bs"

definition size_check :: "int \<Rightarrow> int \<Rightarrow> goerr option" where
  "size_check sz mx = (if sz > mx then Some (SizeError sz mx) else None)"

definition checkObjectStart :: "bytes \<Rightarrow> int \<Rightarrow> goerr option" where
  "checkObjectStart bs mx =
     (let head = take 6 bs in
      if has_prefix head (bytes_of ''-----'') then None
      else case head of
        t # l # rest \<Rightarrow>
          if t \<noteq> 0x30 then Some ErrNotObject
          else if uint l < 128 then size_check (2 + uint l) mx
          else let k = nat (uint l - 128) in
            if k = 0 \<or> k > 4 \<or> length rest < k then Some ErrNotObject
            else size_check (2 + int k + be_value (take k rest)) mx
      | _ \<Rightarrow> Some ErrNotObject)"

end
