(* ===== verification/Limits_Laws.thy ===== *)
theory Limits_Laws
  imports Limits
begin

text \<open>
  What the bounds of the theory Limits achieve: bodies never exceed their limit and are returned
  whole below it, a DER object is refused exactly when its announced size exceeds the limit, the
  fetch budget allows exactly twenty fetches, and the message of a failed fetch tells a client
  nothing of the text the failure carries.
\<close>

section \<open>Bodies\<close>

lemma readLimited_Inr:
  assumes "readLimited r n mx = Inr data"
  shows "data = b_bytes r \<and> int (length data) \<le> mx \<and> b_err r = None"
proof -
  have d: "data = take (nat (mx + 1)) (b_bytes r)" "int (length data) \<le> mx"
    "(if length (b_bytes r) < nat (mx + 1) then b_err r else None) = None"
    using assms by (auto simp: readLimited_def Let_def split: if_splits option.splits)
  then have "length (b_bytes r) < nat (mx + 1)" by auto
  with d show ?thesis by auto
qed

text \<open>A body is returned, whole, exactly when its declared and its real length are within the limit and it ends without an error.\<close>

lemma readLimited_iff:
  "readLimited r n mx = Inr data \<longleftrightarrow>
     n \<le> mx \<and> int (length (b_bytes r)) \<le> mx \<and> b_err r = None \<and> data = b_bytes r"
proof
  assume "readLimited r n mx = Inr data"
  moreover from this have "n \<le> mx" by (auto simp: readLimited_def split: if_splits)
  ultimately show "n \<le> mx \<and> int (length (b_bytes r)) \<le> mx \<and> b_err r = None \<and> data = b_bytes r"
    using readLimited_Inr by blast
qed (auto simp: readLimited_def Let_def)

section \<open>URLs\<close>

lemma usable_loop_eq:
  "length out \<le> mx \<Longrightarrow> usable_loop mx out us = out @ take (mx - length out) (filter is_http us)"
proof (induction us arbitrary: out)
  case (Cons u us)
  show ?case
  proof (cases "length out = mx")
    case False
    with Cons.prems obtain d where d: "mx = length out + Suc d"
      by (metis add_Suc_right le_neq_implies_less less_imp_Suc_add)
    with Cons.IH [of "if is_http u then out @ [u] else out"] show ?thesis by simp
  qed simp
qed simp

text \<open>\<open>usableURLs\<close> returns the first \<open>max\<close> http and https URLs, in their order.\<close>

lemma usable_urls_first: "usableURLs us mx = take mx (filter is_http us)"
  by (simp add: usableURLs_def usable_loop_eq)

lemma length_usableURLs: "length (usableURLs us mx) \<le> mx"
  by (simp add: usableURLs_def usable_loop_eq)

lemma usableURLs_http: "u \<in> set (usableURLs us mx) \<Longrightarrow> is_http u \<and> u \<in> set us"
  by (auto simp: usableURLs_def usable_loop_eq dest: in_set_takeD)

section \<open>The fetch budget\<close>

fun spend_all :: "nat \<Rightarrow> 32 word option \<Rightarrow> goerr option list" where
  "spend_all 0 b = []"
| "spend_all (Suc k) b = (let (b', r) = spendFetch b in r # spend_all k b')"

lemma sint_word_of_int:
  assumes "- (2 ^ 31) \<le> x" and "x < 2 ^ 31"
  shows "sint (word_of_int x :: 32 word) = x"
  using assms by (simp add: sint_sbintrunc' signed_take_bit_int_eq_self)

lemma spend_all_results:
  assumes "int k \<le> b + 2 ^ 31" and "b < 2 ^ 31" and "- (2 ^ 31) \<le> b"
  shows "spend_all k (Some (word_of_int b))
       = map (\<lambda>i. if int i < b then None else Some ErrBudget) [0..<k]"
  using assms
proof (induction k arbitrary: b)
  case (Suc k)
  have w: "word_of_int b - 1 = (word_of_int (b - 1) :: 32 word)"
    by (metis wi_hom_sub word_1_wi)
  have s: "sint (word_of_int (b - 1) :: 32 word) = b - 1"
    using Suc.prems by (intro sint_word_of_int) auto
  have IH: "spend_all k (Some (word_of_int (b - 1)))
      = map (\<lambda>i. if int i < b - 1 then None else Some ErrBudget) [0..<k]"
    using Suc.prems by (intro Suc.IH) auto
  have "[0..<Suc k] = 0 # map Suc [0..<k]" by (simp add: upt_conv_Cons map_Suc_upt)
  with w s IH show ?case by (simp add: spendFetch_def)
qed simp

text \<open>
  An analysis is allowed its first twenty fetches and refused every later one, up
  to \<open>2 ^ 31\<close> refusals: the counter keeps falling and would allow fetches again only after it wraps.
\<close>

lemma twenty_fetches:
  assumes "k \<le> 20 + 2 ^ 31"
  shows "spend_all k new_budget = map (\<lambda>i. if i < 20 then None else Some ErrBudget) [0..<k]"
  using spend_all_results [of k 20] assms by (auto simp: new_budget_def maxFetches_def)

lemma twenty_fetches_witness:
  "spend_all 22 new_budget ! 19 = None \<and> spend_all 22 new_budget ! 20 = Some ErrBudget"
  by (subst (1 2) twenty_fetches) simp_all

section \<open>The first bytes of an object\<close>

text \<open>A SEQUENCE header with a definite length in \<open>k\<close> bytes, or in the short form.\<close>

fun be_bytes :: "nat \<Rightarrow> nat \<Rightarrow> bytes" where
  "be_bytes 0 n = []"
| "be_bytes (Suc k) n = be_bytes k (n div 256) @ [of_nat (n mod 256)]"

definition seq_header :: "nat \<Rightarrow> nat \<Rightarrow> bytes" where
  "seq_header k n = (if k = 0 then [0x30, of_nat n] else [0x30, of_nat (128 + k)] @ be_bytes k n)"

lemma length_be_bytes [simp]: "length (be_bytes k n) = k"
  by (induction k arbitrary: n) auto

lemma be_value_append: "be_value (xs @ [b]) = be_value xs * 256 + uint b"
  by (simp add: be_value_def)

lemma uint_of_nat_byte: "n < 256 \<Longrightarrow> uint (of_nat n :: byte) = int n"
  by (simp add: uint_nat unat_of_nat take_bit_nat_eq_self)

lemma be_value_bytes: "n < 256 ^ k \<Longrightarrow> be_value (be_bytes k n) = int n"
proof (induction k arbitrary: n)
  case (Suc k)
  then have "n div 256 < 256 ^ k" by (simp add: less_mult_imp_div_less mult.commute)
  with Suc.IH have "be_value (be_bytes k (n div 256)) = int (n div 256)" by blast
  moreover have "uint (of_nat (n mod 256) :: byte) = int (n mod 256)" by (rule uint_of_nat_byte) simp
  moreover have "int (n div 256) * 256 + int (n mod 256) = int n"
    by (metis div_mult_mod_eq of_nat_add of_nat_mult of_nat_numeral)
  ultimately show ?case by (simp only: be_bytes.simps be_value_append)
qed (simp add: be_value_def)

text \<open>
  An object that starts with a DER SEQUENCE header announcing \<open>n\<close> bytes of content,
  in the short form or in one to four length bytes, is let through exactly when header and
  content together are within the limit, whatever follows; otherwise the error names that size.
\<close>

lemma der_start_by_announced_size:
  assumes "k \<le> 4" and "n < (if k = 0 then 128 else 256 ^ k)"
  shows "checkObjectStart (seq_header k n @ content) mx
       = (if int (2 + k + n) > mx then Some (SizeError (int (2 + k + n)) mx) else None)"
proof (cases "k = 0")
  case True
  with assms have "uint (of_nat n :: byte) = int n" by (intro uint_of_nat_byte) simp
  with True assms show ?thesis
    by (simp add: checkObjectStart_def seq_header_def has_prefix_def bytes_of_def size_check_def Let_def)
next
  case False
  have l: "uint (of_nat (128 + k) :: byte) = int (128 + k)" using assms by (intro uint_of_nat_byte) simp
  have t: "take 6 (seq_header k n @ content)
      = 0x30 # of_nat (128 + k) # be_bytes k n @ take (4 - k) content"
    using False assms by (simp add: seq_header_def numeral_eq_Suc)
  have nk: "nat (int (128 + k) - 128) = k" by simp
  have v: "be_value (be_bytes k n) = int n" using False assms by (intro be_value_bytes) simp
  show ?thesis
    using False assms
    by (simp only: checkObjectStart_def t Let_def)
       (simp add: has_prefix_def bytes_of_def l nk v size_check_def del: of_nat_add)
qed

lemma der_start_by_announced_size_witness:
  "checkObjectStart (seq_header 3 1000000 @ [1, 2]) 100 = Some (SizeError 1000005 100)"
  using der_start_by_announced_size [of 3 1000000 "[1, 2]" 100] by simp

section \<open>What a client is told\<close>

text \<open>
  \<open>scrub\<close> replaces every text an error carries from outside: the address of an unreachable host,
  the wrapping texts, a resolver's or a library's message.
\<close>

fun scrub :: "string \<Rightarrow> goerr \<Rightarrow> goerr" where
  "scrub x (UnreachableError a e) = UnreachableError x (scrub x e)"
| "scrub x (RecentFailure t e) = RecentFailure t (scrub x e)"
| "scrub x (Wrapped s e) = Wrapped x (scrub x e)"
| "scrub x (DnsError s t) = DnsError x t"
| "scrub x (LibError s t (Some e)) = LibError x t (Some (scrub x e))"
| "scrub x (LibError s t None) = LibError x t None"
| "scrub x e = e"

lemma err_chain_scrub: "err_chain (scrub x e) = map (scrub x) (err_chain e)"
  by (induction x e rule: scrub.induct) auto

lemma scrub_invariant [simp]:
  "is_dns (scrub x e) = is_dns e" "is_unreachable (scrub x e) = is_unreachable e"
  "is_status (scrub x e) = is_status e" "is_size (scrub x e) = is_size e"
  "net_timeout (scrub x e) = net_timeout e"
  by (induction x e rule: scrub.induct) auto

lemma scrub_eq_iff:
  "scrub x e = ErrBlocked \<longleftrightarrow> e = ErrBlocked" "scrub x e = ErrBudget \<longleftrightarrow> e = ErrBudget"
  "scrub x e = ErrNotObject \<longleftrightarrow> e = ErrNotObject" "scrub x e = DeadlineExceeded \<longleftrightarrow> e = DeadlineExceeded"
  by (induction x e rule: scrub.induct) auto

lemma as_recent_scrub: "as_recent (scrub x e) = map_option (map_prod id (scrub x)) (as_recent e)"
  by (induction x e rule: scrub.induct) auto

lemma is_err_scrub:
  "is_err (scrub x e) ErrBlocked = is_err e ErrBlocked" "is_err (scrub x e) ErrBudget = is_err e ErrBudget"
  "is_err (scrub x e) ErrNotObject = is_err e ErrNotObject"
  "is_err (scrub x e) DeadlineExceeded = is_err e DeadlineExceeded"
  by (auto simp: is_err_def err_chain_scrub scrub_eq_iff image_iff eq_commute [of _ "scrub x _"])

lemma as_timeout_scrub: "as_timeout (scrub x e) = as_timeout e"
  by (simp add: as_timeout_def err_chain_scrub List.map_filter_def filter_map comp_def)

lemma list_ex_scrub: "(\<And>e. P (scrub x e) = P e) \<Longrightarrow> list_ex P (err_chain (scrub x e)) = list_ex P (err_chain e)"
  by (simp add: err_chain_scrub list_ex_iff)

text \<open>
  The error a message is about, below the memory of a recent failure. Where the message is that
  error's own text, the error says budget, object, status or size; \<open>bare\<close> says that then nothing
  is wrapped around it, which is how \<open>doFetch\<close> and \<open>spendFetch\<close> return it.
\<close>

function told_of :: "goerr \<Rightarrow> goerr" where
  "told_of e = (case as_recent e of Some (t, e') \<Rightarrow> told_of e' | None \<Rightarrow> e)"
  by pat_completeness auto
termination
  by (relation "measure size") (auto dest: as_recent_smaller)

declare told_of.simps [simp del]

definition speaks :: "goerr \<Rightarrow> bool" where
  "speaks e \<longleftrightarrow> is_err e ErrBudget \<or> is_err e ErrNotObject
     \<or> list_ex is_status (err_chain e) \<or> list_ex is_size (err_chain e)"

definition bare :: "goerr \<Rightarrow> bool" where
  "bare e \<longleftrightarrow> (speaks e \<longrightarrow> err_chain e = [e])"

lemma bare_scrub: "bare e \<Longrightarrow> speaks e \<Longrightarrow> scrub x e = e"
  by (cases e) (auto simp: bare_def speaks_def is_err_def)

lemma speaks_scrub: "speaks (scrub x e) = speaks e"
  by (simp add: speaks_def is_err_scrub list_ex_scrub)

lemma publicError_step:
  "publicError e =
     (case as_recent e of
        Some (t, e') \<Rightarrow> ''failed within the last '' @ duration_string t @ '': '' @ publicError e'
      | None \<Rightarrow>
          if is_err e ErrBlocked then ''address is not public''
          else if list_ex is_dns (err_chain e) then ''name not resolved''
          else if is_err e DeadlineExceeded \<or> as_timeout e then ''timeout''
          else if list_ex is_unreachable (err_chain e) then ''connection failed''
          else if speaks e then err_text e
          else ''connection failed or invalid response'')"
  by (subst publicError.simps) (simp add: speaks_def split: option.split)

text \<open>
  What a client is told of a failed fetch does not depend on any text the failure
  carries: no address, no resolver's or library's message, no wrapping text shows in it.
\<close>

lemma public_error_tells_no_text:
  assumes "bare (told_of e)"
  shows "publicError (scrub x e) = publicError e"
  using assms
proof (induction e rule: told_of.induct)
  case (1 e)
  show ?case
  proof (cases "as_recent e")
    case None
    with "1.prems" have "bare e" by (simp add: told_of.simps)
    then show ?thesis
      using bare_scrub [of e x]
      by (simp add: publicError_step [of e] publicError_step [of "scrub x e"] None as_recent_scrub
          is_err_scrub as_timeout_scrub list_ex_scrub speaks_scrub)
  next
    case (Some p)
    obtain t e' where p: "p = (t, e')" by (cases p)
    with Some "1.prems" have "bare (told_of e')" by (simp add: told_of.simps [of e])
    with "1.IH" Some p have "publicError (scrub x e') = publicError e'" by blast
    with Some p show ?thesis
      by (simp add: publicError_step [of e] publicError_step [of "scrub x e"] as_recent_scrub)
  qed
qed

lemma public_error_tells_no_text_witness:
  "publicError (scrub ''x'' (RecentFailure (60 * nsec) (UnreachableError ''10.0.0.1:22'' (LibError ''refused'' (Some False) None))))
   = publicError (RecentFailure (60 * nsec) (UnreachableError ''10.0.0.1:22'' (LibError ''refused'' (Some False) None)))"
  by (rule public_error_tells_no_text)
     (simp add: told_of.simps bare_def speaks_def is_err_def)

end
