(* ===== verification/Gate.thy ===== *)
theory Gate
  imports Limits
begin

text \<open>
  Admission of work (the channels of cmd/certview/guard.go): Go's channels of \<open>struct{}\<close> used as
  bounded semaphores, \<open>admit\<close>, \<open>acquireBig\<close>, and the protocol by which an analysis takes a slot
  (\<open>guardAnalysis\<close>), trades it for a place in the queue of large CRLs and takes the CRL memory gate
  (\<open>acquireCRLMemory\<close>). An analysis is a thread with a program point; a step of a thread is one
  channel operation or one \<open>select\<close>, so any interleaving of analyses is a sequence of steps.
\<close>

section \<open>Channels\<close>

record chan =
  chan_cap :: nat
  chan_len :: nat

definition make_chan :: "nat \<Rightarrow> chan" where
  "make_chan n = \<lparr>chan_cap = n, chan_len = 0\<rparr>"

text \<open>A send and a receive that would block are \<open>None\<close>.\<close>

definition chan_send :: "chan \<Rightarrow> chan option" where
  "chan_send c = (if chan_len c < chan_cap c then Some (c\<lparr>chan_len := Suc (chan_len c)\<rparr>) else None)"

definition chan_recv :: "chan \<Rightarrow> chan option" where
  "chan_recv c = (if chan_len c = 0 then None else Some (c\<lparr>chan_len := chan_len c - 1\<rparr>))"

interpretation sem: semaphore chan_cap chan_len chan_send chan_recv
  by unfold_locales (auto simp: chan_send_def chan_recv_def split: if_splits)

subsection \<open>Requests and transfers\<close>

text \<open>
  \<open>admit\<close>: a request enters with a place in \<open>pending\<close>, given back when the handler returns, or is
  answered at once with a status and a text.
\<close>

definition admit :: "chan \<Rightarrow> chan \<times> (int \<times> string + unit)" where
  "admit pending =
     (case chan_send pending of
        Some p \<Rightarrow> (p, Inr ())
      | None \<Rightarrow> (pending, Inl (503, err_text ErrBusy)))"

text \<open>
  \<open>acquireBig\<close>: \<open>None\<close> while it waits. What ends the wait besides the channel: the context, or its
  own thirty seconds (\<open>over\<close>). When several alternatives of the \<open>select\<close> are ready any of them may
  be taken, so the results are a list. A transfer that took a place has \<open>sync.OnceFunc\<close> around the
  receive that gives it back: the flag of \<open>transfer\<close> says whether it still holds it.
\<close>

datatype transfer = Free | Held bool

definition wait_error :: "goerr option \<Rightarrow> goerr" where
  "wait_error ctx = (case ctx of Some e \<Rightarrow> e | None \<Rightarrow> ErrBusy)"

definition acquireBig :: "chan \<Rightarrow> goerr option \<Rightarrow> bool \<Rightarrow> int \<Rightarrow> (chan \<times> (goerr + transfer)) list" where
  "acquireBig sem ctx over n =
     (if 0 \<le> n \<and> n \<le> bigTransferSize then [(sem, Inr Free)]
      else (case chan_send sem of Some s \<Rightarrow> [(s, Inr (Held True))] | None \<Rightarrow> [])
         @ (if ctx \<noteq> None \<or> over then [(sem, Inl (wait_error ctx))] else []))"

fun release_big :: "chan \<Rightarrow> transfer \<Rightarrow> (chan \<times> transfer) option" where
  "release_big sem (Held True) = map_option (\<lambda>s. (s, Held False)) (chan_recv sem)"
| "release_big sem t = Some (sem, t)"

text \<open>\<open>writeAnalysisError\<close>: the status and text of the answer, or none for a client that is gone.\<close>

definition writeAnalysisError :: "goerr \<Rightarrow> (int \<times> string) option" where
  "writeAnalysisError e =
     (if is_err e ErrBusy then Some (503, err_text e)
      else if is_err e DeadlineExceeded then Some (504, ''analysis timed out'')
      else if is_err e Canceled then None
      else Some (502, err_text e))"

text \<open>\<open>runWatchdog\<close>: whether one tick exits the process, given the start of each running analysis.\<close>

definition watchdog_exits :: "(nat \<times> gotime) list \<Rightarrow> gotime \<Rightarrow> bool" where
  "watchdog_exits running now \<longleftrightarrow> list_ex (\<lambda>(i, start). now - start > hardTimeout) running"

section \<open>An analysis\<close>

record chans =
  slots :: chan
  bigCRL :: chan
  crlQueue :: chan

definition make_chans :: "nat \<Rightarrow> chans" where
  "make_chans ncpu = \<lparr>slots = make_chan ncpu, bigCRL = make_chan 1, crlQueue = make_chan bigCRLQueue\<rparr>"

text \<open>
  The program points. \<open>Idle\<close>: before \<open>guardAnalysis\<close>. \<open>WaitSlot\<close>: in its \<open>select\<close>. \<open>Run\<close>: the
  analysis holds its slot (\<open>hold.held\<close>). Then in \<open>acquireCRLMemory\<close>, after its first \<open>select\<close>
  found the gate taken: \<open>Enq\<close> at the queue; \<open>GiveSlot\<close> with a place in the queue, at \<open><-slots\<close>;
  \<open>QWait\<close> and \<open>SWait\<close> waiting for the gate, from the queue or (queue full) from the slot; \<open>QGate\<close>
  with the gate, looking for a slot; \<open>QBack\<close> at the \<open>release()\<close> that gives the gate back; \<open>QSlot\<close>
  and \<open>QSWait\<close> waiting for a slot and then for the gate; \<open>QHold\<close> and \<open>QErr\<close> at the deferred receive
  from the queue on a return with the gate or with an error (and with or without the slot). \<open>Hold\<close>:
  \<open>acquireCRLMemory\<close> returned, slot and gate are held. \<open>Unwind\<close>: it returned the context's error
  after the slot was given up. \<open>Ended\<close>: the release of \<open>guardAnalysis\<close> ran, or it refused.
\<close>

datatype pc =
    Idle | WaitSlot | Run | Enq | GiveSlot | QWait | SWait | QGate | QBack | QSlot | QSWait
  | QHold | QErr bool | Hold | Unwind | Ended "goerr option"

record thread =
  th_pc :: pc
  th_ctx :: "goerr option"
  th_over :: bool

definition new_thread :: thread where
  "new_thread = \<lparr>th_pc = Idle, th_ctx = None, th_over = False\<rparr>"

text \<open>What the next step of a thread is: the operations an analysis calls, or the next statement of the one it is in.\<close>

datatype action = Enter | Advance | Acquire nat | Release | Finish

definition ready :: "(chan \<Rightarrow> chan option) \<Rightarrow> (chans \<Rightarrow> chan) \<Rightarrow> ((chan \<Rightarrow> chan) \<Rightarrow> chans \<Rightarrow> chans) \<Rightarrow> chans \<Rightarrow> pc
    \<Rightarrow> (chans \<times> pc) list" where
  "ready op get upd cs p = (case op (get cs) of Some c \<Rightarrow> [(upd (\<lambda>_. c) cs, p)] | None \<Rightarrow> [])"

text \<open>A \<open>select\<close> with a \<open>default\<close> branch.\<close>

definition or_default :: "(chans \<times> pc) list \<Rightarrow> (chans \<times> pc) list \<Rightarrow> (chans \<times> pc) list" where
  "or_default xs ys = (if xs = [] then ys else xs)"

definition when_done :: "goerr option \<Rightarrow> chans \<Rightarrow> pc \<Rightarrow> (chans \<times> pc) list" where
  "when_done ctx cs p = (if ctx \<noteq> None then [(cs, p)] else [])"

abbreviation send_slot where "send_slot \<equiv> ready chan_send slots slots_update"
abbreviation recv_slot where "recv_slot \<equiv> ready chan_recv slots slots_update"
abbreviation send_gate where "send_gate \<equiv> ready chan_send bigCRL bigCRL_update"
abbreviation recv_gate where "recv_gate \<equiv> ready chan_recv bigCRL bigCRL_update"
abbreviation send_queue where "send_queue \<equiv> ready chan_send crlQueue crlQueue_update"
abbreviation recv_queue where "recv_queue \<equiv> ready chan_recv crlQueue crlQueue_update"

definition guardAnalysis :: "chans \<Rightarrow> thread \<Rightarrow> (chans \<times> pc) list" where
  "guardAnalysis cs t =
     send_slot cs Run
     @ (if th_ctx t \<noteq> None \<or> th_over t then [(cs, Ended (Some (wait_error (th_ctx t))))] else [])"

definition guard_release :: "chans \<Rightarrow> bool \<Rightarrow> goerr option \<Rightarrow> (chans \<times> pc) list" where
  "guard_release cs held e = (if held then recv_slot cs (Ended e) else [(cs, Ended e)])"

text \<open>\<open>acquireCRLMemory\<close> up to its first \<open>select\<close>, and each statement after it.\<close>

definition acquireCRLMemory :: "nat \<Rightarrow> chans \<Rightarrow> (chans \<times> pc) list" where
  "acquireCRLMemory n cs =
     (if n < bigCRLSize then [(cs, Run)] else or_default (send_gate cs Hold) [(cs, Enq)])"

fun acquire_next :: "chans \<Rightarrow> goerr option \<Rightarrow> pc \<Rightarrow> (chans \<times> pc) list" where
  "acquire_next cs ctx Enq = or_default (send_queue cs GiveSlot) [(cs, SWait)]"
| "acquire_next cs ctx GiveSlot = recv_slot cs QWait"
| "acquire_next cs ctx QWait = send_gate cs QGate @ when_done ctx cs (QErr False)"
| "acquire_next cs ctx SWait = send_gate cs Hold @ when_done ctx cs Run"
| "acquire_next cs ctx QGate = or_default (send_slot cs QHold) [(cs, QBack)]"
| "acquire_next cs ctx QBack = recv_gate cs QSlot"
| "acquire_next cs ctx QSlot = send_slot cs QSWait @ when_done ctx cs (QErr False)"
| "acquire_next cs ctx QSWait = send_gate cs QHold @ when_done ctx cs (QErr True)"
| "acquire_next cs ctx QHold = recv_queue cs Hold"
| "acquire_next cs ctx (QErr held) = recv_queue cs (if held then Run else Unwind)"
| "acquire_next cs ctx _ = []"

text \<open>
  The steps of a thread. From \<open>Unwind\<close> only the release is left: each caller of \<open>acquireCRLMemory\<close>
  looks at \<open>ctx.Err()\<close> before it opens another CRL.
\<close>

fun thread_step :: "chans \<Rightarrow> thread \<Rightarrow> action \<Rightarrow> (chans \<times> pc) list" where
  "thread_step cs t Enter = (if th_pc t = Idle then [(cs, WaitSlot)] else [])"
| "thread_step cs t Advance =
     (if th_pc t = WaitSlot then guardAnalysis cs t else acquire_next cs (th_ctx t) (th_pc t))"
| "thread_step cs t (Acquire n) = (if th_pc t = Run then acquireCRLMemory n cs else [])"
| "thread_step cs t Release = (if th_pc t = Hold then recv_gate cs Run else [])"
| "thread_step cs t Finish =
     (if th_pc t = Run then guard_release cs True (th_ctx t)
      else if th_pc t = Unwind then guard_release cs False (th_ctx t) else [])"

section \<open>The server\<close>

record server =
  sv_chans :: chans
  sv_threads :: "thread list"

text \<open>A thread makes a step, a context ends, the thirty seconds of a wait for a slot pass.\<close>

inductive server_step :: "server \<Rightarrow> server \<Rightarrow> bool" where
  own: "\<lbrakk>i < length (sv_threads s); (cs, p) \<in> set (thread_step (sv_chans s) (sv_threads s ! i) a)\<rbrakk>
    \<Longrightarrow> server_step s \<lparr>sv_chans = cs, sv_threads = (sv_threads s)[i := (sv_threads s ! i)\<lparr>th_pc := p\<rparr>]\<rparr>"
| ctx: "\<lbrakk>i < length (sv_threads s); th_ctx (sv_threads s ! i) = None; e \<in> {Canceled, DeadlineExceeded}\<rbrakk>
    \<Longrightarrow> server_step s (s\<lparr>sv_threads := (sv_threads s)[i := (sv_threads s ! i)\<lparr>th_ctx := Some e\<rparr>]\<rparr>)"
| over: "i < length (sv_threads s)
    \<Longrightarrow> server_step s (s\<lparr>sv_threads := (sv_threads s)[i := (sv_threads s ! i)\<lparr>th_over := True\<rparr>]\<rparr>)"

inductive_cases server_stepE: "server_step s s'"

definition start_server :: "nat \<Rightarrow> nat \<Rightarrow> server" where
  "start_server ncpu n = \<lparr>sv_chans = make_chans ncpu, sv_threads = replicate n new_thread\<rparr>"

end
