(* ===== verification/Gate_Laws.thy ===== *)
theory Gate_Laws
  imports Gate
begin

text \<open>
  What the admission protocol promises in every reachable state: slots, gate and queue are owned
  by exactly the analyses whose program point says so and never exceed their capacity, the holder
  of the gate never waits, some analysis can always move, and everything taken is given back.
\<close>

section \<open>Who owns what\<close>

definition has_slot :: "pc \<Rightarrow> bool" where
  "has_slot p \<longleftrightarrow> p \<in> {Run, Enq, GiveSlot, SWait, QSWait, QHold, QErr True, Hold}"

definition has_gate :: "pc \<Rightarrow> bool" where
  "has_gate p \<longleftrightarrow> p \<in> {QGate, QBack, QHold, Hold}"

definition has_place :: "pc \<Rightarrow> bool" where
  "has_place p \<longleftrightarrow> p \<in> {GiveSlot, QWait, QGate, QBack, QSlot, QSWait, QHold, QErr True, QErr False}"

abbreviation pcs where "pcs s \<equiv> map th_pc (sv_threads s)"

definition owned :: "('p \<Rightarrow> bool) \<Rightarrow> nat \<Rightarrow> chan \<Rightarrow> 'p list \<Rightarrow> bool" where
  "owned P n c ps \<longleftrightarrow> chan_len c = cnt P ps \<and> chan_len c \<le> chan_cap c \<and> chan_cap c = n"

definition server_ok :: "nat \<Rightarrow> server \<Rightarrow> bool" where
  "server_ok ncpu s \<longleftrightarrow> owned has_slot ncpu (slots (sv_chans s)) (pcs s)
     \<and> owned has_gate 1 (bigCRL (sv_chans s)) (pcs s)
     \<and> owned has_place bigCRLQueue (crlQueue (sv_chans s)) (pcs s)"

text \<open>
  One step of a thread changes a channel by what its program point changes: the four cases of a
  channel operation, each a lemma of the semaphore.
\<close>

definition moved :: "('p \<Rightarrow> bool) \<Rightarrow> chan \<Rightarrow> 'p \<Rightarrow> chan \<Rightarrow> 'p \<Rightarrow> bool" where
  "moved P c p c' p' \<longleftrightarrow>
     (P p = P p' \<and> c' = c) \<or> (\<not> P p \<and> P p' \<and> chan_send c = Some c') \<or> (P p \<and> \<not> P p' \<and> chan_recv c = Some c')"

lemma owned_moved:
  assumes "owned P n c ps" and "i < length ps" and "moved P c (ps ! i) c' p'"
  shows "owned P n c' (ps[i := p'])"
proof -
  have c: "cnt P (ps[i := p']) + of_bool (P (ps ! i)) = cnt P ps + of_bool (P p')"
    by (rule cnt_update [OF assms(2)])
  from assms(3) consider "P (ps ! i) = P p'" "c' = c"
    | "\<not> P (ps ! i)" "P p'" "chan_send c = Some c'" | "P (ps ! i)" "\<not> P p'" "chan_recv c = Some c'"
    by (auto simp: moved_def)
  then show ?thesis
  proof cases
    case 1
    with c assms(1) show ?thesis by (auto simp: owned_def split: if_splits)
  next
    case 2
    with c assms(1) sem.acquire_used [of c c'] sem.acquire_within [of c c'] show ?thesis
      by (auto simp: owned_def)
  next
    case 3
    with c assms(1) sem.release_used [of c c'] sem.release_within [of c c'] show ?thesis
      by (auto simp: owned_def)
  qed
qed

lemmas owner_defs = has_slot_def has_gate_def has_place_def

lemmas step_defs = guardAnalysis_def guard_release_def acquireCRLMemory_def ready_def
  or_default_def when_done_def

lemma thread_step_moved:
  assumes "(cs', p') \<in> set (thread_step cs t a)"
  shows "moved has_slot (slots cs) (th_pc t) (slots cs') p'
       \<and> moved has_gate (bigCRL cs) (th_pc t) (bigCRL cs') p'
       \<and> moved has_place (crlQueue cs) (th_pc t) (crlQueue cs') p'"
  using assms
  by (cases a; cases "th_pc t")
     (auto simp: step_defs owner_defs moved_def split: if_splits option.splits)

lemma map_update_same: "f y = f (xs ! i) \<Longrightarrow> map f (xs[i := y]) = map f xs"
  by (cases "i < length xs") (simp_all add: map_update list_update_same_conv list_update_beyond)

lemma server_ok_step:
  assumes "server_ok ncpu s" and "server_step s s'"
  shows "server_ok ncpu s'"
  using assms(2)
proof cases
  case (own i cs p a)
  with thread_step_moved [of cs p "sv_chans s" "sv_threads s ! i" a] assms(1)
  show ?thesis
    by (auto simp: server_ok_def map_update intro!: owned_moved)
next
  case (ctx i e)
  with assms(1) show ?thesis by (simp add: server_ok_def map_update_same)
next
  case (over i)
  with assms(1) show ?thesis by (simp add: server_ok_def map_update_same)
qed

lemma server_ok_start: "server_ok ncpu (start_server ncpu n)"
proof -
  have "cnt P (map th_pc (replicate n new_thread)) = (if P Idle then n else 0)" for P
    by (induction n) (auto simp: new_thread_def)
  then show ?thesis by (simp add: owner_defs server_ok_def owned_def start_server_def make_chans_def make_chan_def)
qed

interpretation server: transition_system "\<lambda>s. \<exists>n. s = start_server ncpu n" server_step "server_ok ncpu" for ncpu
  by unfold_locales (auto intro: server_ok_start server_ok_step)

definition reachable :: "nat \<Rightarrow> server \<Rightarrow> bool" where
  "reachable ncpu s \<longleftrightarrow> (\<exists>n. server_step\<^sup>*\<^sup>* (start_server ncpu n) s)"

lemma reachable_ok: "reachable ncpu s \<Longrightarrow> server_ok ncpu s"
  unfolding reachable_def by (auto intro: server.inv_reachable)

section \<open>Running a schedule\<close>

text \<open>Each entry names a thread, its action and which of the ready alternatives is taken.\<close>

fun run_schedule :: "(nat \<times> action \<times> nat) list \<Rightarrow> server \<Rightarrow> server option" where
  "run_schedule [] s = Some s"
| "run_schedule ((i, a, k) # ws) s =
     (if i < length (sv_threads s) \<and> k < length (thread_step (sv_chans s) (sv_threads s ! i) a)
      then run_schedule ws (case thread_step (sv_chans s) (sv_threads s ! i) a ! k of (cs, p) \<Rightarrow>
             \<lparr>sv_chans = cs, sv_threads = (sv_threads s)[i := (sv_threads s ! i)\<lparr>th_pc := p\<rparr>]\<rparr>)
      else None)"

lemma run_schedule_steps: "run_schedule ws s = Some s' \<Longrightarrow> server_step\<^sup>*\<^sup>* s s'"
proof (induction ws s rule: run_schedule.induct)
  case (2 i a k ws s)
  then have i: "i < length (sv_threads s)" and k: "k < length (thread_step (sv_chans s) (sv_threads s ! i) a)"
    by (auto split: if_splits)
  obtain cs p where cp: "thread_step (sv_chans s) (sv_threads s ! i) a ! k = (cs, p)" by fastforce
  with k have "(cs, p) \<in> set (thread_step (sv_chans s) (sv_threads s ! i) a)" by (metis nth_mem)
  from server_step.own [OF i this] 2 i k cp show ?case
    by (auto intro: converse_rtranclp_into_rtranclp)
qed simp

lemma schedule_reachable: "run_schedule ws (start_server ncpu n) = Some s \<Longrightarrow> reachable ncpu s"
  unfolding reachable_def by (blast intro: run_schedule_steps)

section \<open>Bounds\<close>

text \<open>An analysis whose wait was ended by its context has one that ended.\<close>

definition errs_ended :: "server \<Rightarrow> bool" where
  "errs_ended s \<longleftrightarrow> (\<forall>t \<in> set (sv_threads s). th_pc t \<in> {QErr True, QErr False, Unwind} \<longrightarrow> th_ctx t \<noteq> None)"

lemma thread_step_errs:
  assumes "(cs', p') \<in> set (thread_step cs t a)" and "p' \<in> {QErr True, QErr False, Unwind}"
  shows "th_ctx t \<noteq> None \<or> th_pc t \<in> {QErr True, QErr False, Unwind}"
  using assms by (cases a; cases "th_pc t") (auto simp: step_defs split: if_splits option.splits)

lemma errs_ended_update:
  assumes "errs_ended s" and "th_pc t \<in> {QErr True, QErr False, Unwind} \<Longrightarrow> th_ctx t \<noteq> None"
    and "sv_threads s' = (sv_threads s)[i := t]"
  shows "errs_ended s'"
  using assms(1,2) unfolding errs_ended_def assms(3) by (auto dest!: set_update_subset_insert [THEN subsetD])

lemma errs_ended_step:
  assumes "server_step s s'" and ok: "errs_ended s"
  shows "errs_ended s'"
  using assms(1)
proof cases
  case (own i cs p a)
  then have "sv_threads s ! i \<in> set (sv_threads s)" by simp
  with ok thread_step_errs [OF own(3)] show ?thesis
    unfolding own(1) by (intro errs_ended_update [OF ok]) (auto simp: errs_ended_def)
next
  case (ctx i e)
  then show ?thesis by (intro errs_ended_update [OF ok]) auto
next
  case (over i)
  then have "sv_threads s ! i \<in> set (sv_threads s)" by simp
  with ok show ?thesis unfolding over(1) by (intro errs_ended_update [OF ok]) (auto simp: errs_ended_def)
qed

lemma reachable_errs_ended: "reachable ncpu s \<Longrightarrow> errs_ended s"
  unfolding reachable_def
proof (elim exE)
  fix n
  assume "server_step\<^sup>*\<^sup>* (start_server ncpu n) s"
  then show "errs_ended s"
  proof (induction rule: rtranclp_induct)
    case base
    show ?case by (simp add: errs_ended_def start_server_def new_thread_def)
  qed (rule errs_ended_step)
qed

text \<open>
  Property C33. In every reachable state at most as many analyses hold a slot as there are CPUs, at most one holds the CRL
  memory gate, at most two are queued for it, and at most CPUs plus two hold a slot or a place in the queue. An analysis
  that was let in and holds neither gave its slot up for a wait that its ended context cut short: all it can still do is
  end, at once and touching no channel. How many do so at one time is not bounded.
\<close>

lemma gate_bounds:
  assumes "reachable ncpu s"
  shows "cnt has_slot (pcs s) \<le> ncpu \<and> cnt has_gate (pcs s) \<le> 1 \<and> cnt has_place (pcs s) \<le> 2
       \<and> cnt (\<lambda>p. has_slot p \<or> has_place p) (pcs s) \<le> ncpu + 2
       \<and> (\<forall>t \<in> set (sv_threads s). th_pc t = Idle \<or> th_pc t = WaitSlot \<or> (\<exists>e. th_pc t = Ended e)
            \<or> has_slot (th_pc t) \<or> has_place (th_pc t)
            \<or> (\<exists>e. th_ctx t = Some e \<and> thread_step (sv_chans s) t Finish = [(sv_chans s, Ended (Some e))]
                 \<and> (\<forall>a. a \<noteq> Finish \<longrightarrow> thread_step (sv_chans s) t a = [])))"
proof -
  have "cnt (\<lambda>p. has_slot p \<or> has_place p) (pcs s) \<le> cnt has_slot (pcs s) + cnt has_place (pcs s)"
    by (rule cnt_disj)
  moreover have "th_pc t = Idle \<or> th_pc t = WaitSlot \<or> (\<exists>e. th_pc t = Ended e) \<or> has_slot (th_pc t) \<or> has_place (th_pc t)
      \<or> th_pc t = Unwind" for t :: thread
    by (cases "th_pc t") (auto simp: owner_defs)
  moreover have "\<exists>e. th_ctx t = Some e \<and> thread_step cs t Finish = [(cs, Ended (Some e))] \<and> (\<forall>a. a \<noteq> Finish \<longrightarrow> thread_step cs t a = [])"
    if "th_pc t = Unwind" "t \<in> set (sv_threads s)" for t cs
  proof -
    from that reachable_errs_ended [OF assms] obtain e where "th_ctx t = Some e" by (auto simp: errs_ended_def)
    moreover have "thread_step cs t a = []" if "a \<noteq> Finish" for a using that \<open>th_pc t = Unwind\<close> by (cases a) simp_all
    ultimately show ?thesis using that(1) by (simp add: guard_release_def)
  qed
  ultimately show ?thesis
    using reachable_ok [OF assms] by (fastforce simp: server_ok_def owned_def bigCRLQueue_def)
qed

text \<open>Four analyses on two CPUs: the first holds the gate, two are queued, the last took a freed slot.\<close>

definition busy_schedule :: "(nat \<times> action \<times> nat) list" where
  "busy_schedule = [(0, Enter, 0), (1, Enter, 0), (2, Enter, 0), (3, Enter, 0), (0, Advance, 0), (1, Advance, 0),
     (0, Acquire bigCRLSize, 0), (1, Acquire bigCRLSize, 0), (1, Advance, 0), (1, Advance, 0), (2, Advance, 0),
     (2, Acquire bigCRLSize, 0), (2, Advance, 0), (2, Advance, 0), (3, Advance, 0)]"

definition busy_server :: server where
  "busy_server = the (run_schedule busy_schedule (start_server 2 4))"

lemma replicate_4: "replicate 4 x = [x, x, x, x]"
  by (simp add: eval_nat_numeral)

lemma busy_schedule_runs: "run_schedule busy_schedule (start_server 2 4)
  = Some \<lparr>sv_chans = \<lparr>slots = \<lparr>chan_cap = 2, chan_len = 2\<rparr>, bigCRL = \<lparr>chan_cap = 1, chan_len = 1\<rparr>,
      crlQueue = \<lparr>chan_cap = 2, chan_len = 2\<rparr>\<rparr>,
      sv_threads = map (\<lambda>p. \<lparr>th_pc = p, th_ctx = None, th_over = False\<rparr>) [Hold, QWait, QWait, Run]\<rparr>"
  by (simp add: busy_schedule_def start_server_def make_chans_def make_chan_def new_thread_def
      bigCRLQueue_def step_defs chan_send_def chan_recv_def numeral_2_eq_2 numeral_3_eq_3 replicate_4)

lemma busy_reachable: "reachable 2 busy_server"
  by (rule schedule_reachable [of busy_schedule _ 4]) (simp add: busy_server_def busy_schedule_runs)

lemma gate_bounds_witness: "cnt (\<lambda>p. has_slot p \<or> has_place p) (pcs busy_server) = 4
    \<and> cnt (\<lambda>p. has_slot p \<or> has_place p) (pcs busy_server) \<le> 2 + 2"
  using gate_bounds [OF busy_reachable]
  by (simp add: busy_server_def busy_schedule_runs owner_defs)

section \<open>Progress\<close>

text \<open>\<open>can s i\<close>: thread \<open>i\<close> has a step of its own, other than to begin something new.\<close>

definition can :: "server \<Rightarrow> nat \<Rightarrow> bool" where
  "can s i \<longleftrightarrow> (\<exists>a \<in> {Advance, Release, Finish}. thread_step (sv_chans s) (sv_threads s ! i) a \<noteq> [])"

lemma owner_len:
  assumes "owned P n c (pcs s)" and "i < length (sv_threads s)" and "P (th_pc (sv_threads s ! i))"
  shows "0 < chan_len c"
  using assms cnt_pos [of P "pcs s"] by (auto simp: owned_def)

lemma len_owner:
  assumes "owned P n c (pcs s)" and "0 < chan_len c"
  obtains i where "i < length (sv_threads s)" and "P (th_pc (sv_threads s ! i))"
  using assms cnt_pos [of P "pcs s"] by (auto simp: owned_def)

lemma can_advance:
  "thread_step (sv_chans s) t Advance \<noteq> [] \<Longrightarrow> t = sv_threads s ! i \<Longrightarrow> can s i"
  by (auto simp: can_def)

lemma ready_Nil: "ready op get upd cs p = [] \<longleftrightarrow> op (get cs) = None"
  by (simp add: ready_def split: option.split)

lemma recv_ready: "chan_recv c = None \<longleftrightarrow> chan_len c = 0"
  by (simp add: chan_recv_def)

lemma or_default_Nil: "or_default xs ys = [] \<longleftrightarrow> xs = [] \<and> ys = []"
  by (simp add: or_default_def)

lemmas ready_simps = ready_Nil recv_ready or_default_Nil when_done_def guardAnalysis_def guard_release_def

text \<open>What was taken is given back without waiting, and who holds the gate never waits for a slot.\<close>

lemma giving_back_can:
  assumes "server_ok ncpu s" and i: "i < length (sv_threads s)"
    and "th_pc (sv_threads s ! i) \<in> {Run, Enq, GiveSlot, QGate, QBack, QHold, QErr True, QErr False, Hold, Unwind}"
  shows "can s i"
proof -
  let ?p = "th_pc (sv_threads s ! i)" and ?c = "sv_chans s"
  have o: "has_slot ?p \<Longrightarrow> 0 < chan_len (slots ?c)" "has_gate ?p \<Longrightarrow> 0 < chan_len (bigCRL ?c)"
    "has_place ?p \<Longrightarrow> 0 < chan_len (crlQueue ?c)"
    using assms(1) i by (auto simp: server_ok_def intro: owner_len)
  from assms(3) consider "?p = Hold" | "?p \<in> {Run, Unwind}"
    | "?p \<in> {Enq, GiveSlot, QGate, QBack, QHold, QErr True, QErr False}" by blast
  then show ?thesis
  proof cases
    case 1
    with o have "thread_step ?c (sv_threads s ! i) Release \<noteq> []" by (simp add: ready_simps has_gate_def)
    then show ?thesis unfolding can_def by blast
  next
    case 2
    with o have "thread_step ?c (sv_threads s ! i) Finish \<noteq> []" by (auto simp: ready_simps has_slot_def)
    then show ?thesis unfolding can_def by blast
  next
    case 3
    with o have "thread_step ?c (sv_threads s ! i) Advance \<noteq> []" by (auto simp: ready_simps owner_defs)
    then show ?thesis unfolding can_def by blast
  qed
qed

lemma waits_for_gate:
  assumes "server_ok ncpu s" and "i < length (sv_threads s)"
    and "th_pc (sv_threads s ! i) \<in> {QWait, SWait, QSWait}"
  shows "\<exists>j < length (sv_threads s). can s j"
proof (cases "chan_send (bigCRL (sv_chans s))")
  case None
  from assms(1) have g: "owned has_gate 1 (bigCRL (sv_chans s)) (pcs s)" by (simp add: server_ok_def)
  with None have "0 < chan_len (bigCRL (sv_chans s))" by (simp add: owned_def sem.acquire_refused)
  from len_owner [OF g this] obtain j where "j < length (sv_threads s)" "has_gate (th_pc (sv_threads s ! j))" .
  with giving_back_can [OF assms(1), of j] show ?thesis by (auto simp: has_gate_def)
next
  case (Some c)
  with assms(3) have "thread_step (sv_chans s) (sv_threads s ! i) Advance \<noteq> []" by (auto simp: ready_simps)
  with assms(2) show ?thesis unfolding can_def by blast
qed

text \<open>
  Property C34. The server never deadlocks: while any analysis has been let in or waits to be, some
  analysis can take a step of its own, without any context ending or timer firing.
\<close>

lemma some_analysis_can_move:
  assumes "reachable ncpu s" and "0 < ncpu" and "i < length (sv_threads s)"
    and "th_pc (sv_threads s ! i) \<noteq> Idle" and "\<nexists>e. th_pc (sv_threads s ! i) = Ended e"
  shows "\<exists>j < length (sv_threads s). can s j"
proof -
  have ok: "server_ok ncpu s" by (rule reachable_ok) (rule assms(1))
  have holder: "\<exists>j < length (sv_threads s). can s j"
    if "j < length (sv_threads s)" "has_slot (th_pc (sv_threads s ! j))" for j
    using that giving_back_can [OF ok, of j] waits_for_gate [OF ok, of j] by (auto simp: has_slot_def)
  have for_slot: "\<exists>j < length (sv_threads s). can s j" if "th_pc (sv_threads s ! i) \<in> {WaitSlot, QSlot}"
  proof (cases "chan_send (slots (sv_chans s))")
    case None
    from ok have g: "owned has_slot ncpu (slots (sv_chans s)) (pcs s)" by (simp add: server_ok_def)
    with None assms(2) have "0 < chan_len (slots (sv_chans s))" by (simp add: owned_def sem.acquire_refused)
    from len_owner [OF g this] holder show ?thesis by blast
  next
    case (Some c)
    with that have "thread_step (sv_chans s) (sv_threads s ! i) Advance \<noteq> []" by (auto simp: ready_simps)
    with assms(3) show ?thesis unfolding can_def by blast
  qed
  from assms(4,5) consider
      "th_pc (sv_threads s ! i) \<in> {Run, Enq, GiveSlot, QGate, QBack, QHold, QErr True, QErr False, Hold, Unwind}"
    | "th_pc (sv_threads s ! i) \<in> {QWait, SWait, QSWait}" | "th_pc (sv_threads s ! i) \<in> {WaitSlot, QSlot}"
    by (cases "th_pc (sv_threads s ! i)") auto
  then show ?thesis
    using giving_back_can [OF ok assms(3)] waits_for_gate [OF ok assms(3)] for_slot assms(3) by cases auto
qed

lemma some_analysis_can_move_witness: "\<exists>j < length (sv_threads busy_server). can busy_server j"
  using some_analysis_can_move [OF busy_reachable, of 1]
  by (simp add: busy_server_def busy_schedule_runs)

text \<open>
  Whoever holds the CRL memory gate is never blocked: in every reachable state the
  holder has a step of its own, so the gate is never kept by an analysis that waits for a slot.
\<close>

lemma gate_holder_never_waits:
  assumes "reachable ncpu s" and "i < length (sv_threads s)" and "has_gate (th_pc (sv_threads s ! i))"
  shows "can s i"
  by (rule giving_back_can [OF reachable_ok [OF assms(1)] assms(2)]) (use assms(3) in \<open>auto simp: has_gate_def\<close>)

lemma gate_holder_never_waits_witness: "can busy_server 0"
  using gate_holder_never_waits [OF busy_reachable, of 0]
  by (simp add: busy_server_def busy_schedule_runs has_gate_def)

section \<open>What was taken is given back\<close>

text \<open>
  When no analysis is left under way, every slot, the gate and the queue are free
  again, however the analyses ended: returned, refused, cancelled at any of their waits.
\<close>

lemma everything_given_back:
  assumes "reachable ncpu s" and "\<And>t. t \<in> set (sv_threads s) \<Longrightarrow> th_pc t = Idle \<or> th_pc t = WaitSlot \<or> (\<exists>e. th_pc t = Ended e)"
  shows "sv_chans s = make_chans ncpu"
proof -
  have "cnt P (pcs s) = 0" if "\<not> P Idle" "\<not> P WaitSlot" "\<And>e. \<not> P (Ended e)" for P
    using assms(2) that by (fastforce simp: cnt_def filter_empty_conv)
  then have "cnt has_slot (pcs s) = 0" "cnt has_gate (pcs s) = 0" "cnt has_place (pcs s) = 0"
    by (simp_all add: owner_defs)
  with reachable_ok [OF assms(1)] show ?thesis
    by (auto simp: server_ok_def owned_def make_chans_def make_chan_def
        intro!: chans.equality chan.equality)
qed

definition given_up :: server where
  "given_up = \<lparr>sv_chans = make_chans 1, sv_threads = [\<lparr>th_pc = Ended None, th_ctx = None, th_over = False\<rparr>]\<rparr>"

lemma everything_given_back_witness: "sv_chans given_up = make_chans 1"
proof (rule everything_given_back)
  have "run_schedule [(0, Enter, 0), (0, Advance, 0), (0, Acquire bigCRLSize, 0), (0, Release, 0), (0, Finish, 0)]
      (start_server 1 1) = Some given_up"
    by (simp add: start_server_def given_up_def make_chans_def make_chan_def new_thread_def
        step_defs chan_send_def chan_recv_def)
  then show "reachable 1 given_up" by (rule schedule_reachable)
qed (simp add: given_up_def)

section \<open>Length of an acquisition\<close>

text \<open>The operations still ahead of a thread inside \<open>acquireCRLMemory\<close>.\<close>

fun ahead :: "pc \<Rightarrow> nat" where
  "ahead Enq = 8"
| "ahead GiveSlot = 7"
| "ahead QWait = 6"
| "ahead QGate = 5"
| "ahead QBack = 4"
| "ahead QSlot = 3"
| "ahead QSWait = 2"
| "ahead QHold = 1"
| "ahead (QErr _) = 1"
| "ahead SWait = 1"
| "ahead _ = 0"

lemma acquire_next_ahead:
  "(cs', p') \<in> set (acquire_next cs ctx p) \<Longrightarrow> ahead p' < ahead p"
  by (cases p) (auto simp: step_defs split: if_splits option.splits)

text \<open>The program points one thread passes through, with any steps of others in between.\<close>

inductive acquiring :: "pc list \<Rightarrow> bool" where
  acq_one: "acquiring [p]"
| acq_more: "acquiring (q # ps) \<Longrightarrow> (cs', q) \<in> set (acquire_next cs ctx p) \<Longrightarrow> acquiring (p # q # ps)"

lemma acquiring_short: "acquiring ps \<Longrightarrow> length ps \<le> Suc (ahead (hd ps))"
  by (induction rule: acquiring.induct) (auto dest: acquire_next_ahead)

text \<open>
  From the queue of large CRLs an acquisition ends after at most eight operations of
  its own, whatever the other analyses do between them: it never cycles between gate and slot.
\<close>

lemma acquisition_ends:
  assumes "acquiring (Enq # ps)"
  shows "length ps \<le> 8"
  using acquiring_short [OF assms] by simp

lemma acquisition_ends_witness: "length [GiveSlot, QWait] \<le> 8"
proof (rule acquisition_ends)
  define cs where "cs = \<lparr>slots = \<lparr>chan_cap = 1, chan_len = 1\<rparr>, bigCRL = make_chan 1, crlQueue = make_chan 2\<rparr>"
  show "acquiring [Enq, GiveSlot, QWait]"
    by (rule acq_more [where cs = cs and ctx = None] acq_one
       | simp add: cs_def step_defs chan_send_def chan_recv_def make_chan_def)+
qed

section \<open>Transfers and requests\<close>

text \<open>
  A transfer is refused only if it is big, and then only while both places are taken
  or its client or the thirty seconds are gone; giving its place back twice frees one place.
\<close>

lemma big_transfer_exact:
  "((sem', Inr t) \<in> set (acquireBig sem ctx over n) \<longleftrightarrow>
      (if 0 \<le> n \<and> n \<le> bigTransferSize then sem' = sem \<and> t = Free
       else chan_send sem = Some sem' \<and> t = Held True))
   \<and> ((sem', Inl e) \<in> set (acquireBig sem ctx over n) \<longleftrightarrow>
      sem' = sem \<and> (n < 0 \<or> bigTransferSize < n) \<and> (ctx = Some e \<or> (ctx = None \<and> over \<and> e = ErrBusy)))
   \<and> (release_big sem t = Some (sem', t') \<longrightarrow> release_big sem' t' = Some (sem', t'))"
  by (cases "(sem, t)" rule: release_big.cases; cases ctx)
     (auto simp: acquireBig_def wait_error_def split: option.splits)

text \<open>Requests arriving (\<open>True\<close>) and handlers returning.\<close>

definition pending_run :: "bool list \<Rightarrow> chan" where
  "pending_run as = foldl (\<lambda>c a. if a then fst (admit c) else case chan_recv c of None \<Rightarrow> c | Some d \<Rightarrow> d)
     (make_chan maxPending) as"

text \<open>
  However requests come and go, never more than 64 are inside; one more is answered
  503 at once, and one is let in whenever fewer than 64 are inside.
\<close>

lemma pending_bounded:
  "chan_len (pending_run as) \<le> 64
   \<and> (snd (admit (pending_run as)) = Inl (503, ''server busy, try again later'') \<longleftrightarrow> chan_len (pending_run as) = 64)
   \<and> (snd (admit (pending_run as)) = Inr () \<longleftrightarrow> chan_len (pending_run as) < 64)"
proof -
  have f: "(\<lambda>c a. if a then fst (admit c) else case chan_recv c of None \<Rightarrow> c | Some d \<Rightarrow> d)
      = (\<lambda>c a. case (if a then chan_send c else chan_recv c) of None \<Rightarrow> c | Some d \<Rightarrow> d)"
    by (intro ext) (simp add: admit_def split: option.split)
  have r: "chan_len (pending_run as) \<le> 64 \<and> chan_cap (pending_run as) = 64"
    using sem.run_within [of "make_chan maxPending" as]
    by (simp add: pending_run_def f make_chan_def maxPending_def)
  then show ?thesis
    by (cases "chan_len (pending_run as) = 64") (auto simp: admit_def chan_send_def)
qed

end
