(* ===== verification/RespCache.thy ===== *)
theory RespCache
  imports Gate
begin

text \<open>
  The cache of computed responses (cmd/certview/respcache.go). Entries are shared by reference: an
  entry a caller holds stays usable after \<open>purge\<close> or \<open>cleanupLoop\<close> dropped it from the map. So the
  cache is a map from keys to references and a heap of entries that only grows. \<open>get\<close> is a thread
  whose steps are its critical section, its \<open>select\<close>, the look at the entry and the end of
  \<open>compute\<close>; what \<open>compute\<close> returns is given with the step.
\<close>

section \<open>The cache\<close>

definition respCacheMax :: nat where "respCacheMax = 64"

record 'v entry =
  e_gate :: chan
  e_resp :: "'v option"
  e_expires :: gotime

record ('k, 'v) cache =
  c_entries :: "('k \<times> nat) list"
  c_heap :: "'v entry list"
  c_ttl :: gotime

definition newRespCache :: "gotime \<Rightarrow> ('k, 'v) cache" where
  "newRespCache ttl = \<lparr>c_entries = [], c_heap = [], c_ttl = ttl\<rparr>"

definition new_entry :: "'v entry" where
  "new_entry = \<lparr>e_gate = make_chan 1, e_resp = None, e_expires = zero_time\<rparr>"

text \<open>The critical section of \<open>get\<close>: the entry of the key, a new one, or none because the cache is full.\<close>

definition get_lookup :: "'k \<Rightarrow> ('k, 'v) cache \<Rightarrow> ('k, 'v) cache \<times> nat option" where
  "get_lookup k c =
     (case map_of (c_entries c) k of
        Some r \<Rightarrow> (c, Some r)
      | None \<Rightarrow>
          if length (c_entries c) \<ge> respCacheMax then (c, None)
          else (c\<lparr>c_entries := (k, length (c_heap c)) # c_entries c, c_heap := c_heap c @ [new_entry]\<rparr>,
                Some (length (c_heap c))))"

datatype 'v outcome = Resp 'v bool | Failed goerr

datatype 'v gpc = GNew | GWait nat | GCheck nat | GCompute nat | GAlone | GDone "'v outcome"

datatype 'v gaction = Lookup | TakeGate | CtxDone goerr | Check gotime | Computed "goerr + 'v" gotime

definition put_entry :: "nat \<Rightarrow> 'v entry \<Rightarrow> ('k, 'v) cache \<Rightarrow> ('k, 'v) cache" where
  "put_entry r e c = c\<lparr>c_heap := (c_heap c)[r := e]\<rparr>"

text \<open>The deferred \<open><-e.gate\<close> of every return after the gate was taken.\<close>

definition leave_gate :: "nat \<Rightarrow> 'v entry \<Rightarrow> ('k, 'v) cache \<Rightarrow> 'v gpc \<Rightarrow> (('k, 'v) cache \<times> 'v gpc) option" where
  "leave_gate r e c p = map_option (\<lambda>g. (put_entry r (e\<lparr>e_gate := g\<rparr>) c, p)) (chan_recv (e_gate e))"

fun get_step :: "'k \<Rightarrow> 'v gpc \<Rightarrow> 'v gaction \<Rightarrow> ('k, 'v) cache \<Rightarrow> (('k, 'v) cache \<times> 'v gpc) option" where
  "get_step k GNew Lookup c =
     (case get_lookup k c of (c', Some r) \<Rightarrow> Some (c', GWait r) | (c', None) \<Rightarrow> Some (c', GAlone))"
| "get_step k (GWait r) TakeGate c =
     map_option (\<lambda>g. (put_entry r ((c_heap c ! r)\<lparr>e_gate := g\<rparr>) c, GCheck r)) (chan_send (e_gate (c_heap c ! r)))"
| "get_step k (GWait r) (CtxDone e) c = Some (c, GDone (Failed e))"
| "get_step k (GCheck r) (Check now) c =
     (case e_resp (c_heap c ! r) of
        Some v \<Rightarrow> if now < e_expires (c_heap c ! r) then leave_gate r (c_heap c ! r) c (GDone (Resp v True)) else Some (c, GCompute r)
      | None \<Rightarrow> Some (c, GCompute r))"
| "get_step k (GCompute r) (Computed (Inl e) now) c = leave_gate r (c_heap c ! r) c (GDone (Failed e))"
| "get_step k (GCompute r) (Computed (Inr v) now) c =
     leave_gate r ((c_heap c ! r)\<lparr>e_resp := Some v, e_expires := now + c_ttl c\<rparr>) c (GDone (Resp v False))"
| "get_step k GAlone (Computed (Inl e) now) c = Some (c, GDone (Failed e))"
| "get_step k GAlone (Computed (Inr v) now) c = Some (c, GDone (Resp v False))"
| "get_step k p a c = None"

definition purge :: "('k, 'v) cache \<Rightarrow> ('k, 'v) cache" where
  "purge c = c\<lparr>c_entries := []\<rparr>"

text \<open>
  One round of \<open>cleanupLoop\<close> for one key: the entry goes when its gate is free and it expired, a new
  entry included, whose expiry is the zero time. \<open>clean_all\<close> is the whole round.
\<close>

definition clean_key :: "gotime \<Rightarrow> 'k \<Rightarrow> ('k, 'v) cache \<Rightarrow> ('k, 'v) cache" where
  "clean_key now k c =
     (case map_of (c_entries c) k of
        None \<Rightarrow> c
      | Some r \<Rightarrow>
          if chan_send (e_gate (c_heap c ! r)) \<noteq> None \<and> \<not> now < e_expires (c_heap c ! r)
          then c\<lparr>c_entries := filter (\<lambda>(k', _). k' \<noteq> k) (c_entries c)\<rparr> else c)"

definition clean_all :: "gotime \<Rightarrow> ('k, 'v) cache \<Rightarrow> ('k, 'v) cache" where
  "clean_all now c = fold (clean_key now) (map fst (c_entries c)) c"

section \<open>Callers\<close>

text \<open>
  The system of all callers of one cache. Besides the code's state it keeps the clock, and a
  history the code does not have: how many purges there were, in which of these epochs a caller
  looked its entry up (\<open>ca_epoch\<close>) or began to compute (\<open>ca_begun\<close>), and for which key and in which
  epoch each entry was made.
\<close>

record ('k, 'v) caller =
  ca_key :: 'k
  ca_pc :: "'v gpc"
  ca_epoch :: nat
  ca_begun :: nat

record ('k, 'v) csys =
  cs_cache :: "('k, 'v) cache"
  cs_callers :: "('k, 'v) caller list"
  cs_now :: gotime
  cs_epoch :: nat
  cs_made :: "('k \<times> nat) list"

definition caller_after :: "nat \<Rightarrow> 'v gpc \<Rightarrow> ('k, 'v) caller \<Rightarrow> ('k, 'v) caller" where
  "caller_after ep p t =
     t\<lparr>ca_pc := p, ca_epoch := (if ca_pc t = GNew then ep else ca_epoch t),
       ca_begun := (case p of GCompute _ \<Rightarrow> ep | GAlone \<Rightarrow> ep | _ \<Rightarrow> ca_begun t)\<rparr>"

definition new_made :: "nat \<Rightarrow> 'k \<Rightarrow> ('k, 'v) cache \<Rightarrow> ('k \<times> nat) list" where
  "new_made ep k c = (if map_of (c_entries c) k = None \<and> length (c_entries c) < respCacheMax then [(k, ep)] else [])"

text \<open>
  \<open>origin k n t v\<close>: computing \<open>k\<close>, begun in epoch \<open>n\<close>, may return \<open>v\<close> at time \<open>t\<close>. The clock readings of
  a caller are the clock's; a cleanup round may use an earlier one.
\<close>

fun timely :: "('k \<Rightarrow> nat \<Rightarrow> gotime \<Rightarrow> 'v \<Rightarrow> bool) \<Rightarrow> gotime \<Rightarrow> ('k, 'v) caller \<Rightarrow> 'v gaction \<Rightarrow> bool" where
  "timely origin now t (Check n) = (n = now)"
| "timely origin now t (Computed (Inr v) n) = (n = now \<and> origin (ca_key t) (ca_begun t) now v)"
| "timely origin now t a = True"

inductive cache_step :: "('k \<Rightarrow> nat \<Rightarrow> gotime \<Rightarrow> 'v \<Rightarrow> bool) \<Rightarrow> ('k, 'v) csys \<Rightarrow> ('k, 'v) csys \<Rightarrow> bool"
  for origin where
  call: "cache_step origin s
     (s\<lparr>cs_callers := cs_callers s @ [\<lparr>ca_key = k, ca_pc = GNew, ca_epoch = 0, ca_begun = 0\<rparr>]\<rparr>)"
| own: "\<lbrakk>i < length (cs_callers s); t = cs_callers s ! i; timely origin (cs_now s) t a;
     get_step (ca_key t) (ca_pc t) a (cs_cache s) = Some (c, p);
     made = (if ca_pc t = GNew then new_made (cs_epoch s) (ca_key t) (cs_cache s) else [])\<rbrakk>
   \<Longrightarrow> cache_step origin s (s\<lparr>cs_cache := c, cs_callers := (cs_callers s)[i := caller_after (cs_epoch s) p t],
        cs_made := cs_made s @ made\<rparr>)"
| purge: "cache_step origin s (s\<lparr>cs_cache := purge (cs_cache s), cs_epoch := Suc (cs_epoch s)\<rparr>)"
| clean: "now \<le> cs_now s \<Longrightarrow> cache_step origin s (s\<lparr>cs_cache := clean_key now k (cs_cache s)\<rparr>)"
| time: "cs_now s \<le> now \<Longrightarrow> cache_step origin s (s\<lparr>cs_now := now\<rparr>)"

definition start_cache :: "gotime \<Rightarrow> gotime \<Rightarrow> ('k, 'v) csys" where
  "start_cache ttl now = \<lparr>cs_cache = newRespCache ttl, cs_callers = [], cs_now = now, cs_epoch = 0, cs_made = []\<rparr>"

end
