(* ===== verification/RespCache_Laws.thy ===== *)
theory RespCache_Laws
  imports RespCache Gate_Laws
begin

text \<open>
  What callers of the response cache can rely on: the map stays bounded, an entry is computed by
  one caller at a time, and a response served from the cache was computed for the same key, is
  within its time to live and was not computed before a purge the caller's lookup follows.
\<close>

section \<open>The steps of get\<close>

lemma check_cases:
  assumes "get_step k (GCheck r) a c = Some (c', p')"
  shows "(c' = c \<and> p' = GCompute r)
    \<or> (\<exists>v now g. a = Check now \<and> e_resp (c_heap c ! r) = Some v \<and> now < e_expires (c_heap c ! r)
        \<and> chan_recv (e_gate (c_heap c ! r)) = Some g \<and> p' = GDone (Resp v True)
        \<and> c' = put_entry r ((c_heap c ! r)\<lparr>e_gate := g\<rparr>) c)"
proof -
  from assms obtain now where "a = Check now" by (cases a) auto
  with assms show ?thesis by (auto simp: leave_gate_def split: option.splits if_splits)
qed

lemma compute_cases:
  assumes "get_step k (GCompute r) a c = Some (c', p')"
  shows "(\<exists>e g. chan_recv (e_gate (c_heap c ! r)) = Some g \<and> p' = GDone (Failed e)
        \<and> c' = put_entry r ((c_heap c ! r)\<lparr>e_gate := g\<rparr>) c)
    \<or> (\<exists>v now g. a = Computed (Inr v) now \<and> chan_recv (e_gate (c_heap c ! r)) = Some g \<and> p' = GDone (Resp v False)
        \<and> c' = put_entry r ((c_heap c ! r)\<lparr>e_resp := Some v, e_expires := now + c_ttl c, e_gate := g\<rparr>) c)"
proof -
  from assms obtain x now where a: "a = Computed x now" by (cases a) auto
  with assms show ?thesis by (cases x) (auto simp: leave_gate_def)
qed

lemma get_step_cases:
  assumes "get_step k p a c = Some (c', p')"
  obtains
    (found) r where "p = GNew" "map_of (c_entries c) k = Some r" "c' = c" "p' = GWait r"
  | (made) "p = GNew" "map_of (c_entries c) k = None" "length (c_entries c) < respCacheMax"
      "c' = c\<lparr>c_entries := (k, length (c_heap c)) # c_entries c, c_heap := c_heap c @ [new_entry]\<rparr>"
      "p' = GWait (length (c_heap c))"
  | (full) "p = GNew" "map_of (c_entries c) k = None" "respCacheMax \<le> length (c_entries c)" "c' = c" "p' = GAlone"
  | (take) r g where "p = GWait r" "chan_send (e_gate (c_heap c ! r)) = Some g" "p' = GCheck r"
      "c' = put_entry r ((c_heap c ! r)\<lparr>e_gate := g\<rparr>) c"
  | (cancel) r e where "p = GWait r" "c' = c" "p' = GDone (Failed e)"
  | (hit) r v now g where "p = GCheck r" "a = Check now" "e_resp (c_heap c ! r) = Some v"
      "now < e_expires (c_heap c ! r)" "chan_recv (e_gate (c_heap c ! r)) = Some g"
      "p' = GDone (Resp v True)" "c' = put_entry r ((c_heap c ! r)\<lparr>e_gate := g\<rparr>) c"
  | (miss) r where "p = GCheck r" "c' = c" "p' = GCompute r"
  | (fail) r e g where "p = GCompute r" "chan_recv (e_gate (c_heap c ! r)) = Some g"
      "p' = GDone (Failed e)" "c' = put_entry r ((c_heap c ! r)\<lparr>e_gate := g\<rparr>) c"
  | (store) r v now g where "p = GCompute r" "a = Computed (Inr v) now" "chan_recv (e_gate (c_heap c ! r)) = Some g"
      "p' = GDone (Resp v False)"
      "c' = put_entry r ((c_heap c ! r)\<lparr>e_resp := Some v, e_expires := now + c_ttl c, e_gate := g\<rparr>) c"
  | (alone_ok) v now where "p = GAlone" "a = Computed (Inr v) now" "c' = c" "p' = GDone (Resp v False)"
  | (alone_err) e where "p = GAlone" "c' = c" "p' = GDone (Failed e)"
proof (cases p)
  case GNew
  with assms have a: "a = Lookup" by (cases a) auto
  show ?thesis
  proof (cases "map_of (c_entries c) k")
    case None
    with assms GNew a show ?thesis
      by (cases "length (c_entries c) < respCacheMax") (auto simp: get_lookup_def intro: made full)
  next
    case (Some r)
    with assms GNew a show ?thesis by (auto simp: get_lookup_def intro: found)
  qed
next
  case (GWait r)
  with assms show ?thesis by (cases a) (auto intro: take cancel)
next
  case (GCheck r)
  with assms check_cases [of k r a c c' p'] show ?thesis using hit miss by metis
next
  case (GCompute r)
  with assms compute_cases [of k r a c c' p'] show ?thesis using fail store by metis
next
  case GAlone
  with assms obtain x now where a: "a = Computed x now" by (cases a) auto
  with assms GAlone show ?thesis by (cases x) (auto intro: alone_ok alone_err)
next
  case (GDone x)
  with assms show ?thesis by simp
qed

section \<open>The invariant\<close>

fun holds :: "nat \<Rightarrow> 'v gpc \<Rightarrow> bool" where
  "holds r (GCheck r') = (r' = r)"
| "holds r (GCompute r') = (r' = r)"
| "holds r _ = False"

fun refs :: "nat \<Rightarrow> 'v gpc \<Rightarrow> bool" where
  "refs r (GWait r') = (r' = r)"
| "refs r p = holds r p"

definition map_ok :: "('k, 'v) csys \<Rightarrow> bool" where
  "map_ok s \<longleftrightarrow> distinct (map fst (c_entries (cs_cache s))) \<and> length (c_entries (cs_cache s)) \<le> respCacheMax
     \<and> length (cs_made s) = length (c_heap (cs_cache s)) \<and> (\<forall>m \<in> set (cs_made s). snd m \<le> cs_epoch s)
     \<and> (\<forall>(k, r) \<in> set (c_entries (cs_cache s)). r < length (cs_made s) \<and> cs_made s ! r = (k, cs_epoch s))"

definition caller_ok :: "('k, 'v) csys \<Rightarrow> ('k, 'v) caller \<Rightarrow> bool" where
  "caller_ok s t \<longleftrightarrow> (\<forall>r. refs r (ca_pc t) \<longrightarrow>
       r < length (cs_made s) \<and> fst (cs_made s ! r) = ca_key t \<and> ca_epoch t \<le> snd (cs_made s ! r)
       \<and> (ca_pc t = GCompute r \<longrightarrow> snd (cs_made s ! r) \<le> ca_begun t))
     \<and> (ca_pc t = GAlone \<longrightarrow> ca_epoch t \<le> ca_begun t)"

definition gates_ok :: "('k, 'v) csys \<Rightarrow> bool" where
  "gates_ok s \<longleftrightarrow> (\<forall>r < length (c_heap (cs_cache s)).
     owned (holds r) 1 (e_gate (c_heap (cs_cache s) ! r)) (map ca_pc (cs_callers s)))"

definition stored_ok :: "('k \<Rightarrow> nat \<Rightarrow> gotime \<Rightarrow> 'v \<Rightarrow> bool) \<Rightarrow> ('k, 'v) csys \<Rightarrow> bool" where
  "stored_ok origin s \<longleftrightarrow> (\<forall>r < length (c_heap (cs_cache s)). \<forall>v.
     e_resp (c_heap (cs_cache s) ! r) = Some v \<longrightarrow>
       (\<exists>n t. origin (fst (cs_made s ! r)) n t v \<and> snd (cs_made s ! r) \<le> n \<and> t \<le> cs_now s
          \<and> e_expires (c_heap (cs_cache s) ! r) = t + c_ttl (cs_cache s)))"

definition cache_ok :: "('k \<Rightarrow> nat \<Rightarrow> gotime \<Rightarrow> 'v \<Rightarrow> bool) \<Rightarrow> gotime \<Rightarrow> ('k, 'v) csys \<Rightarrow> bool" where
  "cache_ok origin ttl s \<longleftrightarrow> map_ok s \<and> (\<forall>t \<in> set (cs_callers s). caller_ok s t) \<and> gates_ok s
     \<and> stored_ok origin s \<and> c_ttl (cs_cache s) = ttl"

lemma heap_length_put [simp]: "length (c_heap (put_entry r e c)) = length (c_heap c)"
  "c_entries (put_entry r e c) = c_entries c" "c_ttl (put_entry r e c) = c_ttl c"
  "c_heap (put_entry r e c) = (c_heap c)[r := e]"
  by (simp_all add: put_entry_def)

lemma holds_refs: "holds r p \<Longrightarrow> refs r p"
  by (cases p) auto

lemma caller_ok_mono:
  assumes "caller_ok s t" and "cs_made s' = cs_made s @ ms"
  shows "caller_ok s' t"
  using assms by (auto simp: caller_ok_def nth_append)

lemma get_step_ttl: "get_step k p a c = Some (c', p') \<Longrightarrow> c_ttl c' = c_ttl c"
  by (elim get_step_cases) auto

section \<open>One step of a caller, part by part\<close>

lemma own_map_ok:
  assumes "map_ok s" and "get_step k p a (cs_cache s) = Some (c, p')"
    and "made = (if p = GNew then new_made (cs_epoch s) k (cs_cache s) else [])"
  shows "map_ok (s\<lparr>cs_cache := c, cs_callers := ts, cs_made := cs_made s @ made\<rparr>)"
  using assms(2)
proof (cases rule: get_step_cases)
  case made
  with assms(1,3) show ?thesis
    by (auto simp: map_ok_def new_made_def nth_append map_of_eq_None_iff)
qed (use assms(1,3) in \<open>auto simp: map_ok_def new_made_def\<close>)

lemma own_stored_ok:
  assumes "map_ok s" and "stored_ok origin s" and "get_step (ca_key t) (ca_pc t) a (cs_cache s) = Some (c, p')"
    and "timely origin (cs_now s) t a" and "caller_ok s t"
    and "made = (if ca_pc t = GNew then new_made (cs_epoch s) (ca_key t) (cs_cache s) else [])"
  shows "stored_ok origin (s\<lparr>cs_cache := c, cs_callers := ts, cs_made := cs_made s @ made\<rparr>)"
  using assms(3)
proof (cases rule: get_step_cases)
  case made
  with assms(1,2) show ?thesis
    by (auto simp: stored_ok_def map_ok_def nth_append new_entry_def less_Suc_eq)
next
  case (store r v now g)
  with assms(1,2,4-6) show ?thesis
    by (auto simp: stored_ok_def map_ok_def caller_ok_def nth_append nth_list_update)
next
  case (take r g)
  with assms(1,2,5,6) show ?thesis
    by (auto simp: stored_ok_def map_ok_def caller_ok_def nth_append nth_list_update)
next
  case (hit r v now g)
  with assms(1,2,5,6) show ?thesis
    by (auto simp: stored_ok_def map_ok_def caller_ok_def nth_append nth_list_update)
next
  case (fail r e g)
  with assms(1,2,5,6) show ?thesis
    by (auto simp: stored_ok_def map_ok_def caller_ok_def nth_append nth_list_update)
qed (use assms(1,2,6) in \<open>auto simp: stored_ok_def map_ok_def new_made_def nth_append\<close>)

lemma own_caller_ok:
  assumes "map_ok s" and "caller_ok s t" and "get_step (ca_key t) (ca_pc t) a (cs_cache s) = Some (c, p')"
    and "made = (if ca_pc t = GNew then new_made (cs_epoch s) (ca_key t) (cs_cache s) else [])"
  shows "caller_ok (s\<lparr>cs_cache := c, cs_callers := ts, cs_made := cs_made s @ made\<rparr>) (caller_after (cs_epoch s) p' t)"
  using assms(3)
proof (cases rule: get_step_cases)
  case (found r)
  then have "(ca_key t, r) \<in> set (c_entries (cs_cache s))" by (auto dest: map_of_SomeD)
  with found assms(1,4) show ?thesis
    by (auto simp: caller_ok_def caller_after_def map_ok_def nth_append)
next
  case made
  with assms(1,4) show ?thesis
    by (auto simp: caller_ok_def caller_after_def map_ok_def new_made_def nth_append)
next
  case (miss r)
  with assms(1,2,4) show ?thesis
    by (auto simp: caller_ok_def caller_after_def map_ok_def nth_append dest: nth_mem)
qed (use assms(1,2,4) in \<open>auto simp: caller_ok_def caller_after_def nth_append\<close>)

text \<open>What a step does to the gate of one entry.\<close>

lemma nth_update_any: "j < length xs \<Longrightarrow> xs[i := x] ! j = (if i = j then x else xs ! j)"
  by (cases "i = j") auto

lemma get_step_moved:
  assumes "get_step k p a c = Some (c', p')" and "r < length (c_heap c)"
  shows "moved (holds r) (e_gate (c_heap c ! r)) p (e_gate (c_heap c' ! r)) p'"
  using assms(1)
proof (cases rule: get_step_cases)
  case made
  with assms(2) show ?thesis by (auto simp: moved_def nth_append)
qed (use assms(2) in \<open>auto simp: moved_def nth_update_any\<close>)

lemma get_step_new:
  assumes "get_step k p a c = Some (c', p')" and "r < length (c_heap c')" and "\<not> r < length (c_heap c)"
  shows "p = GNew \<and> e_gate (c_heap c' ! r) = make_chan 1 \<and> \<not> holds r p'"
  using assms(1)
proof (cases rule: get_step_cases)
  case made
  with assms(2,3) show ?thesis by (auto simp: nth_append new_entry_def less_Suc_eq)
qed (use assms(2,3) in auto)

lemma own_gates_ok:
  assumes "gates_ok s" and "\<forall>t \<in> set (cs_callers s). caller_ok s t" and "map_ok s"
    and i: "i < length (cs_callers s)" and t: "t = cs_callers s ! i"
    and g: "get_step (ca_key t) (ca_pc t) a (cs_cache s) = Some (c, p')"
  shows "gates_ok (s\<lparr>cs_cache := c, cs_callers := (cs_callers s)[i := caller_after (cs_epoch s) p' t], cs_made := ms\<rparr>)"
  unfolding gates_ok_def
proof (intro allI impI)
  fix r assume "r < length (c_heap (cs_cache (s\<lparr>cs_cache := c, cs_callers := (cs_callers s)[i := caller_after (cs_epoch s) p' t], cs_made := ms\<rparr>)))"
  then have r: "r < length (c_heap c)" by simp
  have ps: "map ca_pc ((cs_callers s)[i := caller_after (cs_epoch s) p' t]) = (map ca_pc (cs_callers s))[i := p']"
    by (simp add: map_update caller_after_def)
  have "owned (holds r) 1 (e_gate (c_heap c ! r)) ((map ca_pc (cs_callers s))[i := p'])"
  proof (cases "r < length (c_heap (cs_cache s))")
    case True
    with assms(1) i t get_step_moved [OF g True] show ?thesis
      by (intro owned_moved [where c = "e_gate (c_heap (cs_cache s) ! r)"]) (auto simp: gates_ok_def)
  next
    case False
    with get_step_new [OF g r] have n: "e_gate (c_heap c ! r) = make_chan 1" "\<not> holds r p'" by auto
    have "\<not> holds r (ca_pc u)" if "u \<in> set (cs_callers s)" for u
      using that assms(2,3) False by (auto simp: caller_ok_def map_ok_def dest: holds_refs)
    then have "cnt (holds r) (map ca_pc (cs_callers s)) = 0" by (auto simp: cnt_def filter_empty_conv)
    with cnt_update [of i "map ca_pc (cs_callers s)" "holds r" p'] i n show ?thesis
      by (auto simp: owned_def make_chan_def)
  qed
  with ps show "owned (holds r) 1 (e_gate (c_heap (cs_cache (s\<lparr>cs_cache := c, cs_callers := (cs_callers s)[i := caller_after (cs_epoch s) p' t], cs_made := ms\<rparr>)) ! r))
     (map ca_pc (cs_callers (s\<lparr>cs_cache := c, cs_callers := (cs_callers s)[i := caller_after (cs_epoch s) p' t], cs_made := ms\<rparr>)))"
    by simp
qed

lemma own_cache_ok:
  assumes ok: "cache_ok origin ttl s"
    and i: "i < length (cs_callers s)" and t: "t = cs_callers s ! i" and ti: "timely origin (cs_now s) t a"
    and g: "get_step (ca_key t) (ca_pc t) a (cs_cache s) = Some (c, p)"
    and made: "made = (if ca_pc t = GNew then new_made (cs_epoch s) (ca_key t) (cs_cache s) else [])"
  shows "cache_ok origin ttl (s\<lparr>cs_cache := c, cs_callers := (cs_callers s)[i := caller_after (cs_epoch s) p t],
    cs_made := cs_made s @ made\<rparr>)" (is "cache_ok origin ttl ?s'")
proof -
  have "\<forall>u \<in> set (cs_callers ?s'). caller_ok ?s' u"
  proof
    fix u assume "u \<in> set (cs_callers ?s')"
    then have "u = caller_after (cs_epoch s) p t \<or> u \<in> set (cs_callers s)"
      using set_update_subset_insert by fastforce
    moreover have "t \<in> set (cs_callers s)" using i t by simp
    ultimately show "caller_ok ?s' u"
      using ok own_caller_ok [OF _ _ g made] by (auto simp: cache_ok_def intro: caller_ok_mono)
  qed
  with ok i t show ?thesis
    using own_map_ok [OF _ g made] own_stored_ok [OF _ _ g ti _ made] own_gates_ok [OF _ _ _ i t g] get_step_ttl [OF g]
    by (auto simp: cache_ok_def)
qed

section \<open>The other steps\<close>

lemma clean_key_same [simp]: "c_heap (clean_key now k c) = c_heap c" "c_ttl (clean_key now k c) = c_ttl c"
  by (auto simp: clean_key_def split: option.split)

lemma clean_key_entries: "\<exists>P. c_entries (clean_key now k c) = filter P (c_entries c)"
proof (cases "clean_key now k c = c")
  case True
  then show ?thesis by (intro exI [of _ "\<lambda>_. True"]) simp
next
  case False
  then show ?thesis by (intro exI [of _ "\<lambda>(k', _). k' \<noteq> k"]) (auto simp: clean_key_def split: option.splits if_splits)
qed

lemma cache_ok_step:
  assumes "cache_ok origin ttl s" and "cache_step origin s s'"
  shows "cache_ok origin ttl s'"
  using assms(2)
proof cases
  case (call k)
  with assms(1) show ?thesis
    by (auto simp: cache_ok_def map_ok_def caller_ok_def gates_ok_def stored_ok_def owned_def)
next
  case (own i t a c p made)
  show ?thesis unfolding own(1) by (rule own_cache_ok [OF assms(1) own(2-6)])
next
  case purge
  with assms(1) show ?thesis
    by (auto simp: cache_ok_def map_ok_def caller_ok_def gates_ok_def stored_ok_def purge_def intro: le_SucI)
next
  case (clean now k)
  obtain P where P: "c_entries (clean_key now k (cs_cache s)) = filter P (c_entries (cs_cache s))"
    using clean_key_entries [of now k "cs_cache s"] by (elim exE)
  with clean assms(1) P show ?thesis
    by (auto simp: cache_ok_def map_ok_def caller_ok_def gates_ok_def stored_ok_def distinct_map_filter
        intro: le_trans [OF length_filter_le])
next
  case (time now)
  with assms(1) show ?thesis
    by (fastforce simp: cache_ok_def map_ok_def caller_ok_def gates_ok_def stored_ok_def)
qed

lemma cache_ok_start: "cache_ok origin ttl (start_cache ttl now)"
  by (simp add: cache_ok_def map_ok_def gates_ok_def stored_ok_def start_cache_def newRespCache_def)

interpretation cached: transition_system "\<lambda>s. \<exists>now. s = start_cache ttl now" "cache_step origin"
  "cache_ok origin ttl" for ttl origin
  by unfold_locales (auto intro: cache_ok_start cache_ok_step)

definition cache_reachable :: "('k \<Rightarrow> nat \<Rightarrow> gotime \<Rightarrow> 'v \<Rightarrow> bool) \<Rightarrow> gotime \<Rightarrow> ('k, 'v) csys \<Rightarrow> bool" where
  "cache_reachable origin ttl s \<longleftrightarrow> (\<exists>now. (cache_step origin)\<^sup>*\<^sup>* (start_cache ttl now) s)"

lemma cache_reachable_ok: "cache_reachable origin ttl s \<Longrightarrow> cache_ok origin ttl s"
  unfolding cache_reachable_def by (auto intro: cached.inv_reachable)

section \<open>Running a schedule\<close>

datatype ('k, 'v) cache_event = Call 'k | Own nat "'v gaction" | Purge | Clean gotime 'k | Tick gotime

fun exec_event :: "('k \<Rightarrow> nat \<Rightarrow> gotime \<Rightarrow> 'v \<Rightarrow> bool) \<Rightarrow> ('k, 'v) cache_event \<Rightarrow> ('k, 'v) csys \<Rightarrow> ('k, 'v) csys option" where
  "exec_event origin (Call k) s =
     Some (s\<lparr>cs_callers := cs_callers s @ [\<lparr>ca_key = k, ca_pc = GNew, ca_epoch = 0, ca_begun = 0\<rparr>]\<rparr>)"
| "exec_event origin (Own i a) s =
     (if i < length (cs_callers s) \<and> timely origin (cs_now s) (cs_callers s ! i) a
      then map_option (\<lambda>(c, p). s\<lparr>cs_cache := c, cs_callers := (cs_callers s)[i := caller_after (cs_epoch s) p (cs_callers s ! i)],
             cs_made := cs_made s @ (if ca_pc (cs_callers s ! i) = GNew
               then new_made (cs_epoch s) (ca_key (cs_callers s ! i)) (cs_cache s) else [])\<rparr>)
             (get_step (ca_key (cs_callers s ! i)) (ca_pc (cs_callers s ! i)) a (cs_cache s))
      else None)"
| "exec_event origin Purge s = Some (s\<lparr>cs_cache := purge (cs_cache s), cs_epoch := Suc (cs_epoch s)\<rparr>)"
| "exec_event origin (Clean now k) s =
     (if now \<le> cs_now s then Some (s\<lparr>cs_cache := clean_key now k (cs_cache s)\<rparr>) else None)"
| "exec_event origin (Tick now) s = (if cs_now s \<le> now then Some (s\<lparr>cs_now := now\<rparr>) else None)"

fun exec_events :: "('k \<Rightarrow> nat \<Rightarrow> gotime \<Rightarrow> 'v \<Rightarrow> bool) \<Rightarrow> ('k, 'v) cache_event list \<Rightarrow> ('k, 'v) csys \<Rightarrow> ('k, 'v) csys option" where
  "exec_events origin [] s = Some s"
| "exec_events origin (e # es) s = Option.bind (exec_event origin e s) (exec_events origin es)"

lemma exec_event_step: "exec_event origin e s = Some s' \<Longrightarrow> cache_step origin s s'"
proof (cases e)
  case (Own i a)
  assume "exec_event origin e s = Some s'"
  with Own obtain c p where i: "i < length (cs_callers s)" "timely origin (cs_now s) (cs_callers s ! i) a"
      "get_step (ca_key (cs_callers s ! i)) (ca_pc (cs_callers s ! i)) a (cs_cache s) = Some (c, p)"
    and s': "s' = s\<lparr>cs_cache := c, cs_callers := (cs_callers s)[i := caller_after (cs_epoch s) p (cs_callers s ! i)],
        cs_made := cs_made s @ (if ca_pc (cs_callers s ! i) = GNew
          then new_made (cs_epoch s) (ca_key (cs_callers s ! i)) (cs_cache s) else [])\<rparr>"
    by (auto simp del: fun_upd_apply split: if_split_asm)
  show ?thesis unfolding s' by (rule cache_step.own [OF i(1) refl i(2,3) refl])
qed (auto split: if_splits intro: cache_step.intros)

lemma exec_events_reachable:
  "cache_reachable origin ttl s \<Longrightarrow> exec_events origin es s = Some s' \<Longrightarrow> cache_reachable origin ttl s'"
proof (induction es arbitrary: s)
  case (Cons e es)
  then obtain s1 where e: "exec_event origin e s = Some s1" and es: "exec_events origin es s1 = Some s'"
    by (auto simp: bind_eq_Some_conv)
  from e Cons.prems(1) have "cache_reachable origin ttl s1"
    unfolding cache_reachable_def by (blast intro: rtranclp.rtrancl_into_rtrancl exec_event_step)
  then show ?case using Cons.IH es by blast
qed simp

lemma exec_start_reachable:
  "exec_events origin es (start_cache ttl now) = Some s \<Longrightarrow> cache_reachable origin ttl s"
  by (rule exec_events_reachable) (auto simp: cache_reachable_def)

lemmas exec_defs = start_cache_def newRespCache_def get_lookup_def leave_gate_def put_entry_def new_entry_def
  make_chan_def chan_send_def chan_recv_def caller_after_def new_made_def purge_def clean_key_def respCacheMax_def

section \<open>What callers rely on\<close>

text \<open>
  However calls, purges and cleanup rounds interleave, the cache never maps more than
  64 keys, and no key twice.
\<close>

lemma cache_bounded:
  assumes "cache_reachable origin ttl s"
  shows "length (c_entries (cs_cache s)) \<le> 64 \<and> distinct (map fst (c_entries (cs_cache s)))"
  using cache_reachable_ok [OF assms] by (simp add: cache_ok_def map_ok_def respCacheMax_def)

text \<open>
  Of the callers that share an entry at most one looks at it or computes it; its gate
  is taken exactly while one does, so it is never left locked.
\<close>

lemma one_computation_per_entry:
  assumes "cache_reachable origin ttl s" and "r < length (c_heap (cs_cache s))"
  shows "cnt (holds r) (map ca_pc (cs_callers s)) \<le> 1
       \<and> (chan_send (e_gate (c_heap (cs_cache s) ! r)) \<noteq> None \<longleftrightarrow> (\<forall>t \<in> set (cs_callers s). \<not> holds r (ca_pc t)))"
proof -
  have o: "owned (holds r) 1 (e_gate (c_heap (cs_cache s) ! r)) (map ca_pc (cs_callers s))"
    using cache_reachable_ok [OF assms(1)] assms(2) by (simp add: cache_ok_def gates_ok_def)
  moreover have "cnt (holds r) (map ca_pc (cs_callers s)) = 0 \<longleftrightarrow> (\<forall>t \<in> set (cs_callers s). \<not> holds r (ca_pc t))"
    by (auto simp: cnt_def filter_empty_conv)
  ultimately show ?thesis by (auto simp: owned_def chan_send_def)
qed

text \<open>
  What a caller is given was computed for its key, begun no earlier than the last
  purge before its lookup; when it comes from the cache it is within its time to live.
\<close>

lemma response_is_current:
  assumes r: "cache_reachable origin ttl s" and i: "i < length (cs_callers s)" and t: "t = cs_callers s ! i"
    and ti: "timely origin (cs_now s) t a"
    and g: "get_step (ca_key t) (ca_pc t) a (cs_cache s) = Some (c, GDone (Resp v served))"
  shows "\<exists>n t0. origin (ca_key t) n t0 v \<and> ca_epoch t \<le> n \<and> t0 \<le> cs_now s
       \<and> (served \<longrightarrow> cs_now s < t0 + ttl)"
proof -
  have ok: "cache_ok origin ttl s" by (rule cache_reachable_ok [OF r])
  then have c: "caller_ok s t" and st: "stored_ok origin s" and m: "length (cs_made s) = length (c_heap (cs_cache s))"
    and tt: "c_ttl (cs_cache s) = ttl"
    using i t by (auto simp: cache_ok_def map_ok_def)
  from g show ?thesis
  proof (cases rule: get_step_cases)
    case (hit r w now g')
    then have r: "r < length (c_heap (cs_cache s))" and k: "fst (cs_made s ! r) = ca_key t" "ca_epoch t \<le> snd (cs_made s ! r)"
      using c m by (auto simp: caller_ok_def)
    obtain n t0 where "origin (ca_key t) n t0 v" "snd (cs_made s ! r) \<le> n" "t0 \<le> cs_now s"
      "e_expires (c_heap (cs_cache s) ! r) = t0 + ttl"
      using st r k(1) hit tt unfolding stored_ok_def by fastforce
    with hit k(2) ti show ?thesis by (intro exI [of _ n] exI [of _ t0]) auto
  next
    case (store r w now g')
    with c ti show ?thesis by (intro exI [of _ "ca_begun t"] exI [of _ "cs_now s"]) (auto simp: caller_ok_def)
  next
    case (alone_ok w now)
    with c ti show ?thesis by (intro exI [of _ "ca_begun t"] exI [of _ "cs_now s"]) (auto simp: caller_ok_def)
  qed simp_all
qed

section \<open>A run\<close>

text \<open>
  A computation names its key, its epoch and its time. The first caller of the key computes and
  stores; a second one looks the entry up, has the gate, and sees the response nine seconds later.
\<close>

definition sample_origin :: "nat \<Rightarrow> nat \<Rightarrow> gotime \<Rightarrow> nat \<times> nat \<times> gotime \<Rightarrow> bool" where
  "sample_origin k n t v \<longleftrightarrow> v = (k, n, t)"

definition sample_events :: "(nat, nat \<times> nat \<times> gotime) cache_event list" where
  "sample_events = [Call 7, Own 0 Lookup, Own 0 TakeGate, Own 0 (Check 5), Own 0 (Computed (Inr (7, 0, 5)) 5),
     Call 7, Tick 14, Own 1 Lookup, Own 1 TakeGate]"

definition sample_cache :: "(nat, nat \<times> nat \<times> gotime) csys" where
  "sample_cache = \<lparr>cs_cache = \<lparr>c_entries = [(7, 0)], c_heap = [\<lparr>e_gate = \<lparr>chan_cap = 1, chan_len = 1\<rparr>,
         e_resp = Some (7, 0, 5), e_expires = 15\<rparr>], c_ttl = 10\<rparr>,
     cs_callers = [\<lparr>ca_key = 7, ca_pc = GDone (Resp (7, 0, 5) False), ca_epoch = 0, ca_begun = 0\<rparr>,
       \<lparr>ca_key = 7, ca_pc = GCheck 0, ca_epoch = 0, ca_begun = 0\<rparr>],
     cs_now = 14, cs_epoch = 0, cs_made = [(7, 0)]\<rparr>"

lemma sample_cache_reachable: "cache_reachable sample_origin 10 sample_cache"
  by (rule exec_start_reachable [of _ sample_events _ 5])
     (simp add: sample_events_def sample_cache_def sample_origin_def exec_defs)

lemma cache_bounded_witness: "length (c_entries (cs_cache sample_cache)) \<le> 64"
  using cache_bounded [OF sample_cache_reachable] by simp

lemma one_computation_per_entry_witness:
  "cnt (holds 0) (map ca_pc (cs_callers sample_cache)) = 1 \<and> cnt (holds 0) (map ca_pc (cs_callers sample_cache)) \<le> 1"
  using one_computation_per_entry [OF sample_cache_reachable, of 0] by (simp add: sample_cache_def)

lemma response_is_current_witness:
  "\<exists>n t0. sample_origin 7 n t0 (7, 0, 5) \<and> t0 \<le> 14 \<and> 14 < t0 + 10"
  using response_is_current [OF sample_cache_reachable, of 1 "cs_callers sample_cache ! 1" "Check 14" _ "(7, 0, 5)" True]
  by (auto simp: sample_cache_def leave_gate_def chan_recv_def)

text \<open>
  Property C35. Parallel callers of one key do not always share one computation: a cleanup round
  between a caller's lookup and its taking of the gate drops the new entry, whose expiry is still
  the zero time, and the next caller makes another; then two callers compute the same key at once,
  with no purge and with a cache that is not full.
\<close>

lemma cleanup_splits_callers:
  "\<exists>s. cache_reachable origin ttl s \<and> cs_epoch s = 0 \<and> length (cs_callers s) = 2
     \<and> map ca_key (cs_callers s) = [k, k] \<and> map ca_pc (cs_callers s) = [GCompute 0, GCompute 1]"
proof -
  have "\<exists>s. exec_events origin [Call k, Own 0 Lookup, Clean 0 k, Own 0 TakeGate, Own 0 (Check 0),
      Call k, Own 1 Lookup, Own 1 TakeGate, Own 1 (Check 0)] (start_cache ttl 0) = Some s
      \<and> cs_epoch s = 0 \<and> length (cs_callers s) = 2
      \<and> map ca_key (cs_callers s) = [k, k] \<and> map ca_pc (cs_callers s) = [GCompute 0, GCompute 1]"
    by (simp add: exec_defs zero_time_def of_unix_def nsec_def)
  then show ?thesis by (elim exE conjE) (intro exI conjI; (assumption | rule exec_start_reachable))
qed

end
