(* ===== verification/Flight.thy ===== *)
theory Flight
  imports Gate_Laws
begin

text \<open>
  Shared downloads (\<open>fetchFlight\<close> of cmd/certview/guard.go, \<open>urlEndpoint\<close> of handler.go). A call is
  shared by reference between the callers that wait for it and the goroutine that downloads, so
  calls live in a heap and the map holds references. \<open>do\<close> is split into its steps: its critical
  section (\<open>do_enter\<close>), the two ends of its wait (\<open>do_done\<close>, \<open>do_leave\<close>), and the goroutine's two
  parts, the return of \<open>fetch\<close> (\<open>fetch_returns\<close>) and its critical section (\<open>finish_call\<close>).
\<close>

section \<open>State\<close>

type_synonym fetched = "bytes \<times> string \<times> goerr option"

text \<open>\<open>Returned\<close> carries the result and \<open>abandoned\<close>, computed before the lock is taken.\<close>

datatype progress = Running | Returned fetched bool | Completed fetched

record call =
  k_key :: string
  k_endpoint :: string
  k_timed :: bool
  k_waiters :: int
  k_ctx :: "goerr option"
  k_progress :: progress

record failure =
  fl_err :: goerr
  fl_until :: gotime

record flight =
  f_calls :: "(string \<times> nat) list"
  f_heap :: "call list"
  f_failed :: "(string \<times> failure) list"
  f_failTTL :: gotime
  f_swept :: gotime

definition new_flight :: "gotime \<Rightarrow> flight" where
  "new_flight ttl = \<lparr>f_calls = [], f_heap = [], f_failed = [], f_failTTL = ttl, f_swept = zero_time\<rparr>"

text \<open>Assignment to a key of a map, and \<open>delete\<close>.\<close>

definition map_del :: "string \<Rightarrow> (string \<times> 'a) list \<Rightarrow> (string \<times> 'a) list" where
  "map_del k m = filter (\<lambda>(k', _). k' \<noteq> k) m"

definition map_put :: "string \<Rightarrow> 'a \<Rightarrow> (string \<times> 'a) list \<Rightarrow> (string \<times> 'a) list" where
  "map_put k x m = (k, x) # map_del k m"

definition hostKey :: "string \<Rightarrow> string" where
  "hostKey endpoint = ''endpoint '' @ endpoint"

section \<open>Endpoints\<close>

text \<open>The parts of a parsed URL, or \<open>None\<close> when \<open>net/url\<close> refuses it.\<close>

record neturl =
  u_scheme :: string
  u_hostname :: string
  u_port :: string

definition join_host_port :: "string \<Rightarrow> string \<Rightarrow> string" where
  "join_host_port h p =
     (if CHR '':'' \<in> set h then ''['' @ h @ '']:'' @ p else h @ '':'' @ p)"

definition urlEndpoint :: "string \<Rightarrow> neturl option \<Rightarrow> string" where
  "urlEndpoint rawURL parsed =
     (case parsed of
        None \<Rightarrow> rawURL
      | Some u \<Rightarrow>
          let scheme = to_lower (u_scheme u);
              port = (if u_port u \<noteq> '''' then u_port u
                else if scheme = ''http'' then ''80'' else if scheme = ''https'' then ''443'' else '''')
          in scheme @ ''://'' @ join_host_port (to_lower (u_hostname u)) port)"

text \<open>\<open>strings.SplitN(endpoint, "://", 2)[1]\<close>, which panics when there is no such part.\<close>

definition after_scheme :: "string \<Rightarrow> string option" where
  "after_scheme e = map_option (\<lambda>i. drop (i + 3) e) (index_of ''://'' e)"

definition as_unreachable :: "goerr \<Rightarrow> string option" where
  "as_unreachable e =
     (case List.map_filter (\<lambda>x. case x of UnreachableError a _ \<Rightarrow> Some a | _ \<Rightarrow> None) (err_chain e) of
        [] \<Rightarrow> None | a # _ \<Rightarrow> Some a)"

section \<open>do\<close>

text \<open>The loop over the two keys, each with the clock reading of its turn.\<close>

fun check_failed :: "flight \<Rightarrow> (string \<times> gotime) list \<Rightarrow> flight \<times> goerr option" where
  "check_failed f [] = (f, None)"
| "check_failed f ((k, now) # ks) =
     (case map_of (f_failed f) k of
        None \<Rightarrow> check_failed f ks
      | Some fl \<Rightarrow>
          if now < fl_until fl then (f, Some (RecentFailure (f_failTTL f) (fl_err fl)))
          else check_failed (f\<lparr>f_failed := map_del k (f_failed f)\<rparr>) ks)"

definition new_call :: "fetch_kind \<Rightarrow> string \<Rightarrow> string \<Rightarrow> call" where
  "new_call kind key endpoint =
     \<lparr>k_key = key, k_endpoint = endpoint, k_timed = (fk_timeout kind > 0), k_waiters = 0,
      k_ctx = None, k_progress = Running\<rparr>"

definition add_waiter :: "nat \<Rightarrow> flight \<Rightarrow> flight" where
  "add_waiter r f = f\<lparr>f_heap := (f_heap f)[r := (f_heap f ! r)\<lparr>k_waiters := k_waiters (f_heap f ! r) + 1\<rparr>]\<rparr>"

text \<open>Up to the \<open>select\<close>: an error for the caller, or the call it waits for.\<close>

definition do_enter :: "flight \<Rightarrow> goerr option \<Rightarrow> fetch_kind \<Rightarrow> string \<Rightarrow> string \<Rightarrow> gotime \<Rightarrow> gotime \<Rightarrow> 32 word option
    \<Rightarrow> flight \<times> 32 word option \<times> (goerr + nat)" where
  "do_enter f ctx kind key endpoint now1 now2 budget =
     (case ctx of Some e \<Rightarrow> (f, budget, Inl e)
      | None \<Rightarrow>
        (case check_failed f [(key, now1), (hostKey endpoint, now2)] of
           (f1, Some e) \<Rightarrow> (f1, budget, Inl e)
         | (f1, None) \<Rightarrow>
           (case spendFetch budget of
              (b, Some e) \<Rightarrow> (f1, b, Inl e)
            | (b, None) \<Rightarrow>
              (case map_of (f_calls f1) key of
                 Some r \<Rightarrow> (add_waiter r f1, b, Inr r)
               | None \<Rightarrow>
                   let r = length (f_heap f1);
                       f2 = f1\<lparr>f_heap := f_heap f1 @ [new_call kind key endpoint], f_calls := map_put key r (f_calls f1)\<rparr>
                   in (add_waiter r f2, b, Inr r)))))"

definition do_done :: "flight \<Rightarrow> nat \<Rightarrow> fetched option" where
  "do_done f r = (case k_progress (f_heap f ! r) of Completed x \<Rightarrow> Some x | _ \<Rightarrow> None)"

text \<open>\<open>c.cancel()\<close>: the first error of a context stays.\<close>

definition cancel_call :: "call \<Rightarrow> call" where
  "cancel_call c = (if k_ctx c = None then c\<lparr>k_ctx := Some Canceled\<rparr> else c)"

definition forget_call :: "nat \<Rightarrow> string \<Rightarrow> flight \<Rightarrow> flight" where
  "forget_call r key f = (if map_of (f_calls f) key = Some r then f\<lparr>f_calls := map_del key (f_calls f)\<rparr> else f)"

definition put_call :: "nat \<Rightarrow> call \<Rightarrow> flight \<Rightarrow> flight" where
  "put_call r c f = f\<lparr>f_heap := (f_heap f)[r := c]\<rparr>"

definition do_leave :: "flight \<Rightarrow> nat \<Rightarrow> flight" where
  "do_leave f r =
     (let c = (f_heap f ! r)\<lparr>k_waiters := k_waiters (f_heap f ! r) - 1\<rparr> in
      if k_waiters c = 0 then forget_call r (k_key c) (put_call r (cancel_call c) f)
      else put_call r c f)"

section \<open>The goroutine\<close>

definition fetch_returns :: "flight \<Rightarrow> nat \<Rightarrow> fetched \<Rightarrow> flight option" where
  "fetch_returns f r x =
     (let c = f_heap f ! r in
      if k_progress c = Running
      then Some (put_call r (cancel_call (c\<lparr>k_progress := Returned x (k_ctx c = Some Canceled)\<rparr>)) f)
      else None)"

definition sweep :: "gotime \<Rightarrow> flight \<Rightarrow> flight" where
  "sweep now f =
     (if length (f_failed f) \<ge> 4096 \<and> now - f_swept f > 10 * nsec
      then f\<lparr>f_swept := now, f_failed := filter (\<lambda>(_, fl). \<not> fl_until fl < now) (f_failed f)\<rparr>
      else f)"

definition add_failure :: "string \<Rightarrow> goerr \<Rightarrow> gotime \<Rightarrow> flight \<Rightarrow> flight" where
  "add_failure k e now f =
     f\<lparr>f_failed := map_put k \<lparr>fl_err = e, fl_until = now + f_failTTL f\<rparr> (f_failed f)\<rparr>"

text \<open>\<open>None\<close> is the panic of an endpoint with no \<open>://\<close> whose download could not connect.\<close>

definition record_failure :: "string \<Rightarrow> string \<Rightarrow> goerr \<Rightarrow> gotime \<Rightarrow> flight \<Rightarrow> flight option" where
  "record_failure key endpoint e now f =
     (let f1 = add_failure key e now (sweep now f) in
      case as_unreachable e of
        None \<Rightarrow> Some f1
      | Some a \<Rightarrow>
          (case after_scheme endpoint of
             None \<Rightarrow> None
           | Some h \<Rightarrow> Some (if equal_fold h a then add_failure (hostKey endpoint) e now f1 else f1)))"

definition finish_call :: "flight \<Rightarrow> nat \<Rightarrow> gotime \<Rightarrow> flight option" where
  "finish_call f r now =
     (let c = f_heap f ! r in
      case k_progress c of
        Returned (data, ct, err) abandoned \<Rightarrow>
          let f1 = forget_call r (k_key c) f;
              f2 = (case err of
                 Some e \<Rightarrow> if \<not> abandoned \<and> f_failTTL f > 0 then record_failure (k_key c) (k_endpoint c) e now f1 else Some f1
               | None \<Rightarrow> Some f1)
          in map_option (put_call r (c\<lparr>k_progress := Completed (data, ct, err)\<rparr>)) f2
      | _ \<Rightarrow> None)"

section \<open>All callers\<close>

datatype dpc = DNew | DWait nat | DEnd "goerr + fetched"

record fsys =
  fs_flight :: flight
  fs_pcs :: "dpc list"

text \<open>
  A caller comes, its wait ends either way, a download's own deadline passes, its \<open>fetch\<close> returns
  whatever it returns, its goroutine finishes. A download that would panic has no last step.
\<close>

inductive flight_step :: "fsys \<Rightarrow> fsys \<Rightarrow> bool" where
  enter: "\<lbrakk>do_enter (fs_flight s) ctx kind key endpoint now1 now2 b = (f, b', x);
      p = (case x of Inl e \<Rightarrow> DEnd (Inl e) | Inr r \<Rightarrow> DWait r)\<rbrakk>
    \<Longrightarrow> flight_step s \<lparr>fs_flight = f, fs_pcs = fs_pcs s @ [p]\<rparr>"
| got: "\<lbrakk>i < length (fs_pcs s); fs_pcs s ! i = DWait r; do_done (fs_flight s) r = Some x\<rbrakk>
    \<Longrightarrow> flight_step s (s\<lparr>fs_pcs := (fs_pcs s)[i := DEnd (Inr x)]\<rparr>)"
| leave: "\<lbrakk>i < length (fs_pcs s); fs_pcs s ! i = DWait r\<rbrakk>
    \<Longrightarrow> flight_step s \<lparr>fs_flight = do_leave (fs_flight s) r, fs_pcs = (fs_pcs s)[i := DEnd (Inl e)]\<rparr>"
| deadline: "\<lbrakk>r < length (f_heap (fs_flight s)); k_timed (f_heap (fs_flight s) ! r); k_ctx (f_heap (fs_flight s) ! r) = None\<rbrakk>
    \<Longrightarrow> flight_step s (s\<lparr>fs_flight := put_call r ((f_heap (fs_flight s) ! r)\<lparr>k_ctx := Some DeadlineExceeded\<rparr>) (fs_flight s)\<rparr>)"
| returns: "\<lbrakk>r < length (f_heap (fs_flight s)); fetch_returns (fs_flight s) r x = Some f\<rbrakk>
    \<Longrightarrow> flight_step s (s\<lparr>fs_flight := f\<rparr>)"
| finish: "\<lbrakk>r < length (f_heap (fs_flight s)); finish_call (fs_flight s) r now = Some f\<rbrakk>
    \<Longrightarrow> flight_step s (s\<lparr>fs_flight := f\<rparr>)"

definition start_flight :: "gotime \<Rightarrow> fsys" where
  "start_flight ttl = \<lparr>fs_flight = new_flight ttl, fs_pcs = []\<rparr>"

end
