(* ===== verification/Flight_Laws.thy ===== *)
theory Flight_Laws
  imports Flight
begin

text \<open>
  What sharing downloads promises: one live download per key, a count of waiters that is exact, a
  download cancelled exactly when nobody waits for it, and failures remembered for the time to live
  under the key and, for a failure to connect, under the endpoint.
\<close>

section \<open>Maps\<close>

lemma map_of_del: "map_of (map_del k m) j = (if j = k then None else map_of m j)"
  unfolding map_del_def by (induction m) auto

lemma map_of_put: "map_of (map_put k x m) j = (if j = k then Some x else map_of m j)"
  by (simp add: map_put_def map_of_del)

section \<open>The invariant\<close>

fun waits :: "nat \<Rightarrow> dpc \<Rightarrow> bool" where
  "waits r (DWait r') = (r' = r)"
| "waits r _ = False"

fun completed :: "progress \<Rightarrow> bool" where
  "completed (Completed _) = True"
| "completed _ = False"

text \<open>A call is live while it is in the map: not finished, and somebody waits for it.\<close>

definition live :: "call \<Rightarrow> bool" where
  "live c \<longleftrightarrow> \<not> completed (k_progress c) \<and> 0 < k_waiters c"

definition calls_ok :: "flight \<Rightarrow> bool" where
  "calls_ok f \<longleftrightarrow> (\<forall>k r. map_of (f_calls f) k = Some r
     \<longleftrightarrow> r < length (f_heap f) \<and> k_key (f_heap f ! r) = k \<and> live (f_heap f ! r))"

definition ctx_ok :: "call \<Rightarrow> bool" where
  "ctx_ok c \<longleftrightarrow> (k_progress c = Running \<longrightarrow>
     (0 < k_waiters c \<longrightarrow> k_ctx c \<noteq> Some Canceled) \<and> (k_waiters c \<le> 0 \<longrightarrow> k_ctx c \<noteq> None))"

definition waiters_ok :: "flight \<Rightarrow> dpc list \<Rightarrow> bool" where
  "waiters_ok f ps \<longleftrightarrow>
     (\<forall>r < length (f_heap f). \<not> completed (k_progress (f_heap f ! r)) \<longrightarrow> k_waiters (f_heap f ! r) = int (cnt (waits r) ps))
   \<and> (\<forall>r. DWait r \<in> set ps \<longrightarrow> r < length (f_heap f))"

definition flight_ok :: "fsys \<Rightarrow> bool" where
  "flight_ok s \<longleftrightarrow> calls_ok (fs_flight s) \<and> (\<forall>c \<in> set (f_heap (fs_flight s)). ctx_ok c)
     \<and> waiters_ok (fs_flight s) (fs_pcs s)"

lemmas flight_defs = calls_ok_def waiters_ok_def ctx_ok_def live_def

lemma check_failed_same:
  "check_failed f ks = (f', e) \<Longrightarrow> f_calls f' = f_calls f \<and> f_heap f' = f_heap f \<and> f_failTTL f' = f_failTTL f"
  by (induction f ks rule: check_failed.induct) (auto split: option.splits if_splits)

text \<open>\<open>do_enter\<close> refuses and leaves the calls alone, joins a live call, or makes a new one.\<close>

lemma do_enter_cases:
  assumes "do_enter f ctx kind key ep n1 n2 b = (f', b', x)"
  obtains (refuse) e where "x = Inl e" "f_calls f' = f_calls f" "f_heap f' = f_heap f"
  | (join) r where "x = Inr r" "map_of (f_calls f) key = Some r" "f_calls f' = f_calls f"
      "f_heap f' = (f_heap f)[r := (f_heap f ! r)\<lparr>k_waiters := k_waiters (f_heap f ! r) + 1\<rparr>]"
  | (new) "x = Inr (length (f_heap f))" "map_of (f_calls f) key = None"
      "f_calls f' = map_put key (length (f_heap f)) (f_calls f)"
      "f_heap f' = f_heap f @ [(new_call kind key ep)\<lparr>k_waiters := 1\<rparr>]"
proof -
  obtain f1 e1 where c: "check_failed f [(key, n1), (hostKey ep, n2)] = (f1, e1)" by fastforce
  obtain b1 e2 where sp: "spendFetch b = (b1, e2)" by fastforce
  note same = check_failed_same [OF c]
  show ?thesis
  proof (cases "ctx = None \<and> e1 = None \<and> e2 = None")
    case False
    with assms c sp same show ?thesis
      by (intro refuse [of "projl x"]) (auto simp: do_enter_def split: option.splits)
  next
    case True
    show ?thesis
    proof (cases "map_of (f_calls f) key")
      case None
      with True assms c sp same show ?thesis
        by (intro new) (auto simp: do_enter_def Let_def add_waiter_def new_call_def)
    next
      case (Some r)
      with True assms c sp same show ?thesis
        by (intro join [of r]) (auto simp: do_enter_def add_waiter_def)
    qed
  qed
qed

section \<open>Each step keeps it\<close>

lemma calls_ok_cong: "f_calls f = f_calls g \<Longrightarrow> f_heap f = f_heap g \<Longrightarrow> calls_ok f = calls_ok g"
  by (simp add: calls_ok_def)

lemma put_call_simps [simp]: "f_heap (put_call r c f) = (f_heap f)[r := c]" "f_calls (put_call r c f) = f_calls f"
  "f_failed (put_call r c f) = f_failed f" "f_failTTL (put_call r c f) = f_failTTL f"
  by (simp_all add: put_call_def)

lemma forget_call_simps [simp]: "f_heap (forget_call r k f) = f_heap f" "f_failed (forget_call r k f) = f_failed f"
  "f_failTTL (forget_call r k f) = f_failTTL f"
  by (simp_all add: forget_call_def)

lemma map_of_forget:
  "map_of (f_calls (forget_call r k f)) j = (if j = k \<and> map_of (f_calls f) k = Some r then None else map_of (f_calls f) j)"
  by (simp add: forget_call_def map_of_del)

lemma live_mapped: "calls_ok f \<Longrightarrow> r < length (f_heap f) \<Longrightarrow> live (f_heap f ! r)
   \<Longrightarrow> map_of (f_calls f) (k_key (f_heap f ! r)) = Some r"
  by (simp add: calls_ok_def)

lemma live_unique: "calls_ok f \<Longrightarrow> r < length (f_heap f) \<Longrightarrow> live (f_heap f ! r)
   \<Longrightarrow> r' < length (f_heap f) \<Longrightarrow> live (f_heap f ! r') \<Longrightarrow> k_key (f_heap f ! r) = k_key (f_heap f ! r') \<Longrightarrow> r = r'"
  by (metis live_mapped option.inject)

lemma calls_ok_put:
  assumes "calls_ok f" and "r < length (f_heap f)" and "k_key c = k_key (f_heap f ! r)" and "live c = live (f_heap f ! r)"
  shows "calls_ok (put_call r c f)"
  using assms by (auto simp: calls_ok_def nth_list_update)

lemma calls_ok_dead:
  assumes "calls_ok f" and "r < length (f_heap f)" and "k_key c = k_key (f_heap f ! r)" and "\<not> live c"
  shows "calls_ok (put_call r c (forget_call r (k_key c) f))"
proof -
  let ?g = "put_call r c (forget_call r (k_key c) f)"
  have "map_of (f_calls ?g) k = Some r' \<longleftrightarrow> map_of (f_calls f) k = Some r' \<and> r' \<noteq> r" for k r'
  proof (cases "r' = r")
    case True
    with assms(1,3) show ?thesis by (auto simp: map_of_forget calls_ok_def)
  next
    case False
    then show ?thesis by (auto simp: map_of_forget)
  qed
  with assms show ?thesis by (auto simp: calls_ok_def nth_list_update)
qed

lemma cancel_call_simps [simp]: "k_key (cancel_call c) = k_key c" "k_waiters (cancel_call c) = k_waiters c"
  "k_progress (cancel_call c) = k_progress c" "k_ctx (cancel_call c) \<noteq> None" "live (cancel_call c) = live c"
  by (auto simp: cancel_call_def live_def)

lemma waits_new: "waiters_ok f ps \<Longrightarrow> cnt (waits (length (f_heap f))) ps = 0"
proof -
  assume "waiters_ok f ps"
  moreover have "waits r p \<Longrightarrow> p = DWait r" for r p by (cases p) auto
  ultimately show ?thesis by (fastforce simp: waiters_ok_def cnt_def filter_empty_conv)
qed

lemma enter_ok:
  assumes "flight_ok s" and "do_enter (fs_flight s) ctx kind key ep n1 n2 b = (f, b', x)"
  shows "flight_ok \<lparr>fs_flight = f, fs_pcs = fs_pcs s @ [case x of Inl e \<Rightarrow> DEnd (Inl e) | Inr r \<Rightarrow> DWait r]\<rparr>"
  using assms(2)
proof (cases rule: do_enter_cases)
  case (refuse e)
  with assms(1) show ?thesis
    by (auto simp: flight_ok_def waiters_ok_def calls_ok_def)
next
  case (join r)
  with assms(1) have r: "r < length (f_heap (fs_flight s))" "live (f_heap (fs_flight s) ! r)"
    by (auto simp: flight_ok_def calls_ok_def)
  with join assms(1) show ?thesis
    by (auto simp: flight_ok_def waiters_ok_def calls_ok_def nth_list_update ctx_ok_def live_def
        dest!: set_update_subset_insert [THEN subsetD])
next
  case new
  have none: "\<not> live (f_heap (fs_flight s) ! r)"
    if "r < length (f_heap (fs_flight s))" "k_key (f_heap (fs_flight s) ! r) = key" for r
    using that new(2) assms(1) live_mapped [of "fs_flight s" r] by (auto simp: flight_ok_def)
  have n: "live ((new_call kind key ep)\<lparr>k_waiters := 1\<rparr>)" "k_key (new_call kind key ep) = key"
    "ctx_ok ((new_call kind key ep)\<lparr>k_waiters := 1\<rparr>)"
    by (simp_all add: live_def new_call_def ctx_ok_def)
  have "calls_ok f"
    using new n none assms(1) by (auto simp: flight_ok_def calls_ok_def nth_append map_of_put less_Suc_eq)
  moreover have "waiters_ok f (fs_pcs s @ [DWait (length (f_heap (fs_flight s)))])"
    using new assms(1) waits_new [of "fs_flight s" "fs_pcs s"]
    by (auto simp: flight_ok_def waiters_ok_def nth_append less_Suc_eq new_call_def)
  ultimately show ?thesis using new n assms(1) by (auto simp: flight_ok_def)
qed

lemma waits_iff: "waits r p \<longleftrightarrow> p = DWait r"
  by (cases p) auto

lemma cnt_stop_waiting:
  assumes "i < length ps" and "ps ! i = DWait r"
  shows "int (cnt (waits r') (ps[i := DEnd x])) = int (cnt (waits r') ps) - (if r' = r then 1 else 0)"
  using cnt_update [OF assms(1), of "waits r'" "DEnd x"] assms(2) by auto

lemma leave_ok:
  assumes "flight_ok s" and i: "i < length (fs_pcs s)" and p: "fs_pcs s ! i = DWait r"
  shows "flight_ok \<lparr>fs_flight = do_leave (fs_flight s) r, fs_pcs = (fs_pcs s)[i := DEnd x]\<rparr>"
proof -
  let ?f = "fs_flight s" let ?c = "f_heap (fs_flight s) ! r"
  let ?w = "?c\<lparr>k_waiters := k_waiters ?c - 1\<rparr>"
  define c where "c = (if k_waiters ?w = 0 then cancel_call ?w else ?w)"
  from p i have "DWait r \<in> set (fs_pcs s)" by (metis nth_mem)
  with assms(1) have r: "r < length (f_heap ?f)" by (auto simp: flight_ok_def waiters_ok_def)
  have pos: "0 < cnt (waits r) (fs_pcs s)" using i p by (auto simp: cnt_pos)
  have w: "k_waiters ?c = int (cnt (waits r) (fs_pcs s))" if "\<not> completed (k_progress ?c)"
    using assms(1) r that by (auto simp: flight_ok_def waiters_ok_def)
  have heap: "f_heap (do_leave ?f r) = (f_heap ?f)[r := c]"
    by (simp add: do_leave_def Let_def c_def)
  have "calls_ok (do_leave ?f r)"
  proof (cases "k_waiters ?w = 0")
    case True
    have "calls_ok (put_call r c (forget_call r (k_key c) ?f))"
      using assms(1) r True by (intro calls_ok_dead) (auto simp: flight_ok_def c_def live_def)
    with True show ?thesis
      by (subst calls_ok_cong [of _ "put_call r c (forget_call r (k_key c) ?f)"])
         (simp_all add: do_leave_def Let_def c_def forget_call_def)
  next
    case False
    then have "live c = live ?c" using w pos by (auto simp: c_def live_def)
    with False assms(1) r have "calls_ok (put_call r c ?f)"
      by (intro calls_ok_put) (auto simp: flight_ok_def c_def)
    with False show ?thesis by (simp add: do_leave_def Let_def c_def)
  qed
  moreover have "ctx_ok c"
    using assms(1) r w pos by (auto simp: c_def ctx_ok_def flight_ok_def cancel_call_def dest: nth_mem)
  moreover have "waiters_ok (do_leave ?f r) ((fs_pcs s)[i := DEnd x])"
    using assms(1) r w cnt_stop_waiting [OF i p] unfolding waiters_ok_def heap
    by (auto simp: flight_ok_def waiters_ok_def nth_list_update c_def
        dest!: set_update_subset_insert [THEN subsetD])
  ultimately show ?thesis
    using assms(1) unfolding flight_ok_def
    by (auto simp: heap dest!: set_update_subset_insert [THEN subsetD])
qed

text \<open>A step of a download, not of a caller: one call changes, its count of waiters does not.\<close>

lemma put_ok:
  assumes "flight_ok s" and "r < length (f_heap (fs_flight s))"
    and "k_key c = k_key (f_heap (fs_flight s) ! r)" and "k_waiters c = k_waiters (f_heap (fs_flight s) ! r)"
    and "completed (k_progress c) = completed (k_progress (f_heap (fs_flight s) ! r))" and "ctx_ok c"
  shows "flight_ok (s\<lparr>fs_flight := put_call r c (fs_flight s)\<rparr>)"
proof -
  have "calls_ok (put_call r c (fs_flight s))"
    using assms by (intro calls_ok_put) (auto simp: flight_ok_def live_def)
  with assms show ?thesis
    by (auto simp: flight_ok_def waiters_ok_def nth_list_update dest!: set_update_subset_insert [THEN subsetD])
qed

lemma record_failure_same:
  "record_failure k ep e now f = Some f' \<Longrightarrow> f_calls f' = f_calls f \<and> f_heap f' = f_heap f \<and> f_failTTL f' = f_failTTL f"
  by (auto simp: record_failure_def sweep_def add_failure_def Let_def split: option.splits if_splits)

lemma finish_callE:
  assumes "finish_call f r now = Some f'"
  obtains data ct err abandoned where "k_progress (f_heap f ! r) = Returned (data, ct, err) abandoned"
    and "f_heap f' = (f_heap f)[r := (f_heap f ! r)\<lparr>k_progress := Completed (data, ct, err)\<rparr>]"
    and "f_calls f' = f_calls (forget_call r (k_key (f_heap f ! r)) f)"
    and "f_failTTL f' = f_failTTL f"
    and "err = None \<or> abandoned \<or> f_failTTL f \<le> 0 \<Longrightarrow> f_failed f' = f_failed f"
    and "\<And>e. err = Some e \<Longrightarrow> \<not> abandoned \<Longrightarrow> 0 < f_failTTL f \<Longrightarrow>
          \<exists>f2. record_failure (k_key (f_heap f ! r)) (k_endpoint (f_heap f ! r)) e now (forget_call r (k_key (f_heap f ! r)) f) = Some f2
             \<and> f_failed f' = f_failed f2"
proof -
  obtain data ct err ab where p: "k_progress (f_heap f ! r) = Returned (data, ct, err) ab"
    using assms by (auto simp: finish_call_def Let_def split: progress.splits)
  let ?f1 = "forget_call r (k_key (f_heap f ! r)) f"
  obtain f2 where f2: "(case err of Some e \<Rightarrow> if \<not> ab \<and> f_failTTL f > 0
        then record_failure (k_key (f_heap f ! r)) (k_endpoint (f_heap f ! r)) e now ?f1 else Some ?f1 | None \<Rightarrow> Some ?f1) = Some f2"
    and f': "f' = put_call r ((f_heap f ! r)\<lparr>k_progress := Completed (data, ct, err)\<rparr>) f2"
    using assms p by (auto simp: finish_call_def Let_def)
  have same: "f_calls f2 = f_calls ?f1" "f_heap f2 = f_heap f" "f_failTTL f2 = f_failTTL f"
    using f2 by (cases err; auto dest: record_failure_same split: if_splits)+
  show ?thesis
  proof (rule that [OF p])
    show "f_failed f' = f_failed f" if "err = None \<or> ab \<or> f_failTTL f \<le> 0"
      using that f2 by (cases err) (auto simp: f')
    show "\<exists>f2. record_failure (k_key (f_heap f ! r)) (k_endpoint (f_heap f ! r)) e now ?f1 = Some f2 \<and> f_failed f' = f_failed f2"
      if "err = Some e" "\<not> ab" "0 < f_failTTL f" for e
      using that f2 by (intro exI [of _ f2]) (simp add: f')
  qed (simp_all add: f' same)
qed

lemma finish_ok:
  assumes "flight_ok s" and r: "r < length (f_heap (fs_flight s))" and f: "finish_call (fs_flight s) r now = Some f"
  shows "flight_ok (s\<lparr>fs_flight := f\<rparr>)"
proof -
  from f obtain data ct err ab where p: "k_progress (f_heap (fs_flight s) ! r) = Returned (data, ct, err) ab"
    and h: "f_heap f = (f_heap (fs_flight s))[r := (f_heap (fs_flight s) ! r)\<lparr>k_progress := Completed (data, ct, err)\<rparr>]"
    and c: "f_calls f = f_calls (forget_call r (k_key (f_heap (fs_flight s) ! r)) (fs_flight s))"
    by (rule finish_callE)
  let ?c = "(f_heap (fs_flight s) ! r)\<lparr>k_progress := Completed (data, ct, err)\<rparr>"
  have "calls_ok (put_call r ?c (forget_call r (k_key ?c) (fs_flight s)))"
    using assms(1) r by (intro calls_ok_dead) (auto simp: flight_ok_def live_def)
  then have "calls_ok f" by (subst calls_ok_cong [of _ "put_call r ?c (forget_call r (k_key ?c) (fs_flight s))"]) (auto simp: h c)
  with assms(1) r p show ?thesis
    by (auto simp: flight_ok_def waiters_ok_def h nth_list_update ctx_ok_def dest!: set_update_subset_insert [THEN subsetD])
qed

lemma flight_ok_step:
  assumes "flight_ok s" and "flight_step s s'"
  shows "flight_ok s'"
  using assms(2)
proof cases
  case (enter ctx kind key ep n1 n2 b f b' x p)
  with enter_ok [OF assms(1) enter(2)] show ?thesis by simp
next
  case (got i r x)
  then have "int (cnt (waits r') ((fs_pcs s)[i := DEnd (Inr x)])) = int (cnt (waits r') (fs_pcs s)) - (if r' = r then 1 else 0)" for r'
    by (intro cnt_stop_waiting)
  moreover have "completed (k_progress (f_heap (fs_flight s) ! r))"
    using got(4) by (auto simp: do_done_def split: progress.splits)
  ultimately show ?thesis
    using assms(1) got(1) by (auto simp: flight_ok_def waiters_ok_def dest!: set_update_subset_insert [THEN subsetD])
next
  case (leave i r e)
  with leave_ok [OF assms(1)] show ?thesis by simp
next
  case (deadline r)
  with assms(1) show ?thesis by (auto intro!: put_ok simp: ctx_ok_def)
next
  case (returns r x f)
  with assms(1) show ?thesis
    by (auto simp: fetch_returns_def Let_def ctx_ok_def split: if_splits intro!: put_ok)
next
  case (finish r now f)
  with assms(1) show ?thesis by (auto intro: finish_ok)
qed

lemma flight_ok_start: "flight_ok (start_flight ttl)"
  by (simp add: flight_ok_def start_flight_def new_flight_def calls_ok_def waiters_ok_def)

interpretation flights: transition_system "\<lambda>s. \<exists>ttl. s = start_flight ttl" flight_step flight_ok
  by unfold_locales (auto intro: flight_ok_start flight_ok_step)

definition flight_reachable :: "fsys \<Rightarrow> bool" where
  "flight_reachable s \<longleftrightarrow> (\<exists>ttl. flight_step\<^sup>*\<^sup>* (start_flight ttl) s)"

lemma flight_reachable_ok: "flight_reachable s \<Longrightarrow> flight_ok s"
  unfolding flight_reachable_def by (auto intro: flights.inv_reachable)

section \<open>What sharing promises\<close>

text \<open>
  Property C36. Two callers that wait for unfinished downloads of the same key wait for the same one,
  and it is the one the map holds, so the next caller of the key joins it too.
\<close>

lemma one_download_per_key:
  assumes "flight_reachable s" and "DWait r \<in> set (fs_pcs s)" and "DWait r' \<in> set (fs_pcs s)"
    and "\<not> completed (k_progress (f_heap (fs_flight s) ! r))" and "\<not> completed (k_progress (f_heap (fs_flight s) ! r'))"
    and "k_key (f_heap (fs_flight s) ! r) = k_key (f_heap (fs_flight s) ! r')"
  shows "r = r' \<and> map_of (f_calls (fs_flight s)) (k_key (f_heap (fs_flight s) ! r)) = Some r"
proof -
  have ok: "flight_ok s" by (rule flight_reachable_ok [OF assms(1)])
  have w: "q < length (f_heap (fs_flight s)) \<and> live (f_heap (fs_flight s) ! q)"
    if "DWait q \<in> set (fs_pcs s)" "\<not> completed (k_progress (f_heap (fs_flight s) ! q))" for q
  proof -
    from that(1) have "0 < cnt (waits q) (fs_pcs s)" by (auto simp: cnt_def filter_empty_conv waits_iff)
    with ok that show ?thesis by (auto simp: flight_ok_def waiters_ok_def live_def)
  qed
  with ok assms(2-6) show ?thesis
    using live_unique [of "fs_flight s" r r'] live_mapped [of "fs_flight s" r] by (auto simp: flight_ok_def)
qed

text \<open>
  A running download has been cancelled only if nobody waits for it, and once nobody
  does its context has ended; the count of waiters is the number of callers that wait.
\<close>

lemma cancelled_when_abandoned:
  assumes "flight_reachable s" and "r < length (f_heap (fs_flight s))" and "k_progress (f_heap (fs_flight s) ! r) = Running"
  shows "k_waiters (f_heap (fs_flight s) ! r) = int (cnt (waits r) (fs_pcs s))
       \<and> (k_ctx (f_heap (fs_flight s) ! r) = Some Canceled \<longrightarrow> DWait r \<notin> set (fs_pcs s))
       \<and> (DWait r \<notin> set (fs_pcs s) \<longrightarrow> k_ctx (f_heap (fs_flight s) ! r) \<noteq> None)"
proof -
  have ok: "flight_ok s" by (rule flight_reachable_ok [OF assms(1)])
  have "DWait r \<in> set (fs_pcs s) \<longleftrightarrow> 0 < cnt (waits r) (fs_pcs s)"
    by (auto simp: cnt_def filter_empty_conv waits_iff)
  with ok assms(2,3) show ?thesis
    by (auto simp: flight_ok_def waiters_ok_def ctx_ok_def)
qed

section \<open>What failures are remembered\<close>

lemma map_of_filter_Some:
  "map_of (filter (\<lambda>(_, x). P x) m) k = Some x \<Longrightarrow> distinct (map fst m) \<Longrightarrow> map_of m k = Some x"
  by (auto simp: distinct_map_filter dest: map_of_SomeD intro!: map_of_is_SomeI)

lemma distinct_put: "distinct (map fst m) \<Longrightarrow> distinct (map fst (map_put k x m))"
  by (auto simp: map_put_def map_del_def distinct_map_filter)

lemma sweep_simps [simp]: "f_failTTL (sweep now f) = f_failTTL f"
  by (simp add: sweep_def)

lemma sweep_failed:
  assumes "distinct (map fst (f_failed f))"
  shows "map_of (f_failed (sweep now f)) k = Some fl \<Longrightarrow> map_of (f_failed f) k = Some fl"
    and "map_of (f_failed f) k = Some fl \<Longrightarrow> now \<le> fl_until fl \<Longrightarrow> map_of (f_failed (sweep now f)) k = Some fl"
  using assms
  by (auto simp: sweep_def distinct_map_filter dest: map_of_SomeD intro!: map_of_is_SomeI split: if_splits)

lemma add_failure_simps [simp]: "f_failTTL (add_failure k e now f) = f_failTTL f"
  "map_of (f_failed (add_failure k e now f)) j
     = (if j = k then Some \<lparr>fl_err = e, fl_until = now + f_failTTL f\<rparr> else map_of (f_failed f) j)"
  by (simp_all add: add_failure_def map_of_put)

text \<open>A failure to connect to the endpoint itself.\<close>

definition at_endpoint :: "string \<Rightarrow> goerr \<Rightarrow> bool" where
  "at_endpoint ep e \<longleftrightarrow> (\<exists>a h. as_unreachable e = Some a \<and> after_scheme ep = Some h \<and> equal_fold h a)"

lemma record_failure_failed:
  assumes "record_failure key ep e now f = Some f'"
  shows "map_of (f_failed f') k
       = (if k = key \<or> (k = hostKey ep \<and> at_endpoint ep e) then Some \<lparr>fl_err = e, fl_until = now + f_failTTL f\<rparr>
          else map_of (f_failed (sweep now f)) k)"
  using assms
  by (cases "as_unreachable e"; cases "after_scheme ep")
     (auto simp: record_failure_def Let_def at_endpoint_def split: if_splits)

lemma finish_call_failed:
  assumes "finish_call f r now = Some f'" and "k_progress (f_heap f ! r) = Returned (data, ct, err) ab"
  shows "f_failTTL f' = f_failTTL f"
    and "err = None \<or> ab \<or> f_failTTL f \<le> 0 \<Longrightarrow> f_failed f' = f_failed f"
    and "err = Some e \<Longrightarrow> \<not> ab \<Longrightarrow> 0 < f_failTTL f \<Longrightarrow>
      \<exists>f2. record_failure (k_key (f_heap f ! r)) (k_endpoint (f_heap f ! r)) e now (forget_call r (k_key (f_heap f ! r)) f) = Some f2
         \<and> f_failed f' = f_failed f2"
  by (rule finish_callE [OF assms(1)]; use assms(2) in simp)+

text \<open>
  A download that ends is remembered as a failure exactly when it failed, was not
  abandoned and failures are remembered at all: under its key, and under its endpoint if it could
  not connect to that endpoint itself; nothing else is added, and no failure still in its time
  to live is lost.
\<close>

lemma failures_remembered:
  assumes f: "finish_call f r now = Some f'" and d: "distinct (map fst (f_failed f))"
    and p: "k_progress (f_heap f ! r) = Returned (data, ct, err) abandoned"
    and new: "new \<longleftrightarrow> err = Some e \<and> \<not> abandoned \<and> 0 < f_failTTL f
         \<and> (k = k_key (f_heap f ! r) \<or> (k = hostKey (k_endpoint (f_heap f ! r)) \<and> at_endpoint (k_endpoint (f_heap f ! r)) e))"
  shows "(new \<longrightarrow> map_of (f_failed f') k = Some \<lparr>fl_err = e, fl_until = now + f_failTTL f\<rparr>)
       \<and> (\<not> new \<and> (err = None \<or> err = Some e) \<longrightarrow>
            (\<forall>fl. map_of (f_failed f') k = Some fl \<longrightarrow> map_of (f_failed f) k = Some fl)
          \<and> (\<forall>fl. map_of (f_failed f) k = Some fl \<and> now \<le> fl_until fl \<longrightarrow> map_of (f_failed f') k = Some fl))"
proof -
  note failed = finish_call_failed [OF f p]
  show ?thesis
  proof (cases "err = Some e \<and> \<not> abandoned \<and> 0 < f_failTTL f")
    case True
    with failed(3) obtain f2 where
      f2: "record_failure (k_key (f_heap f ! r)) (k_endpoint (f_heap f ! r)) e now (forget_call r (k_key (f_heap f ! r)) f) = Some f2"
      and "f_failed f' = f_failed f2" by auto
    with True new have m: "map_of (f_failed f') k
        = (if new then Some \<lparr>fl_err = e, fl_until = now + f_failTTL f\<rparr>
           else map_of (f_failed (sweep now (forget_call r (k_key (f_heap f ! r)) f))) k)"
      by (simp add: record_failure_failed [OF f2])
    have "distinct (map fst (f_failed (forget_call r (k_key (f_heap f ! r)) f)))" using d by simp
    note sw = sweep_failed [OF this, where now = now and k = k]
    show ?thesis
    proof (cases new)
      case True
      with m show ?thesis by simp
    next
      case False
      with m have x: "map_of (f_failed f') k = map_of (f_failed (sweep now (forget_call r (k_key (f_heap f ! r)) f))) k"
        by simp
      from sw False show ?thesis unfolding x forget_call_simps by blast
    qed
  next
    case False
    with failed(2) new show ?thesis by auto
  qed
qed

section \<open>How long a failure is remembered\<close>

text \<open>
  Everything that happens to the shared downloads, as operations with the clock readings they make; an operation that is
  not possible changes nothing. Every step of the system is one of them.
\<close>

datatype flight_op =
    Enters "goerr option" fetch_kind string string gotime gotime "32 word option"
  | Leaves nat
  | Passes nat
  | Returns nat fetched
  | Finishes nat gotime
  | Gets

fun flight_do :: "flight_op \<Rightarrow> flight \<Rightarrow> flight" where
  "flight_do (Enters ctx kind key endpoint now1 now2 b) f = fst (do_enter f ctx kind key endpoint now1 now2 b)"
| "flight_do (Leaves r) f = do_leave f r"
| "flight_do (Passes r) f = put_call r ((f_heap f ! r)\<lparr>k_ctx := Some DeadlineExceeded\<rparr>) f"
| "flight_do (Returns r x) f = (case fetch_returns f r x of Some f' \<Rightarrow> f' | None \<Rightarrow> f)"
| "flight_do (Finishes r now) f = (case finish_call f r now of Some f' \<Rightarrow> f' | None \<Rightarrow> f)"
| "flight_do Gets f = f"

fun op_times :: "flight_op \<Rightarrow> gotime set" where
  "op_times (Enters ctx kind key endpoint now1 now2 b) = {now1, now2}"
| "op_times (Finishes r now) = {now}"
| "op_times _ = {}"

lemma flight_step_op: "flight_step s s' \<Longrightarrow> \<exists>op. fs_flight s' = flight_do op (fs_flight s)"
proof (induction rule: flight_step.induct)
  case (enter s ctx kind key endpoint now1 now2 b f b' x p)
  then show ?case by (intro exI [of _ "Enters ctx kind key endpoint now1 now2 b"]) simp
next
  case (got i s r x)
  show ?case by (intro exI [of _ Gets]) simp
next
  case (leave i s r e)
  show ?case by (intro exI [of _ "Leaves r"]) simp
next
  case (deadline r s)
  show ?case by (intro exI [of _ "Passes r"]) simp
next
  case (returns r s x f)
  then show ?case by (intro exI [of _ "Returns r x"]) simp
next
  case (finish r s now f)
  then show ?case by (intro exI [of _ "Finishes r now"]) simp
qed

text \<open>A failure under \<open>k\<close> that is remembered until \<open>t\<close> at least.\<close>

definition marked :: "string \<Rightarrow> gotime \<Rightarrow> flight \<Rightarrow> bool" where
  "marked k t f \<longleftrightarrow> (\<exists>fl. map_of (f_failed f) k = Some fl \<and> t \<le> fl_until fl)"

definition keys_once :: "flight \<Rightarrow> bool" where
  "keys_once f \<longleftrightarrow> distinct (map fst (f_failed f))"

lemma marked_cong: "f_failed f = f_failed g \<Longrightarrow> marked k t f = marked k t g"
  by (simp add: marked_def)

lemma keys_once_cong: "f_failed f = f_failed g \<Longrightarrow> keys_once f = keys_once g"
  by (simp add: keys_once_def)

lemma check_failed_once: "check_failed f ks = (f', e) \<Longrightarrow> keys_once f \<Longrightarrow> keys_once f'"
  by (induction f ks rule: check_failed.induct)
    (auto simp: keys_once_def map_del_def distinct_map_filter split: option.splits if_splits)

lemma check_failed_marks:
  "\<lbrakk>check_failed f ks = (f', e); \<forall>(j, n) \<in> set ks. n < t; map_of (f_failed f) k = Some fl; t \<le> fl_until fl\<rbrakk>
    \<Longrightarrow> map_of (f_failed f') k = Some fl"
proof (induction f ks rule: check_failed.induct)
  case (2 f j n ks)
  then show ?case by (cases "k = j") (auto simp: map_of_del split: option.splits if_splits)
qed simp

lemma do_enter_failed:
  assumes "do_enter f ctx kind key ep n1 n2 b = (f', b', x)"
  shows "f_failTTL f' = f_failTTL f"
    and "f_failed f' = f_failed f \<or> f_failed f' = f_failed (fst (check_failed f [(key, n1), (hostKey ep, n2)]))"
proof -
  obtain f1 e1 where c: "check_failed f [(key, n1), (hostKey ep, n2)] = (f1, e1)" by fastforce
  obtain b1 e2 where sp: "spendFetch b = (b1, e2)" by fastforce
  have "f_failTTL f' = f_failTTL f \<and> (f_failed f' = f_failed f \<or> f_failed f' = f_failed f1)"
    using assms c sp check_failed_same [OF c] by (auto simp: do_enter_def add_waiter_def Let_def split: option.splits)
  with c show "f_failTTL f' = f_failTTL f"
    "f_failed f' = f_failed f \<or> f_failed f' = f_failed (fst (check_failed f [(key, n1), (hostKey ep, n2)]))" by simp_all
qed

lemma record_failure_once: "record_failure key ep e now f = Some f' \<Longrightarrow> keys_once f \<Longrightarrow> keys_once f'"
  by (auto simp: record_failure_def Let_def keys_once_def add_failure_def sweep_def distinct_map_filter
      split: option.splits if_splits intro!: distinct_put)

lemma finish_call_marks:
  assumes f: "finish_call f r now = Some f'" and "keys_once f"
  shows "f_failTTL f' = f_failTTL f" and "keys_once f'"
    and "\<lbrakk>marked k t f; now \<le> t; t \<le> now + f_failTTL f\<rbrakk> \<Longrightarrow> marked k t f'"
proof -
  have "f_failTTL f' = f_failTTL f \<and> keys_once f' \<and> (marked k t f \<and> now \<le> t \<and> t \<le> now + f_failTTL f \<longrightarrow> marked k t f')"
  proof (rule finish_callE [OF f])
    fix data ct err ab
    let ?key = "k_key (f_heap f ! r)" and ?ep = "k_endpoint (f_heap f ! r)"
    assume ttl: "f_failTTL f' = f_failTTL f"
      and same: "err = None \<or> ab \<or> f_failTTL f \<le> 0 \<Longrightarrow> f_failed f' = f_failed f"
      and new: "\<And>e. err = Some e \<Longrightarrow> \<not> ab \<Longrightarrow> 0 < f_failTTL f \<Longrightarrow>
        \<exists>f2. record_failure ?key ?ep e now (forget_call r ?key f) = Some f2 \<and> f_failed f' = f_failed f2"
    show ?thesis
    proof (cases "err = None \<or> ab \<or> f_failTTL f \<le> 0")
      case True
      with ttl same assms(2) marked_cong keys_once_cong show ?thesis by metis
    next
      case False
      then obtain e where "err = Some e" "\<not> ab" "0 < f_failTTL f" by force
      with new obtain f2 where f2: "record_failure ?key ?ep e now (forget_call r ?key f) = Some f2" "f_failed f' = f_failed f2" by blast
      have once: "keys_once (forget_call r ?key f)" using assms(2) by (simp add: keys_once_def)
      have "keys_once f'" using record_failure_once [OF f2(1) once] keys_once_cong [OF f2(2)] by simp
      moreover have "marked k t f'" if "marked k t f" "now \<le> t" "t \<le> now + f_failTTL f"
        using that sweep_failed(2) [OF once [unfolded keys_once_def], where k = k and now = now]
        by (auto simp: marked_def f2(2) record_failure_failed [OF f2(1)])
      ultimately show ?thesis using ttl by blast
    qed
  qed
  then show "f_failTTL f' = f_failTTL f" "keys_once f'"
    "\<lbrakk>marked k t f; now \<le> t; t \<le> now + f_failTTL f\<rbrakk> \<Longrightarrow> marked k t f'" by blast+
qed

lemma quiet_ops [simp]: "f_failed (do_leave f r) = f_failed f" "f_failTTL (do_leave f r) = f_failTTL f"
  "fetch_returns f r x = Some f' \<Longrightarrow> f_failed f' = f_failed f" "fetch_returns f r x = Some f' \<Longrightarrow> f_failTTL f' = f_failTTL f"
  by (auto simp: do_leave_def fetch_returns_def Let_def split: if_splits)

lemma flight_do_marks:
  assumes "keys_once f"
  shows "f_failTTL (flight_do op f) = f_failTTL f" and "keys_once (flight_do op f)"
    and "\<lbrakk>marked k t f; \<forall>n \<in> op_times op. n < t \<and> t \<le> n + f_failTTL f\<rbrakk> \<Longrightarrow> marked k t (flight_do op f)"
proof -
  have "f_failTTL (flight_do op f) = f_failTTL f \<and> keys_once (flight_do op f)
    \<and> (marked k t f \<and> (\<forall>n \<in> op_times op. n < t \<and> t \<le> n + f_failTTL f) \<longrightarrow> marked k t (flight_do op f))"
  proof (cases op)
    case (Enters ctx kind key ep n1 n2 b)
    obtain f' b' x where e: "do_enter f ctx kind key ep n1 n2 b = (f', b', x)" using prod_cases3 by blast
    obtain f1 e1 where c: "check_failed f [(key, n1), (hostKey ep, n2)] = (f1, e1)" by fastforce
    have marks: "keys_once f1" "marked k t f \<Longrightarrow> n1 < t \<Longrightarrow> n2 < t \<Longrightarrow> marked k t f1"
      using check_failed_once [OF c assms] check_failed_marks [OF c] by (fastforce simp: marked_def)+
    from do_enter_failed [OF e] c marks assms Enters e show ?thesis
      by (auto simp: marked_cong [of f' f] marked_cong [of f' f1] keys_once_cong [of f' f] keys_once_cong [of f' f1])
  next
    case (Finishes r now)
    with finish_call_marks(1,2) [OF _ assms] finish_call_marks(3) [OF _ assms, where k = k and t = t] assms show ?thesis by (auto split: option.split)
  qed (use assms in \<open>auto simp: marked_def keys_once_def split: option.split\<close>)
  then show "f_failTTL (flight_do op f) = f_failTTL f" "keys_once (flight_do op f)"
    "\<lbrakk>marked k t f; \<forall>n \<in> op_times op. n < t \<and> t \<le> n + f_failTTL f\<rbrakk> \<Longrightarrow> marked k t (flight_do op f)" by blast+
qed

lemma flight_run_marks:
  assumes "keys_once f" and "marked k t f" and "\<forall>op \<in> set ops. \<forall>n \<in> op_times op. n < t \<and> t \<le> n + f_failTTL f"
  shows "marked k t (fold flight_do ops f) \<and> f_failTTL (fold flight_do ops f) = f_failTTL f"
  using assms
proof (induction ops arbitrary: f)
  case (Cons op ops)
  from Cons.IH [of "flight_do op f"] Cons.prems flight_do_marks [OF Cons.prems(1), where op = op] show ?case by simp
qed simp

lemma reachable_keys_once: "flight_reachable s \<Longrightarrow> keys_once (fs_flight s)"
  unfolding flight_reachable_def
proof (elim exE)
  fix ttl
  assume "flight_step\<^sup>*\<^sup>* (start_flight ttl) s"
  then show ?thesis
  proof (induction rule: rtranclp_induct)
    case base
    show ?case by (simp add: keys_once_def start_flight_def new_flight_def)
  next
    case (step s s')
    with flight_step_op [OF step(2)] flight_do_marks(2) show ?case by metis
  qed
qed

text \<open>
  Property C37. After a download that could not connect to its endpoint, every download from that endpoint is refused until
  the time to live is over, whatever happens to the shared downloads in the meantime: refusals of others, new failures
  and successes, cancelled and finished downloads. A refused caller gets no call and spends nothing of its budget.
\<close>

lemma unreachable_endpoint_refused:
  assumes s: "flight_reachable s" and f: "finish_call (fs_flight s) r now = Some f'"
    and p: "k_progress (f_heap (fs_flight s) ! r) = Returned (data, ct, Some e) False" and ttl: "0 < f_failTTL (fs_flight s)"
    and ep: "at_endpoint (k_endpoint (f_heap (fs_flight s) ! r)) e"
    and meanwhile: "\<forall>op \<in> set ops. \<forall>n \<in> op_times op. now \<le> n \<and> n < now + f_failTTL (fs_flight s)"
    and n: "n1 < now + f_failTTL (fs_flight s)" "n2 < now + f_failTTL (fs_flight s)"
  defines "g \<equiv> fold flight_do ops f'"
  shows "\<exists>f2 e2. do_enter g None kind key (k_endpoint (f_heap (fs_flight s) ! r)) n1 n2 b
         = (f2, b, Inl (RecentFailure (f_failTTL (fs_flight s)) e2))
       \<and> f_heap f2 = f_heap g \<and> f_calls f2 = f_calls g"
proof -
  let ?f = "fs_flight s" let ?ep = "k_endpoint (f_heap ?f ! r)" let ?t = "now + f_failTTL ?f"
  note once = reachable_keys_once [OF s]
  note marks = finish_call_marks(1,2) [OF f once]
  from finish_call_failed(3) [OF f p refl _ ttl] obtain g0
    where g0: "record_failure (k_key (f_heap ?f ! r)) ?ep e now (forget_call r (k_key (f_heap ?f ! r)) ?f) = Some g0"
    and "f_failed f' = f_failed g0" by auto
  with ep have "marked (hostKey ?ep) ?t f'" by (simp add: marked_def record_failure_failed [OF g0])
  from flight_run_marks [OF marks(2) this] meanwhile marks(1)
  have g: "marked (hostKey ?ep) ?t g" "f_failTTL g = f_failTTL ?f" by (auto simp: g_def)
  have "\<exists>f2 e2. check_failed g [(key, n1), (hostKey ?ep, n2)] = (f2, Some (RecentFailure (f_failTTL ?f) e2))"
    using g n by (cases "key = hostKey ?ep") (auto simp: marked_def map_of_del split: option.split)
  then obtain f2 e2 where c: "check_failed g [(key, n1), (hostKey ?ep, n2)] = (f2, Some (RecentFailure (f_failTTL ?f) e2))"
    by blast
  with check_failed_same [OF c] show ?thesis by (auto simp: do_enter_def)
qed

lemma index_of_occurs: "index_of p (a @ p @ b) \<noteq> None"
  using index_of_None by blast

lemma lower_char_special: "lower_char c = CHR '':'' \<longleftrightarrow> c = CHR '':''" "lower_char c = CHR ''/'' \<longleftrightarrow> c = CHR ''/''"
  by (auto simp: lower_char_def Let_def dest: arg_cong [where f = "of_char :: char \<Rightarrow> nat"])

text \<open>
  The goroutine never panics on an endpoint: the endpoint of a URL an analysis follows
  has a part after \<open>://\<close>, whether \<open>net/url\<close> can parse the URL or not.
\<close>

lemma endpoint_has_host:
  assumes "is_http u"
  shows "after_scheme (urlEndpoint u parsed) \<noteq> None"
proof (cases parsed)
  case None
  from assms obtain rest where "to_lower u = ''http://'' @ rest \<or> to_lower u = ''https://'' @ rest"
    by (auto simp: is_http_def has_prefix_iff)
  then have "\<exists>a b. u = a @ ''://'' @ b"
    by (auto simp: to_lower_def map_eq_append_conv map_eq_Cons_conv lower_char_special intro: exI [of _ "[_, _, _, _]"] exI [of _ "[_, _, _, _, _]"])
  then obtain a b where "u = a @ ''://'' @ b" by blast
  then show ?thesis using None index_of_occurs [of "''://''" a b] by (simp add: after_scheme_def urlEndpoint_def)
next
  case (Some p)
  then have "\<exists>a b. urlEndpoint u parsed = a @ ''://'' @ b"
    unfolding Some urlEndpoint_def Let_def option.case by blast
  then obtain a b where "urlEndpoint u parsed = a @ ''://'' @ b" by blast
  then show ?thesis using index_of_occurs [of "''://''" a b] by (simp add: after_scheme_def)
qed

lemma endpoint_has_host_witness: "after_scheme (urlEndpoint ''HTTP://x:y:z'' None) = Some ''x:y:z''"
  using endpoint_has_host [of "''HTTP://x:y:z''" None]
  by (simp add: is_http_def to_lower_def lower_char_def has_prefix_def urlEndpoint_def after_scheme_def)

section \<open>A run\<close>

text \<open>Two callers of one URL, then the download fails to connect to its own endpoint.\<close>

definition sample_call :: call where
  "sample_call = \<lparr>k_key = ''CRL http://a/1'', k_endpoint = ''http://a:80'', k_timed = False, k_waiters = 2,
     k_ctx = None, k_progress = Running\<rparr>"

definition sample_flight :: flight where
  "sample_flight = (new_flight 60)\<lparr>f_calls := [(''CRL http://a/1'', 0)], f_heap := [sample_call]\<rparr>"

definition sample_fsys :: fsys where
  "sample_fsys = \<lparr>fs_flight = sample_flight, fs_pcs = [DWait 0, DWait 0]\<rparr>"

text \<open>After the first of the two.\<close>

definition sample_flight_one :: flight where
  "sample_flight_one = sample_flight\<lparr>f_heap := [sample_call\<lparr>k_waiters := 1\<rparr>]\<rparr>"

lemma sample_enters:
  "do_enter (new_flight 60) None fetchCRL ''CRL http://a/1'' ''http://a:80'' 0 0 None = (sample_flight_one, None, Inr 0)"
  "do_enter sample_flight_one None fetchCRL ''CRL http://a/1'' ''http://a:80'' 0 0 None = (sample_flight, None, Inr 0)"
  by (simp_all add: do_enter_def new_flight_def spendFetch_def new_call_def add_waiter_def sample_flight_one_def
      sample_flight_def sample_call_def map_put_def map_del_def fetchCRL_def)

lemma sample_fsys_reachable: "flight_reachable sample_fsys"
proof -
  have "flight_step (start_flight 60) \<lparr>fs_flight = sample_flight_one, fs_pcs = [DWait 0]\<rparr>"
    using flight_step.enter [of "start_flight 60", simplified start_flight_def, simplified, OF sample_enters(1) refl]
    by (simp add: start_flight_def)
  moreover have "flight_step \<lparr>fs_flight = sample_flight_one, fs_pcs = [DWait 0]\<rparr> sample_fsys"
    using flight_step.enter [of "\<lparr>fs_flight = sample_flight_one, fs_pcs = [DWait 0]\<rparr>", simplified, OF sample_enters(2) refl]
    by (simp add: sample_fsys_def)
  ultimately show ?thesis
    unfolding flight_reachable_def by (meson rtranclp.rtrancl_refl rtranclp.rtrancl_into_rtrancl)
qed

lemma one_download_per_key_witness: "map_of (f_calls (fs_flight sample_fsys)) ''CRL http://a/1'' = Some 0"
  using one_download_per_key [OF sample_fsys_reachable, of 0 0]
  by (simp add: sample_fsys_def sample_flight_def sample_call_def)

lemma cancelled_when_abandoned_witness: "k_waiters (f_heap (fs_flight sample_fsys) ! 0) = int (cnt (waits 0) [DWait 0, DWait 0])"
  using cancelled_when_abandoned [OF sample_fsys_reachable, of 0]
  by (simp add: sample_fsys_def sample_flight_def sample_call_def)

definition failing_flight :: flight where
  "failing_flight = sample_flight\<lparr>f_heap := [sample_call\<lparr>k_ctx := Some Canceled,
     k_progress := Returned ([], '''', Some (UnreachableError ''A:80'' (LibError ''refused'' None None))) False\<rparr>]\<rparr>"

lemma sample_host: "equal_fold ''a:80'' ''A:80''"
  by code_simp

lemma failing_flight_finishes: "\<exists>f. finish_call failing_flight 0 5 = Some f"
  by (simp add: finish_call_def failing_flight_def sample_flight_def sample_call_def record_failure_def
      as_unreachable_def List.map_filter_def after_scheme_def has_prefix_def forget_call_def new_flight_def sweep_def
      Let_def sample_host)

lemma failing_at_endpoint:
  "at_endpoint (k_endpoint (f_heap failing_flight ! 0)) (UnreachableError ''A:80'' (LibError ''refused'' None None))"
  by (simp add: at_endpoint_def failing_flight_def sample_flight_def sample_call_def as_unreachable_def List.map_filter_def
      after_scheme_def has_prefix_def sample_host)

lemma failures_remembered_witness:
  "\<exists>f. finish_call failing_flight 0 5 = Some f \<and> map_of (f_failed f) (hostKey ''http://a:80'')
     = Some \<lparr>fl_err = UnreachableError ''A:80'' (LibError ''refused'' None None), fl_until = 65\<rparr>"
proof -
  from failing_flight_finishes obtain f where f: "finish_call failing_flight 0 5 = Some f" by blast
  have "distinct (map fst (f_failed failing_flight))"
    by (simp add: failing_flight_def sample_flight_def new_flight_def)
  from failures_remembered [OF f this _ refl, where k = "hostKey ''http://a:80''" and abandoned = False
      and e = "UnreachableError ''A:80'' (LibError ''refused'' None None)"]
  have "map_of (f_failed f) (hostKey ''http://a:80'')
     = Some \<lparr>fl_err = UnreachableError ''A:80'' (LibError ''refused'' None None), fl_until = 65\<rparr>"
    using failing_at_endpoint by (simp add: failing_flight_def sample_flight_def sample_call_def new_flight_def)
  with f show ?thesis by blast
qed

text \<open>Two refusals of one endpoint, the second after the first.\<close>

definition failing_fsys :: fsys where
  "failing_fsys = \<lparr>fs_flight = failing_flight, fs_pcs = [DWait 0, DWait 0]\<rparr>"

lemma failing_fsys_reachable: "flight_reachable failing_fsys"
proof -
  have "fetch_returns sample_flight 0 ([], '''', Some (UnreachableError ''A:80'' (LibError ''refused'' None None)))
      = Some failing_flight"
    by (simp add: fetch_returns_def sample_flight_def sample_call_def failing_flight_def put_call_def cancel_call_def)
  then have "flight_step sample_fsys failing_fsys"
    using flight_step.returns [of 0 sample_fsys "([], '''', Some (UnreachableError ''A:80'' (LibError ''refused'' None None)))" failing_flight]
    by (simp add: sample_fsys_def failing_fsys_def sample_flight_def)
  with sample_fsys_reachable show ?thesis
    unfolding flight_reachable_def by (meson rtranclp.rtrancl_into_rtrancl)
qed

lemma unreachable_endpoint_refused_witness:
  "\<exists>f f2 e2. finish_call failing_flight 0 5 = Some f
     \<and> do_enter (flight_do (Enters None fetchCRL ''CRL http://a/3'' ''http://a:80'' 10 10 None) f) None fetchAIA
         ''AIA http://a/2'' ''http://a:80'' 20 20 new_budget = (f2, new_budget, Inl (RecentFailure 60 e2))"
proof -
  from failing_flight_finishes obtain f where f: "finish_call failing_flight 0 5 = Some f" by blast
  have flight: "fs_flight failing_fsys = failing_flight" by (simp add: failing_fsys_def)
  have heap: "k_endpoint (f_heap failing_flight ! 0) = ''http://a:80''" "f_failTTL failing_flight = 60"
    "k_progress (f_heap failing_flight ! 0)
      = Returned ([], '''', Some (UnreachableError ''A:80'' (LibError ''refused'' None None))) False"
    by (simp_all add: failing_flight_def sample_flight_def sample_call_def new_flight_def)
  from unreachable_endpoint_refused [OF failing_fsys_reachable, where r = 0, unfolded flight heap(1,2), OF f heap(3) _
      failing_at_endpoint [unfolded heap(1)], where ops = "[Enters None fetchCRL ''CRL http://a/3'' ''http://a:80'' 10 10 None]"
      and ?n1.0 = 20 and ?n2.0 = 20 and kind = fetchAIA and key = "''AIA http://a/2''" and b = new_budget]
  show ?thesis using f by auto
qed

end
