(* ===== verification/Ssrf.thy ===== *)
theory Ssrf
  imports Limits
begin

unbundle bit_operations_syntax

text \<open>
  Which addresses may be connected to (internal/ssrfguard/ssrfguard.go, and the guarded dialer of
  cmd/certview/main.go): \<open>net/netip\<close>'s addresses and the predicates the source calls on them, the
  list of blocked prefixes, \<open>checkAddr\<close>, \<open>Check\<close>, \<open>DialerControl\<close>, and the dial and redirect
  functions of the guarded client. Parsing an address, resolving a name and connecting are
  arguments.
\<close>

section \<open>Addresses\<close>

text \<open>\<open>netip.Addr\<close>: the zero value, an IPv4 address, an IPv6 address with its zone (empty for none).\<close>

datatype addr = NoAddr | V4 "32 word" | V6 "128 word" string

fun Is4In6 :: "addr \<Rightarrow> bool" where
  "Is4In6 (V6 a z) = (drop_bit 32 a = 0xffff)"
| "Is4In6 _ = False"

fun Unmap :: "addr \<Rightarrow> addr" where
  "Unmap (V6 a z) = (if Is4In6 (V6 a z) then V4 (ucast a) else V6 a z)"
| "Unmap a = a"

definition IsValid :: "addr \<Rightarrow> bool" where
  "IsValid a \<longleftrightarrow> a \<noteq> NoAddr"

definition IsUnspecified :: "addr \<Rightarrow> bool" where
  "IsUnspecified a \<longleftrightarrow> a = V4 0 \<or> a = V6 0 ''''"

fun IsLoopback :: "addr \<Rightarrow> bool" where
  "IsLoopback (V4 a) = (drop_bit 24 a = 127)"
| "IsLoopback (V6 a z) = (a = 1)"
| "IsLoopback NoAddr = False"

fun IsPrivate :: "addr \<Rightarrow> bool" where
  "IsPrivate (V4 a) = (drop_bit 24 a = 10
     \<or> (drop_bit 24 a = 172 \<and> drop_bit 16 a AND 0xf0 = 16)
     \<or> drop_bit 16 a = 0xc0a8)"
| "IsPrivate (V6 a z) = (drop_bit 120 a AND 0xfe = 0xfc)"
| "IsPrivate NoAddr = False"

fun IsLinkLocalUnicast :: "addr \<Rightarrow> bool" where
  "IsLinkLocalUnicast (V4 a) = (drop_bit 16 a = 0xa9fe)"
| "IsLinkLocalUnicast (V6 a z) = (drop_bit 112 a AND 0xffc0 = 0xfe80)"
| "IsLinkLocalUnicast NoAddr = False"

fun IsMulticast :: "addr \<Rightarrow> bool" where
  "IsMulticast (V4 a) = (drop_bit 24 a AND 0xf0 = 0xe0)"
| "IsMulticast (V6 a z) = (drop_bit 120 a = 0xff)"
| "IsMulticast NoAddr = False"

text \<open>\<open>netip.Prefix\<close> and \<open>Contains\<close>: an address with a zone is in no prefix.\<close>

datatype prefix = P4 "32 word" nat | P6 "128 word" nat

fun Contains :: "prefix \<Rightarrow> addr \<Rightarrow> bool" where
  "Contains (P4 p bits) (V4 a) = (drop_bit (32 - bits) (a XOR p) = 0)"
| "Contains (P6 p bits) (V6 a z) = (z = '''' \<and> (a XOR p) AND push_bit (128 - bits) (mask bits) = 0)"
| "Contains _ _ = False"

section \<open>The guard\<close>

definition ip4 :: "nat \<Rightarrow> nat \<Rightarrow> nat \<Rightarrow> nat \<Rightarrow> 32 word" where
  "ip4 a b c d = of_nat (((a * 256 + b) * 256 + c) * 256 + d)"

definition blockedPrefixes :: "prefix list" where
  "blockedPrefixes =
     [P4 (ip4 100 64 0 0) 10, P4 (ip4 198 18 0 0) 15, P4 (ip4 192 0 0 0) 24, P4 (ip4 192 0 2 0) 24,
      P4 (ip4 198 51 100 0) 24, P4 (ip4 203 0 113 0) 24, P4 (ip4 240 0 0 0) 4,
      P6 0x0064ff9b000000000000000000000000 96, P6 0x01000000000000000000000000000000 64,
      P6 0x20010000000000000000000000000000 23, P6 0x20010db8000000000000000000000000 32,
      P6 0x3fff0000000000000000000000000000 20]"

definition checkAddr :: "addr \<Rightarrow> goerr option" where
  "checkAddr addr0 =
     (let addr = Unmap addr0 in
      if \<not> IsValid addr \<or> IsUnspecified addr \<or> IsLoopback addr \<or> IsPrivate addr
         \<or> IsLinkLocalUnicast addr \<or> IsMulticast addr
      then Some ErrBlocked
      else if list_ex (\<lambda>p. Contains p addr) blockedPrefixes then Some ErrBlocked else None)"

text \<open>
  \<open>Check\<close>: \<open>parsed\<close> is the host read as an address, \<open>lookup\<close> what the resolver answers, \<open>text\<close>
  prints an address. The arrow in the message is three bytes of UTF-8.
\<close>

fun check_all :: "(addr \<Rightarrow> string) \<Rightarrow> string \<Rightarrow> addr list \<Rightarrow> goerr option" where
  "check_all text host [] = None"
| "check_all text host (a # as) =
     (case checkAddr a of
        Some e \<Rightarrow> Some (Wrapped (host @ '' '' @ [char_of (226::nat), char_of (134::nat), char_of (146::nat)] @ '' '' @ text a @ '': '') e)
      | None \<Rightarrow> check_all text host as)"

definition Check :: "(addr \<Rightarrow> string) \<Rightarrow> string \<Rightarrow> addr option \<Rightarrow> goerr + addr list \<Rightarrow> goerr option" where
  "Check text host parsed lookup =
     (case parsed of
        Some a \<Rightarrow> map_option (Wrapped (host @ '': '')) (checkAddr a)
      | None \<Rightarrow>
          (case lookup of
             Inl e \<Rightarrow> Some (Wrapped (''resolve '' @ host @ '': '') e)
           | Inr as \<Rightarrow>
               if as = [] then Some (LibError (''resolve '' @ host @ '': no addresses'') None None)
               else check_all text host as))"

text \<open>\<open>DialerControl\<close> on the address of the peer, split and parsed; \<open>quote\<close> is \<open>%q\<close>.\<close>

definition DialerControl :: "(string \<Rightarrow> string) \<Rightarrow> string \<Rightarrow> goerr + string \<Rightarrow> goerr + addr \<Rightarrow> goerr option" where
  "DialerControl quote address split parsed =
     (case split of
        Inl e \<Rightarrow> Some (Wrapped (''ssrfguard: parse '' @ quote address @ '': '') e)
      | Inr host \<Rightarrow>
          (case parsed of
             Inl e \<Rightarrow> Some (Wrapped (''ssrfguard: parse addr '' @ quote host @ '': '') e)
           | Inr a \<Rightarrow> map_option (Wrapped (''ssrfguard: '' @ host @ '': '')) (checkAddr a)))"

section \<open>The guarded client\<close>

text \<open>
  The transport's \<open>DialContext\<close>. \<open>dial\<close> is \<open>net.Dialer\<close>, which resolves the name again, calls its
  control function on the peer of each attempt and returns the peer it is connected to.
\<close>

definition DialContext :: "(string \<Rightarrow> string) \<Rightarrow> (addr \<Rightarrow> string) \<Rightarrow> ((addr \<Rightarrow> goerr option) \<Rightarrow> goerr + addr) \<Rightarrow> string \<Rightarrow> goerr + string
    \<Rightarrow> addr option \<Rightarrow> goerr + addr list \<Rightarrow> goerr + addr" where
  "DialContext quote text dial address split parsed lookup =
     (case split of
        Inl e \<Rightarrow> Inl e
      | Inr host \<Rightarrow>
          (case Check text host parsed lookup of
             Some e \<Rightarrow> Inl (UnreachableError address (Wrapped ''ssrfguard: '' e))
           | None \<Rightarrow>
               (case dial (\<lambda>a. DialerControl quote (text a) (Inr (text a)) (Inr a)) of
                  Inl e \<Rightarrow> Inl (UnreachableError address e)
                | Inr peer \<Rightarrow> Inr peer)))"

definition CheckRedirect :: "(addr \<Rightarrow> string) \<Rightarrow> nat \<Rightarrow> string \<Rightarrow> addr option \<Rightarrow> goerr + addr list \<Rightarrow> goerr option" where
  "CheckRedirect text via host parsed lookup =
     (if via \<ge> 10 then Some (LibError ''too many redirects'' None None) else Check text host parsed lookup)"

end
