(* ===== verification/Ssrf_Laws.thy ===== *)
theory Ssrf_Laws
  imports Ssrf
begin

text \<open>
  The guard against its specification: the addresses it lets through are exactly those outside
  lists of intervals, stated by their first and last address. What a zone does to that, and what
  it means for the connections of the guarded client.
\<close>

section \<open>Prefixes as intervals\<close>

lemma drop_bit_word_iff: "drop_bit k (x :: 'a::len word) = w \<longleftrightarrow> unat x div 2 ^ k = unat w"
  by (metis drop_bit_eq_div unat_drop_bit_eq word_unat_eq_iff)

lemma xor_high_zero: "drop_bit k (x XOR y :: 'a::len word) = 0 \<longleftrightarrow> drop_bit k x = drop_bit k y"
proof -
  have "u XOR v = 0 \<longleftrightarrow> u = v" for u v :: "'a word" by (auto simp: bit_eq_iff bit_simps)
  then show ?thesis by (simp add: drop_bit_xor)
qed

lemma and_push_mask: "(x :: 'a::len word) AND push_bit k (mask m) = push_bit k (take_bit m (drop_bit k x))"
  by (rule bit_word_eqI) (auto simp: bit_simps)

lemma div_interval: "(x :: nat) div d = q \<longleftrightarrow> q * d \<le> x \<and> x < q * d + d" if "0 < d"
  using that dividend_less_div_times [of d x] by (auto simp: ac_simps intro!: div_nat_eqI)

lemma unat_drop_div: "unat (drop_bit k (x :: 'a::len word)) = unat x div 2 ^ k"
  by (metis drop_bit_eq_div unat_drop_bit_eq)

lemma drop_bit_same_iff: "drop_bit k x = drop_bit k y \<longleftrightarrow> unat x div 2 ^ k = unat y div 2 ^ k" for x y :: "'a::len word"
  by (metis drop_bit_word_iff unat_drop_div)

lemma and_mask_iff:
  assumes "m + k \<le> LENGTH('a)" and "take_bit m w = w"
  shows "(x :: 'a::len word) AND push_bit k (mask m) = push_bit k w \<longleftrightarrow> unat x div 2 ^ k mod 2 ^ m = unat w"
proof -
  have inv: "drop_bit k (push_bit k u) = u" if "take_bit m u = u" for u :: "'a word"
  proof (rule bit_word_eqI)
    fix n assume "n < LENGTH('a)"
    moreover from that have "bit u n \<Longrightarrow> n < m" by (metis bit_take_bit_iff)
    ultimately show "bit (drop_bit k (push_bit k u)) n = bit u n" using assms(1) by (auto simp: bit_simps)
  qed
  have "x AND push_bit k (mask m) = push_bit k w \<longleftrightarrow> take_bit m (drop_bit k x) = w"
    unfolding and_push_mask using inv [of w] inv [of "take_bit m (drop_bit k x)"] assms(2) by auto
  also have "\<dots> \<longleftrightarrow> unat (take_bit m (drop_bit k x)) = unat w" by (metis word_unat_eq_iff)
  also have "unat (take_bit m (drop_bit k x)) = take_bit m (unat (drop_bit k x))" by (rule unsigned_take_bit_eq)
  also have "\<dots> = unat x div 2 ^ k mod 2 ^ m" by (simp only: unat_drop_div take_bit_eq_mod)
  finally show ?thesis .
qed

lemma contains4:
  "Contains (P4 p n) (V4 a) \<longleftrightarrow> unat a div 2 ^ (32 - n) = unat p div 2 ^ (32 - n)"
  by (simp only: Contains.simps xor_high_zero drop_bit_same_iff)

lemma contains6:
  assumes "n \<le> 128"
  shows "Contains (P6 p n) (V6 a z) \<longleftrightarrow> z = '''' \<and> unat a div 2 ^ (128 - n) = unat p div 2 ^ (128 - n)"
proof -
  let ?x = "a XOR p" and ?k = "128 - n"
  have "take_bit n (drop_bit ?k ?x) = drop_bit ?k ?x"
    using assms by (intro bit_word_eqI) (auto simp: bit_simps dest: bit_imp_le_length)
  then have "?x AND push_bit ?k (mask n) = push_bit ?k (drop_bit ?k ?x)"
    by (simp add: and_push_mask)
  moreover have "push_bit ?k (drop_bit ?k ?x) = 0 \<longleftrightarrow> drop_bit ?k ?x = 0"
  proof
    assume z: "push_bit ?k (drop_bit ?k ?x) = 0"
    have "drop_bit ?k (push_bit ?k (drop_bit ?k ?x)) = drop_bit ?k ?x"
      by (intro bit_word_eqI) (auto simp: bit_simps dest: bit_imp_le_length)
    with z show "drop_bit ?k ?x = 0" by simp
  qed simp
  ultimately show ?thesis
    by (simp only: Contains.simps xor_high_zero drop_bit_same_iff)
qed

section \<open>The specification\<close>

definition quad :: "nat \<times> nat \<times> nat \<times> nat \<Rightarrow> nat" where
  "quad = (\<lambda>(a, b, c, d). ((a * 256 + b) * 256 + c) * 256 + d)"

text \<open>The first and last address of each IPv4 range that is not public.\<close>

definition special4 :: "((nat \<times> nat \<times> nat \<times> nat) \<times> (nat \<times> nat \<times> nat \<times> nat)) list" where
  "special4 =
     [((0, 0, 0, 0), (0, 0, 0, 0)), ((10, 0, 0, 0), (10, 255, 255, 255)), ((100, 64, 0, 0), (100, 127, 255, 255)),
      ((127, 0, 0, 0), (127, 255, 255, 255)), ((169, 254, 0, 0), (169, 254, 255, 255)),
      ((172, 16, 0, 0), (172, 31, 255, 255)), ((192, 0, 0, 0), (192, 0, 0, 255)), ((192, 0, 2, 0), (192, 0, 2, 255)),
      ((192, 168, 0, 0), (192, 168, 255, 255)), ((198, 18, 0, 0), (198, 19, 255, 255)),
      ((198, 51, 100, 0), (198, 51, 100, 255)), ((203, 0, 113, 0), (203, 0, 113, 255)),
      ((224, 0, 0, 0), (239, 255, 255, 255)), ((240, 0, 0, 0), (255, 255, 255, 255))]"

definition public4 :: "32 word \<Rightarrow> bool" where
  "public4 a \<longleftrightarrow> (\<forall>(lo, hi) \<in> set special4. unat a < quad lo \<or> quad hi < unat a)"

lemma unat_lt_4: "unat (a :: 32 word) < 4294967296"
  using unsigned_less [of a, where 'a = nat] by simp

lemma v4_predicates:
  "IsLoopback (V4 a) \<longleftrightarrow> unat a div 16777216 = 127"
  "IsLinkLocalUnicast (V4 a) \<longleftrightarrow> unat a div 65536 = 43518"
  "IsPrivate (V4 a) \<longleftrightarrow> unat a div 16777216 = 10 \<or> unat a div 1048576 = 2753 \<or> unat a div 65536 = 49320"
  "IsMulticast (V4 a) \<longleftrightarrow> unat a div 268435456 = 14"
proof -
  have p: "(0xf0 :: 32 word) = push_bit 4 (mask 4)" "(16 :: 32 word) = push_bit 4 1" "(0xe0 :: 32 word) = push_bit 4 14"
    by (simp_all add: mask_eq_exp_minus_1 push_bit_eq_mult)
  have t: "take_bit 4 (1 :: 32 word) = 1" "take_bit 4 (14 :: 32 word) = 14" by (simp_all add: take_bit_eq_mod)
  have q: "q div 16 = 172 \<and> q mod 16 = 1 \<longleftrightarrow> q = 2753" for q :: nat by presburger
  have a: "unat (drop_bit 16 a) div 2 ^ 4 mod 2 ^ 4 = (unat a div 1048576) mod 16"
    "unat (drop_bit 24 a) div 2 ^ 4 mod 2 ^ 4 = (unat a div 268435456) mod 16"
    by (simp_all add: unat_drop_div div_mult2_eq [symmetric])
  show "IsLoopback (V4 a) \<longleftrightarrow> unat a div 16777216 = 127"
    "IsLinkLocalUnicast (V4 a) \<longleftrightarrow> unat a div 65536 = 43518"
    by (simp_all add: drop_bit_word_iff)
  have "drop_bit 16 a AND 0xf0 = 16 \<longleftrightarrow> (unat a div 1048576) mod 16 = 1"
    unfolding p by (subst and_mask_iff) (simp_all only: t a, simp_all)
  moreover have "unat a div 16777216 = unat a div 1048576 div 16" by (simp add: div_mult2_eq [symmetric])
  then have "unat a div 16777216 = 172 \<and> (unat a div 1048576) mod 16 = 1 \<longleftrightarrow> unat a div 1048576 = 2753"
    using q by simp
  ultimately show "IsPrivate (V4 a) \<longleftrightarrow> unat a div 16777216 = 10 \<or> unat a div 1048576 = 2753 \<or> unat a div 65536 = 49320"
    by (simp add: drop_bit_word_iff)
  have "drop_bit 24 a AND 0xf0 = 0xe0 \<longleftrightarrow> (unat a div 268435456) mod 16 = 14"
    unfolding p by (subst and_mask_iff) (simp_all only: t a, simp_all)
  moreover have "unat a div 268435456 < 16" using unat_lt_4 [of a] by (simp add: less_mult_imp_div_less)
  ultimately show "IsMulticast (V4 a) \<longleftrightarrow> unat a div 268435456 = 14" by simp
qed

lemma contains_blocked4:
  "list_ex (\<lambda>p. Contains p (V4 a)) blockedPrefixes \<longleftrightarrow>
     unat a div 4194304 = 401 \<or> unat a div 131072 = 25353 \<or> unat a div 256 = 12582912 \<or> unat a div 256 = 12582914
     \<or> unat a div 256 = 12989284 \<or> unat a div 256 = 13303921 \<or> unat a div 268435456 = 15"
  unfolding blockedPrefixes_def ip4_def by (simp add: contains4 del: Contains.simps(1)) 

lemma outside_iff: "0 < d \<Longrightarrow> (x < q * d \<or> q * d + d - 1 < x) \<longleftrightarrow> x div d \<noteq> (q :: nat)"
  by (auto simp: div_interval)

lemma public4_iff: "public4 a \<longleftrightarrow> unat a \<noteq> 0 \<and> unat a div 16777216 \<noteq> 10 \<and> unat a div 4194304 \<noteq> 401
    \<and> unat a div 16777216 \<noteq> 127 \<and> unat a div 65536 \<noteq> 43518 \<and> unat a div 1048576 \<noteq> 2753
    \<and> unat a div 256 \<noteq> 12582912 \<and> unat a div 256 \<noteq> 12582914 \<and> unat a div 65536 \<noteq> 49320
    \<and> unat a div 131072 \<noteq> 25353 \<and> unat a div 256 \<noteq> 12989284 \<and> unat a div 256 \<noteq> 13303921
    \<and> unat a div 268435456 \<noteq> 14 \<and> unat a div 268435456 \<noteq> 15"
  using outside_iff [of 16777216 "unat a" 10] outside_iff [of 4194304 "unat a" 401] outside_iff [of 16777216 "unat a" 127]
    outside_iff [of 65536 "unat a" 43518] outside_iff [of 1048576 "unat a" 2753] outside_iff [of 256 "unat a" 12582912]
    outside_iff [of 256 "unat a" 12582914] outside_iff [of 65536 "unat a" 49320] outside_iff [of 131072 "unat a" 25353]
    outside_iff [of 256 "unat a" 12989284] outside_iff [of 256 "unat a" 13303921]
    outside_iff [of 268435456 "unat a" 14] outside_iff [of 268435456 "unat a" 15]
  by (simp add: public4_def special4_def quad_def)

lemma checkAddr_V4: "checkAddr (V4 a) = None \<longleftrightarrow> public4 a"
proof -
  have u: "IsUnspecified (V4 a) \<longleftrightarrow> unat a = 0" by (simp add: IsUnspecified_def unat_eq_0)
  show ?thesis
    unfolding checkAddr_def Let_def Unmap.simps v4_predicates u contains_blocked4 public4_iff
    by (simp add: IsValid_def)
qed

definition hextets :: "nat list \<Rightarrow> nat" where
  "hextets hs = foldl (\<lambda>n h. n * 65536 + h) 0 hs"

text \<open>
  The same for IPv6, each range cut to whole addresses: loopback, unique local, link-local and
  multicast; then the unspecified address and the special-purpose ranges.
\<close>

definition scoped6 :: "(nat list \<times> nat list) list" where
  "scoped6 =
     [([0, 0, 0, 0, 0, 0, 0, 1], [0, 0, 0, 0, 0, 0, 0, 1]),
      ([0xfc00, 0, 0, 0, 0, 0, 0, 0], [0xfdff, 0xffff, 0xffff, 0xffff, 0xffff, 0xffff, 0xffff, 0xffff]),
      ([0xfe80, 0, 0, 0, 0, 0, 0, 0], [0xfebf, 0xffff, 0xffff, 0xffff, 0xffff, 0xffff, 0xffff, 0xffff]),
      ([0xff00, 0, 0, 0, 0, 0, 0, 0], [0xffff, 0xffff, 0xffff, 0xffff, 0xffff, 0xffff, 0xffff, 0xffff])]"

definition special6 :: "(nat list \<times> nat list) list" where
  "special6 =
     [([0, 0, 0, 0, 0, 0, 0, 0], [0, 0, 0, 0, 0, 0, 0, 0]),
      ([0x64, 0xff9b, 0, 0, 0, 0, 0, 0], [0x64, 0xff9b, 0, 0, 0, 0, 0xffff, 0xffff]),
      ([0x100, 0, 0, 0, 0, 0, 0, 0], [0x100, 0, 0, 0, 0xffff, 0xffff, 0xffff, 0xffff]),
      ([0x2001, 0, 0, 0, 0, 0, 0, 0], [0x2001, 0x1ff, 0xffff, 0xffff, 0xffff, 0xffff, 0xffff, 0xffff]),
      ([0x2001, 0xdb8, 0, 0, 0, 0, 0, 0], [0x2001, 0xdb8, 0xffff, 0xffff, 0xffff, 0xffff, 0xffff, 0xffff]),
      ([0x3fff, 0, 0, 0, 0, 0, 0, 0], [0x3fff, 0xfff, 0xffff, 0xffff, 0xffff, 0xffff, 0xffff, 0xffff])]"

definition outside6 :: "(nat list \<times> nat list) list \<Rightarrow> 128 word \<Rightarrow> bool" where
  "outside6 rs a \<longleftrightarrow> (\<forall>(lo, hi) \<in> set rs. unat a < hextets lo \<or> hextets hi < unat a)"

fun public :: "addr \<Rightarrow> bool" where
  "public NoAddr = False"
| "public (V4 a) = public4 a"
| "public (V6 a z) =
     (if drop_bit 32 a = 0xffff then public4 (ucast a) else outside6 (scoped6 @ special6) a)"

lemma unat_lt_6: "unat (a :: 128 word) < 2 ^ 128"
  using unsigned_less [of a, where 'a = nat] by simp

lemma v6_predicates:
  "IsLoopback (V6 a z) \<longleftrightarrow> unat a = 1"
  "IsPrivate (V6 a z) \<longleftrightarrow> unat a div 2 ^ 121 = 126"
  "IsLinkLocalUnicast (V6 a z) \<longleftrightarrow> unat a div 2 ^ 118 = 1018"
  "IsMulticast (V6 a z) \<longleftrightarrow> unat a div 2 ^ 120 = 255"
proof -
  have p: "(0xfe :: 128 word) = push_bit 1 (mask 7)" "(0xfc :: 128 word) = push_bit 1 126"
    "(0xffc0 :: 128 word) = push_bit 6 (mask 10)" "(0xfe80 :: 128 word) = push_bit 6 1018"
    by (simp_all add: mask_eq_exp_minus_1 push_bit_eq_mult)
  have t: "take_bit 7 (126 :: 128 word) = 126" "take_bit 10 (1018 :: 128 word) = 1018" by (simp_all add: take_bit_eq_mod)
  have a: "unat (drop_bit 120 a) div 2 ^ 1 mod 2 ^ 7 = (unat a div 2 ^ 121) mod 2 ^ 7"
    "unat (drop_bit 112 a) div 2 ^ 6 mod 2 ^ 10 = (unat a div 2 ^ 118) mod 2 ^ 10"
    by (simp_all only: unat_drop_div div_mult2_eq [symmetric] power_add [symmetric]) simp_all
  have b: "unat a div 2 ^ 121 < 2 ^ 7" "unat a div 2 ^ 118 < 2 ^ 10"
    using unat_lt_6 [of a] by (simp_all add: less_mult_imp_div_less)
  show "IsLoopback (V6 a z) \<longleftrightarrow> unat a = 1" by (simp add: word_unat_eq_iff)
  show "IsMulticast (V6 a z) \<longleftrightarrow> unat a div 2 ^ 120 = 255" by (simp add: drop_bit_word_iff)
  have "drop_bit 120 a AND 0xfe = 0xfc \<longleftrightarrow> (unat a div 2 ^ 121) mod 2 ^ 7 = 126"
    unfolding p by (subst and_mask_iff) (simp_all only: t a, simp_all)
  with b(1) show "IsPrivate (V6 a z) \<longleftrightarrow> unat a div 2 ^ 121 = 126" by simp
  have "drop_bit 112 a AND 0xffc0 = 0xfe80 \<longleftrightarrow> (unat a div 2 ^ 118) mod 2 ^ 10 = 1018"
    unfolding p by (subst and_mask_iff) (simp_all only: t a, simp_all)
  with b(2) show "IsLinkLocalUnicast (V6 a z) \<longleftrightarrow> unat a div 2 ^ 118 = 1018" by simp
qed

lemma contains_blocked6:
  "list_ex (\<lambda>p. Contains p (V6 a z)) blockedPrefixes \<longleftrightarrow> z = '''' \<and>
     (unat a div 2 ^ 32 = 0x64ff9b0000000000000000 \<or> unat a div 2 ^ 64 = 0x100000000000000 \<or> unat a div 2 ^ 105 = 0x100080
      \<or> unat a div 2 ^ 96 = 0x20010db8 \<or> unat a div 2 ^ 108 = 0x3fff0)"
  unfolding blockedPrefixes_def by (auto simp add: contains6 simp del: Contains.simps(2))

lemma scoped6_iff: "outside6 scoped6 a \<longleftrightarrow> unat a \<noteq> 1 \<and> unat a div 2 ^ 121 \<noteq> 126 \<and> unat a div 2 ^ 118 \<noteq> 1018
    \<and> unat a div 2 ^ 120 \<noteq> 255"
  using outside_iff [of "2 ^ 121" "unat a" 126] outside_iff [of "2 ^ 118" "unat a" 1018] outside_iff [of "2 ^ 120" "unat a" 255]
    outside_iff [of 1 "unat a" 1]
  by (simp add: outside6_def scoped6_def hextets_def)

lemma special6_iff: "outside6 special6 a \<longleftrightarrow> unat a \<noteq> 0 \<and> unat a div 2 ^ 32 \<noteq> 0x64ff9b0000000000000000
    \<and> unat a div 2 ^ 64 \<noteq> 0x100000000000000 \<and> unat a div 2 ^ 105 \<noteq> 0x100080
    \<and> unat a div 2 ^ 96 \<noteq> 0x20010db8 \<and> unat a div 2 ^ 108 \<noteq> 0x3fff0"
  using outside_iff [of "2 ^ 32" "unat a" "0x64ff9b0000000000000000"] outside_iff [of "2 ^ 64" "unat a" "0x100000000000000"]
    outside_iff [of "2 ^ 105" "unat a" "0x100080"] outside_iff [of "2 ^ 96" "unat a" "0x20010db8"]
    outside_iff [of "2 ^ 108" "unat a" "0x3fff0"]
  by (simp add: outside6_def special6_def hextets_def)

lemma checkAddr_None: "checkAddr a = None \<longleftrightarrow>
    IsValid (Unmap a) \<and> \<not> IsUnspecified (Unmap a) \<and> \<not> IsLoopback (Unmap a) \<and> \<not> IsPrivate (Unmap a)
    \<and> \<not> IsLinkLocalUnicast (Unmap a) \<and> \<not> IsMulticast (Unmap a)
    \<and> \<not> list_ex (\<lambda>p. Contains p (Unmap a)) blockedPrefixes"
  by (simp add: checkAddr_def Let_def)

lemma checkAddr_V6:
  "checkAddr (V6 a z) = None \<longleftrightarrow>
     (if drop_bit 32 a = 0xffff then public4 (ucast a)
      else outside6 scoped6 a \<and> (z = '''' \<longrightarrow> outside6 special6 a))"
proof (cases "drop_bit 32 a = 0xffff")
  case True
  then have "checkAddr (V6 a z) = checkAddr (V4 (ucast a))" by (simp add: checkAddr_def)
  with True show ?thesis by (simp add: checkAddr_V4)
next
  case False
  then have m: "Unmap (V6 a z) = V6 a z" by simp
  have u: "IsUnspecified (V6 a z) \<longleftrightarrow> unat a = 0 \<and> z = ''''" by (auto simp: IsUnspecified_def unat_eq_0)
  have v: "IsValid (V6 a z) \<longleftrightarrow> True" by (simp add: IsValid_def)
  show ?thesis
    unfolding checkAddr_None m u v v6_predicates contains_blocked6 scoped6_iff special6_iff if_not_P [OF False]
    by argo
qed

section \<open>What the guard lets through\<close>

fun zoned :: "addr \<Rightarrow> bool" where
  "zoned (V6 a z) = (z \<noteq> '''')"
| "zoned _ = False"

lemma outside6_append: "outside6 (rs @ ss) a \<longleftrightarrow> outside6 rs a \<and> outside6 ss a"
  by (auto simp: outside6_def)

lemma guard_exact: "\<not> zoned a \<Longrightarrow> checkAddr a = None \<longleftrightarrow> public a"
  by (cases a) (auto simp: checkAddr_V4 checkAddr_V6 outside6_append, auto simp: checkAddr_def IsValid_def)

text \<open>
  Property C19. An address without a zone is let through exactly when it lies outside every
  special-purpose range, an IPv4 address inside an IPv6 one judged as the IPv4 address it is.
\<close>

lemma guard_is_exact:
  assumes "\<not> zoned a"
  shows "checkAddr a = None \<longleftrightarrow> public a"
  using assms by (rule guard_exact)

lemma guard_is_exact_witness: "checkAddr (V4 (ip4 169 254 169 254)) \<noteq> None \<and> checkAddr (V4 (ip4 8 8 8 8)) = None"
  by (subst (1 2) guard_is_exact) (simp_all add: public4_iff ip4_def)

text \<open>The special-purpose ranges of IPv6 lie apart from the ones whose check looks at no zone.\<close>

lemma special6_apart:
  assumes "\<not> outside6 special6 a"
  shows "outside6 scoped6 a" and "drop_bit 32 a \<noteq> 0xffff"
proof -
  have "unat a = 0 \<or> unat a div 2 ^ 32 = 0x64ff9b0000000000000000 \<or> unat a div 2 ^ 64 = 0x100000000000000
      \<or> unat a div 2 ^ 105 = 0x100080 \<or> unat a div 2 ^ 96 = 0x20010db8 \<or> unat a div 2 ^ 108 = 0x3fff0"
    using assms special6_iff by blast
  then show "outside6 scoped6 a" "drop_bit 32 a \<noteq> 0xffff"
    by (auto simp: scoped6_iff drop_bit_word_iff div_interval)
qed

text \<open>
  Property C20. A zone lets special-purpose addresses through, exactly those of the ranges that are compared as prefixes
  or with the one unspecified address: \<open>::\<close>, \<open>64:ff9b::/96\<close>, \<open>100::/64\<close>, \<open>2001::/23\<close>, \<open>2001:db8::/32\<close> and
  \<open>3fff::/20\<close>. Each of them is refused without a zone and allowed with any; for no other address does a zone turn a
  refusal into a permission.
\<close>

lemma zone_passes_the_guard:
  assumes "z \<noteq> ''''"
  shows "checkAddr (V6 a '''') = Some ErrBlocked \<and> checkAddr (V6 a z) = None \<longleftrightarrow>
     (\<exists>(first, final) \<in> set [([0, 0, 0, 0, 0, 0, 0, 0], [0, 0, 0, 0, 0, 0, 0, 0]),
        ([0x64, 0xff9b, 0, 0, 0, 0, 0, 0], [0x64, 0xff9b, 0, 0, 0, 0, 0xffff, 0xffff]),
        ([0x100, 0, 0, 0, 0, 0, 0, 0], [0x100, 0, 0, 0, 0xffff, 0xffff, 0xffff, 0xffff]),
        ([0x2001, 0, 0, 0, 0, 0, 0, 0], [0x2001, 0x1ff, 0xffff, 0xffff, 0xffff, 0xffff, 0xffff, 0xffff]),
        ([0x2001, 0xdb8, 0, 0, 0, 0, 0, 0], [0x2001, 0xdb8, 0xffff, 0xffff, 0xffff, 0xffff, 0xffff, 0xffff]),
        ([0x3fff, 0, 0, 0, 0, 0, 0, 0], [0x3fff, 0xfff, 0xffff, 0xffff, 0xffff, 0xffff, 0xffff, 0xffff])].
        hextets first \<le> unat a \<and> unat a \<le> hextets final)"
proof -
  have blocked: "checkAddr b = Some ErrBlocked \<longleftrightarrow> checkAddr b \<noteq> None" for b
    unfolding checkAddr_def Let_def by (simp del: not_None_eq split del: if_split split: if_split)
  have "checkAddr (V6 a '''') = Some ErrBlocked \<and> checkAddr (V6 a z) = None \<longleftrightarrow> \<not> outside6 special6 a"
    unfolding blocked checkAddr_V6 using assms special6_apart [of a] by (simp del: not_None_eq) blast
  also have "\<dots> \<longleftrightarrow> (\<exists>(first, final) \<in> set special6. hextets first \<le> unat a \<and> unat a \<le> hextets final)"
    by (simp only: outside6_def case_prod_unfold ball_simps not_less de_Morgan_disj bex_simps)
  finally show ?thesis unfolding special6_def .
qed

lemma zone_passes_the_guard_witness: "checkAddr (V6 0 ''lo'') = None"
  using zone_passes_the_guard [of "''lo''" 0] by (simp add: hextets_def)

section \<open>The guarded client\<close>

lemma check_all_None: "check_all text host as = None \<longleftrightarrow> (\<forall>a \<in> set as. checkAddr a = None)"
  by (induction as) (auto split: option.split)

lemma Check_None:
  "Check text host parsed lookup = None \<longleftrightarrow>
     (case parsed of Some a \<Rightarrow> checkAddr a = None
      | None \<Rightarrow> \<exists>as. lookup = Inr as \<and> as \<noteq> [] \<and> (\<forall>a \<in> set as. checkAddr a = None))"
  by (auto simp: Check_def check_all_None split: option.split sum.split)

lemma control_None: "DialerControl quote address (Inr host) (Inr a) = None \<longleftrightarrow> checkAddr a = None"
  by (simp add: DialerControl_def)

text \<open>
  Property C18. Whatever the resolver answers, and answers again when the dialer asks it, a guarded
  connection is to an address the guard lets through; every refusal names the address as dialed,
  the endpoint \<open>fetchFlight\<close> marks. Of \<open>net.Dialer\<close> it relies on one documented thing: a connection
  is made only to a peer its control function accepted.
\<close>

lemma guarded_connections:
  assumes dialer: "\<And>control peer. dial control = Inr peer \<Longrightarrow> control peer = None"
  shows "case DialContext quote text dial address (Inr host) parsed lookup of
           Inr peer \<Rightarrow> checkAddr peer = None \<and> (\<not> zoned peer \<longrightarrow> public peer)
         | Inl e \<Rightarrow> \<exists>e'. e = UnreachableError address e'"
proof (cases "DialContext quote text dial address (Inr host) parsed lookup")
  case (Inl e)
  then show ?thesis by (auto simp: DialContext_def split: option.splits sum.splits)
next
  case (Inr peer)
  then have "dial (\<lambda>a. DialerControl quote (text a) (Inr (text a)) (Inr a)) = Inr peer"
    by (auto simp: DialContext_def split: option.splits sum.splits)
  from dialer [OF this] have "checkAddr peer = None" by (simp add: control_None)
  with Inr show ?thesis by (cases "zoned peer") (auto simp: guard_exact)
qed

text \<open>A name that resolves to a public address when checked and to localhost when dialed.\<close>

definition dial_peer :: "addr \<Rightarrow> (addr \<Rightarrow> goerr option) \<Rightarrow> goerr + addr" where
  "dial_peer a control = (case control a of Some e \<Rightarrow> Inl e | None \<Rightarrow> Inr a)"

lemma guarded_connections_witness:
  "\<exists>e. DialContext (\<lambda>x. x) (\<lambda>_. ''a'') (dial_peer (V4 (ip4 127 0 0 1))) ''a:80'' (Inr ''a'') None (Inr [V4 (ip4 8 8 8 8)])
     = Inl (UnreachableError ''a:80'' e)"
proof -
  have "\<And>control peer. dial_peer (V4 (ip4 127 0 0 1)) control = Inr peer \<Longrightarrow> control peer = None"
    by (auto simp: dial_peer_def split: option.splits)
  then have "case DialContext (\<lambda>x. x) (\<lambda>_. ''a'') (dial_peer (V4 (ip4 127 0 0 1))) ''a:80'' (Inr ''a'') None (Inr [V4 (ip4 8 8 8 8)])
    of Inr peer \<Rightarrow> checkAddr peer = None \<and> (\<not> zoned peer \<longrightarrow> public peer) | Inl e \<Rightarrow> \<exists>e'. e = UnreachableError ''a:80'' e'"
    by (rule guarded_connections)
  then have "case DialContext (\<lambda>x. x) (\<lambda>_. ''a'') (dial_peer (V4 (ip4 127 0 0 1))) ''a:80'' (Inr ''a'') None (Inr [V4 (ip4 8 8 8 8)])
    of Inr peer \<Rightarrow> checkAddr peer = None | Inl e \<Rightarrow> \<exists>e'. e = UnreachableError ''a:80'' e'"
    by (auto split: sum.splits)
  moreover have "checkAddr (V4 (ip4 127 0 0 1)) \<noteq> None" by (simp add: checkAddr_V4 public4_iff ip4_def)
  ultimately show ?thesis
    by (auto simp: DialContext_def dial_peer_def DialerControl_def split: option.splits sum.splits)
qed

end
