(* ===== verification/Idp.thy ===== *)
theory Idp
  imports Limits
begin

text \<open>
  The scope of a CRL (internal/pki/idp.go): \<open>covers\<close>, and the parser of the
  issuingDistributionPoint extension. The readers of \<open>cryptobyte\<close> are arguments; each returns the
  contents of the element it read and the bytes after it. The parser's loops take fuel; the theory
  Idp_Laws shows that the length of the input is enough.
\<close>

type_synonym tag = byte

record readers =
  ReadAnyASN1 :: "bytes \<Rightarrow> (tag \<times> bytes \<times> bytes) option"
  ReadASN1 :: "bytes \<Rightarrow> tag \<Rightarrow> (bytes \<times> bytes) option"
  SkipOptionalASN1 :: "bytes \<Rightarrow> tag \<Rightarrow> bytes option"

definition SEQUENCE :: tag where "SEQUENCE = 0x30"
definition OBJECT_IDENTIFIER :: tag where "OBJECT_IDENTIFIER = 0x06"
definition BOOLEAN :: tag where "BOOLEAN = 0x01"
definition OCTET_STRING :: tag where "OCTET_STRING = 0x04"

text \<open>\<open>Tag(n).ContextSpecific()\<close> and \<open>Tag(n).Constructed().ContextSpecific()\<close>.\<close>

definition ctx_tag :: "tag \<Rightarrow> tag" where "ctx_tag n = 0x80 + n"
definition ctx_cons_tag :: "tag \<Rightarrow> tag" where "ctx_cons_tag n = 0xa0 + n"

record idpScope =
  HasDP :: bool
  URIs :: "string list"
  OnlyUser :: bool
  OnlyCA :: bool
  OnlyAttr :: bool
  SomeReasons :: bool
  Indirect :: bool

definition no_scope :: idpScope where
  "no_scope = \<lparr>HasDP = False, URIs = [], OnlyUser = False, OnlyCA = False, OnlyAttr = False,
     SomeReasons = False, Indirect = False\<rparr>"

fun uri_in :: "string list \<Rightarrow> string list \<Rightarrow> bool" where
  "uri_in [] cdpURLs = False"
| "uri_in (u # us) cdpURLs = (if u \<in> set cdpURLs then True else uri_in us cdpURLs)"

definition covers :: "idpScope \<Rightarrow> string list \<Rightarrow> bool \<Rightarrow> bool" where
  "covers i cdpURLs isCA =
     (if SomeReasons i \<or> Indirect i \<or> OnlyAttr i \<or> (OnlyUser i \<and> isCA) \<or> (OnlyCA i \<and> \<not> isCA) then False
      else if \<not> HasDP i then True
      else uri_in (URIs i) cdpURLs)"

section \<open>The parser\<close>

datatype idp_error = MalformedCRL | MalformedIDP

text \<open>A Go string of bytes.\<close>

definition string_of :: "bytes \<Rightarrow> string" where
  "string_of bs = map (\<lambda>b. char_of (unat b)) bs"

definition flag :: "bytes \<Rightarrow> bool" where
  "flag field \<longleftrightarrow> (case field of [b] \<Rightarrow> b \<noteq> 0 | _ \<Rightarrow> False)"

text \<open>The loop over the general names of a fullName. \<open>None\<close> is running out of fuel.\<close>

fun parse_names :: "nat \<Rightarrow> readers \<Rightarrow> bytes \<Rightarrow> string list \<Rightarrow> (idp_error + string list) option" where
  "parse_names fuel rd [] uris = Some (Inr uris)"
| "parse_names 0 rd names uris = None"
| "parse_names (Suc fuel) rd names uris =
     (case ReadAnyASN1 rd names of
        None \<Rightarrow> Some (Inl MalformedIDP)
      | Some (t, name, names') \<Rightarrow>
          parse_names fuel rd names' (if t = ctx_tag 6 then uris @ [string_of name] else uris))"

fun parse_fields :: "nat \<Rightarrow> readers \<Rightarrow> bytes \<Rightarrow> idpScope \<Rightarrow> (idp_error + idpScope) option" where
  "parse_fields fuel rd [] idp = Some (Inr idp)"
| "parse_fields 0 rd s idp = None"
| "parse_fields (Suc fuel) rd s idp =
     (case ReadAnyASN1 rd s of
        None \<Rightarrow> Some (Inl MalformedIDP)
      | Some (t, field, s') \<Rightarrow>
          if t = ctx_cons_tag 0 then
            (case ReadASN1 rd field (ctx_cons_tag 0) of
               None \<Rightarrow> parse_fields fuel rd s' (idp\<lparr>HasDP := True\<rparr>)
             | Some (names, _) \<Rightarrow>
                 (case parse_names fuel rd names (URIs idp) of
                    None \<Rightarrow> None
                  | Some (Inl e) \<Rightarrow> Some (Inl e)
                  | Some (Inr us) \<Rightarrow> parse_fields fuel rd s' (idp\<lparr>HasDP := True, URIs := us\<rparr>)))
          else if t = ctx_tag 1 then parse_fields fuel rd s' (idp\<lparr>OnlyUser := flag field\<rparr>)
          else if t = ctx_tag 2 then parse_fields fuel rd s' (idp\<lparr>OnlyCA := flag field\<rparr>)
          else if t = ctx_tag 3 then parse_fields fuel rd s' (idp\<lparr>SomeReasons := True\<rparr>)
          else if t = ctx_tag 4 then parse_fields fuel rd s' (idp\<lparr>Indirect := flag field\<rparr>)
          else if t = ctx_tag 5 then parse_fields fuel rd s' (idp\<lparr>OnlyAttr := flag field\<rparr>)
          else parse_fields fuel rd s' idp)"

definition parseIDPValue :: "readers \<Rightarrow> bytes \<Rightarrow> (idp_error + idpScope) option" where
  "parseIDPValue rd value =
     (case ReadASN1 rd value SEQUENCE of
        None \<Rightarrow> Some (Inl MalformedIDP)
      | Some (s, _) \<Rightarrow> parse_fields (length value) rd s no_scope)"

definition oidIDP :: bytes where "oidIDP = [0x55, 0x1d, 0x1c]"

text \<open>The loop over the elements of the tbsCertList: the contents of the last extensions element.\<close>

fun find_exts :: "nat \<Rightarrow> readers \<Rightarrow> bytes \<Rightarrow> bytes option \<Rightarrow> (idp_error + bytes option) option" where
  "find_exts fuel rd [] exts = Some (Inr exts)"
| "find_exts 0 rd tbs exts = None"
| "find_exts (Suc fuel) rd tbs exts =
     (case ReadAnyASN1 rd tbs of
        None \<Rightarrow> Some (Inl MalformedCRL)
      | Some (t, elem, tbs') \<Rightarrow>
          if t = ctx_cons_tag 0 then
            (case ReadASN1 rd elem SEQUENCE of
               None \<Rightarrow> Some (Inl MalformedCRL)
             | Some (x, _) \<Rightarrow> find_exts fuel rd tbs' (Some x))
          else find_exts fuel rd tbs' exts)"

text \<open>One extension: its oid, its value, and the extensions after it.\<close>

definition read_ext :: "readers \<Rightarrow> bytes \<Rightarrow> (bytes \<times> bytes \<times> bytes) option" where
  "read_ext rd exts =
     (case ReadASN1 rd exts SEQUENCE of None \<Rightarrow> None
      | Some (ext, exts') \<Rightarrow>
          (case ReadASN1 rd ext OBJECT_IDENTIFIER of None \<Rightarrow> None
           | Some (oid, ext1) \<Rightarrow>
               (case SkipOptionalASN1 rd ext1 BOOLEAN of None \<Rightarrow> None
                | Some ext2 \<Rightarrow>
                    (case ReadASN1 rd ext2 OCTET_STRING of None \<Rightarrow> None
                     | Some (value, _) \<Rightarrow> Some (oid, value, exts')))))"

fun scan_exts :: "nat \<Rightarrow> readers \<Rightarrow> bytes \<Rightarrow> (idp_error + idpScope option) option" where
  "scan_exts fuel rd [] = Some (Inr None)"
| "scan_exts 0 rd exts = None"
| "scan_exts (Suc fuel) rd exts =
     (case read_ext rd exts of
        None \<Rightarrow> Some (Inl MalformedCRL)
      | Some (oid, value, exts') \<Rightarrow>
          if oid = oidIDP then map_option (map_sum id Some) (parseIDPValue rd value)
          else scan_exts fuel rd exts')"

definition parseIDP :: "readers \<Rightarrow> bytes \<Rightarrow> (idp_error + idpScope option) option" where
  "parseIDP rd crl =
     (case ReadASN1 rd crl SEQUENCE of None \<Rightarrow> Some (Inl MalformedCRL)
      | Some (lst, _) \<Rightarrow>
          (case ReadASN1 rd lst SEQUENCE of None \<Rightarrow> Some (Inl MalformedCRL)
           | Some (tbs, _) \<Rightarrow>
               (case find_exts (length crl) rd tbs None of
                  None \<Rightarrow> None
                | Some (Inl e) \<Rightarrow> Some (Inl e)
                | Some (Inr None) \<Rightarrow> Some (Inr None)
                | Some (Inr (Some exts)) \<Rightarrow> scan_exts (length crl) rd exts)))"

end
