(* ===== verification/Pki.thy ===== *)
theory Pki
  imports Limits
begin

unbundle bit_operations_syntax

text \<open>
  The binding to the C library minipki (internal/pki/pki.go). The library is an argument: a record of
  its functions on opaque handles, \<open>'c\<close> for a parsed certificate, \<open>'l\<close> for a CRL, \<open>'o\<close> for an OCSP
  response and \<open>'s\<close> for a verification store. A getter is \<open>None\<close> when it does not return \<open>MP_OK\<close>.
  Modelled is what the Go code makes of them: which getter fills which field and on which
  conditions, the defaults left in place, the errors and their texts, and the panics of \<open>&r[0]\<close> on
  an empty slice.
\<close>

section \<open>The library\<close>

text \<open>The library's result codes; any other value is \<open>MP_OTHER\<close>.\<close>

datatype mp_rc = MP_OK | MP_ERR_INVALID_ARG | MP_ERR_PARSE | MP_ERR_VERIFY | MP_ERR_EXPIRED | MP_ERR_REVOKED
  | MP_ERR_NO_CHAIN | MP_ERR_NO_CRL | MP_ERR_OPENSSL | MP_ERR_UNEXPECTED | MP_OTHER int

datatype ocsp_code = MP_OCSP_GOOD | MP_OCSP_REVOKED | MP_OCSP_OTHER int

record 'c cert_getters =
  mp_cert_subject :: "'c \<Rightarrow> string option"
  mp_cert_issuer :: "'c \<Rightarrow> string option"
  mp_cert_serial :: "'c \<Rightarrow> string option"
  mp_cert_not_before :: "'c \<Rightarrow> int option"
  mp_cert_not_after :: "'c \<Rightarrow> int option"
  mp_cert_is_ca :: "'c \<Rightarrow> int option"
  mp_cert_is_self_signed :: "'c \<Rightarrow> int option"
  mp_cert_key_algorithm :: "'c \<Rightarrow> string option"
  mp_cert_key_bits :: "'c \<Rightarrow> int option"
  mp_cert_key_curve :: "'c \<Rightarrow> string option"
  mp_cert_key_usage :: "'c \<Rightarrow> 32 word option"
  mp_cert_eku_count :: "'c \<Rightarrow> nat option"
  mp_cert_eku_oid :: "'c \<Rightarrow> nat \<Rightarrow> string option"
  mp_cert_pathlen :: "'c \<Rightarrow> int option"
  mp_cert_san_count :: "'c \<Rightarrow> nat option"
  mp_cert_san_entry :: "'c \<Rightarrow> nat \<Rightarrow> string option"
  mp_cert_ski :: "'c \<Rightarrow> string option"
  mp_cert_aki :: "'c \<Rightarrow> string option"
  mp_cert_subject_name_der :: "'c \<Rightarrow> bytes option"
  mp_cert_issuer_name_der :: "'c \<Rightarrow> bytes option"
  mp_cert_aia_count :: "'c \<Rightarrow> nat option"
  mp_cert_aia_url :: "'c \<Rightarrow> nat \<Rightarrow> string option"
  mp_cert_ocsp_count :: "'c \<Rightarrow> nat option"
  mp_cert_ocsp_url :: "'c \<Rightarrow> nat \<Rightarrow> string option"
  mp_cert_cdp_count :: "'c \<Rightarrow> nat option"
  mp_cert_cdp_url :: "'c \<Rightarrow> nat \<Rightarrow> string option"
  mp_cert_der :: "'c \<Rightarrow> bytes option"

record 'l crl_getters =
  mp_crl_issuer :: "'l \<Rightarrow> string option"
  mp_crl_this_update :: "'l \<Rightarrow> int option"
  mp_crl_next_update :: "'l \<Rightarrow> int option"
  mp_crl_revoked_count :: "'l \<Rightarrow> int option"
  mp_crl_issuer_name_der :: "'l \<Rightarrow> bytes option"
  mp_crl_aki :: "'l \<Rightarrow> string option"
  mp_crl_has_idp :: "'l \<Rightarrow> int option"
  mp_crl_is_delta :: "'l \<Rightarrow> int option"
  mp_crl_der :: "'l \<Rightarrow> mp_rc + bytes"

text \<open>\<open>mp_ocsp_status\<close> and \<open>mp_ocsp_verified\<close> are read without looking at their result code.\<close>

record 'o ocsp_getters =
  mp_ocsp_status :: "'o \<Rightarrow> ocsp_code"
  mp_ocsp_verified :: "'o \<Rightarrow> int"
  mp_ocsp_this_update :: "'o \<Rightarrow> int option"
  mp_ocsp_next_update :: "'o \<Rightarrow> int option"
  mp_ocsp_produced_at :: "'o \<Rightarrow> int option"
  mp_ocsp_revoked_at :: "'o \<Rightarrow> int option"
  mp_ocsp_revoke_reason :: "'o \<Rightarrow> int option"
  mp_ocsp_der :: "'o \<Rightarrow> bytes option"

record ('c, 'l, 'o, 's) minipki =
  mp_cert :: "'c cert_getters"
  mp_crl :: "'l crl_getters"
  mp_ocsp :: "'o ocsp_getters"
  mp_cert_parse :: "bytes \<Rightarrow> mp_rc + 'c"
  mp_crl_parse :: "bytes \<Rightarrow> mp_rc + 'l"
  mp_crl_verify :: "'l \<Rightarrow> 'c \<Rightarrow> mp_rc"
  mp_crl_is_revoked :: "'l \<Rightarrow> 'c \<Rightarrow> mp_rc + int"
  mp_ocsp_request_der :: "'c \<Rightarrow> 'c \<Rightarrow> (mp_rc + bytes option)"
  mp_ocsp_response_parse :: "'c \<Rightarrow> 'c \<Rightarrow> bytes \<Rightarrow> mp_rc + 'o"
  mp_bag_parse :: "bytes \<Rightarrow> mp_rc + bytes option list"
  mp_store_new :: "mp_rc + 's"
  mp_store_add_root :: "'s \<Rightarrow> bytes \<Rightarrow> mp_rc + 's"
  mp_store_add_intermediate :: "'s \<Rightarrow> bytes \<Rightarrow> mp_rc + 's"
  mp_store_set_flags :: "'s \<Rightarrow> mp_rc + 's"
  mp_verify :: "'s \<Rightarrow> 'c \<Rightarrow> mp_rc + 'c list"
  mp_verify_last_error :: "'s \<Rightarrow> 'c \<Rightarrow> int \<times> int \<times> string"

section \<open>Errors\<close>

text \<open>An error made of a text only, as \<open>errors.New\<close> and \<open>fmt.Errorf\<close> without \<open>%w\<close> make it.\<close>

abbreviation text_error :: "string \<Rightarrow> goerr" where
  "text_error s \<equiv> LibError s None None"

fun rc_name :: "mp_rc \<Rightarrow> string option" where
  "rc_name MP_ERR_INVALID_ARG = Some ''invalid argument''"
| "rc_name MP_ERR_PARSE = Some ''parse error''"
| "rc_name MP_ERR_VERIFY = Some ''verification failed''"
| "rc_name MP_ERR_EXPIRED = Some ''certificate expired''"
| "rc_name MP_ERR_REVOKED = Some ''certificate revoked''"
| "rc_name MP_ERR_NO_CHAIN = Some ''incomplete chain''"
| "rc_name MP_ERR_NO_CRL = Some ''CRL not available''"
| "rc_name MP_ERR_OPENSSL = Some ''OpenSSL error''"
| "rc_name MP_ERR_UNEXPECTED = Some ''unexpected error''"
| "rc_name _ = None"

text \<open>The number of a code the source has no name for; \<open>MP_OK\<close> does not reach the texts that print it.\<close>

fun rc_number :: "mp_rc \<Rightarrow> int" where
  "rc_number (MP_OTHER n) = n"
| "rc_number _ = 0"

definition rcError :: "string \<Rightarrow> mp_rc \<Rightarrow> goerr" where
  "rcError f rc =
     (case rc_name rc of
        Some msg \<Rightarrow> text_error (f @ '': '' @ msg)
      | None \<Rightarrow> text_error (f @ '': error '' @ string_of_int (rc_number rc)))"

text \<open>
  \<open>rcStatus\<close>. The codes without a case of their own print their number, which only the library knows
  for the named ones: \<open>num\<close> gives it.
\<close>

fun rcStatus :: "(mp_rc \<Rightarrow> int) \<Rightarrow> mp_rc \<Rightarrow> string \<times> string" where
  "rcStatus num MP_OK = (''ok'', '''')"
| "rcStatus num MP_ERR_EXPIRED = (''expired'', ''Certificate expired or not yet valid'')"
| "rcStatus num MP_ERR_REVOKED = (''revoked'', ''Certificate has been revoked'')"
| "rcStatus num MP_ERR_NO_CHAIN = (''no_chain'', ''Could not build complete trust chain'')"
| "rcStatus num MP_ERR_NO_CRL = (''no_crl'', ''CRL required but not available'')"
| "rcStatus num MP_ERR_VERIFY = (''verify_failed'', ''Signature verification failed'')"
| "rcStatus num rc = (''error'', ''Verification error: '' @ string_of_int (num rc))"

section \<open>Certificates\<close>

record CertInfo =
  Subject :: string
  Issuer :: string
  Serial :: string
  NotBefore :: gotime
  NotAfter :: gotime
  IsCA :: bool
  IsSelfSigned :: bool
  KeyAlgorithm :: string
  KeyBits :: int
  KeyCurve :: string
  KeyUsage :: "32 word"
  EKUs :: "string list"
  SANs :: "string list"
  PathLen :: int
  SKI :: string
  AKI :: string
  SubjectNameDER :: bytes
  IssuerNameDER :: bytes
  AIAURLs :: "string list"
  OCSPURLs :: "string list"
  CDPURLs :: "string list"
  DER :: bytes

text \<open>\<open>v\<close> when the getter succeeds, else the zero value the field starts with.\<close>

definition got :: "'a \<Rightarrow> 'a option \<Rightarrow> 'a" where
  "got zero r = (case r of Some v \<Rightarrow> v | None \<Rightarrow> zero)"

text \<open>A counted list: the entries whose getter succeeds, in order; none when the count fails.\<close>

definition counted :: "nat option \<Rightarrow> (nat \<Rightarrow> 'a option) \<Rightarrow> 'a list" where
  "counted n get = (case n of Some k \<Rightarrow> List.map_filter get [0..<k] | None \<Rightarrow> [])"

definition extractCertInfo :: "'c cert_getters \<Rightarrow> 'c \<Rightarrow> CertInfo" where
  "extractCertInfo g c =
     \<lparr>Subject = got '''' (mp_cert_subject g c),
      Issuer = got '''' (mp_cert_issuer g c),
      Serial = got '''' (mp_cert_serial g c),
      NotBefore = got zero_time (map_option of_unix (mp_cert_not_before g c)),
      NotAfter = got zero_time (map_option of_unix (mp_cert_not_after g c)),
      IsCA = (mp_cert_is_ca g c = Some 1),
      IsSelfSigned = (mp_cert_is_self_signed g c = Some 1),
      KeyAlgorithm = got '''' (mp_cert_key_algorithm g c),
      KeyBits = got 0 (mp_cert_key_bits g c),
      KeyCurve = got '''' (mp_cert_key_curve g c),
      KeyUsage = got 0 (mp_cert_key_usage g c),
      EKUs = counted (mp_cert_eku_count g c) (mp_cert_eku_oid g c),
      SANs = counted (mp_cert_san_count g c) (mp_cert_san_entry g c),
      PathLen = got (- 1) (mp_cert_pathlen g c),
      SKI = got '''' (mp_cert_ski g c),
      AKI = got '''' (mp_cert_aki g c),
      SubjectNameDER = got [] (mp_cert_subject_name_der g c),
      IssuerNameDER = got [] (mp_cert_issuer_name_der g c),
      AIAURLs = counted (mp_cert_aia_count g c) (mp_cert_aia_url g c),
      OCSPURLs = counted (mp_cert_ocsp_count g c) (mp_cert_ocsp_url g c),
      CDPURLs = counted (mp_cert_cdp_count g c) (mp_cert_cdp_url g c),
      DER = got [] (mp_cert_der g c)\<rparr>"

definition ParseCertInfo :: "('c, 'l, 'o, 's) minipki \<Rightarrow> bytes \<Rightarrow> goerr + CertInfo" where
  "ParseCertInfo mp data =
     (if data = [] then Inl (text_error ''empty certificate data'')
      else case mp_cert_parse mp data of
        Inl rc \<Rightarrow> Inl (rcError ''mp_cert_parse'' rc)
      | Inr c \<Rightarrow> Inr (extractCertInfo (mp_cert mp) c))"

definition ParseAllCerts :: "('c, 'l, 'o, 's) minipki \<Rightarrow> bytes \<Rightarrow> goerr + bytes list" where
  "ParseAllCerts mp data =
     (if data = [] then Inl (text_error ''empty data'')
      else case mp_bag_parse mp data of
        Inl rc \<Rightarrow> Inl (rcError ''mp_bag_parse'' rc)
      | Inr ders \<Rightarrow> Inr (List.map_filter id ders))"

text \<open>\<open>CanSignCRL\<close>: \<open>0xFFFFFFFF\<close> stands for a certificate without a key usage extension.\<close>

definition CanSignCRL :: "CertInfo \<Rightarrow> bool" where
  "CanSignCRL c \<longleftrightarrow> IsCA c \<and> (KeyUsage c = 0xFFFFFFFF \<or> KeyUsage c AND 0x0002 \<noteq> 0)"

end
