(* ===== verification/Crl.thy ===== *)
theory Crl
  imports Pki Idp
begin

text \<open>
  The rest of internal/pki/pki.go: CRLs and what they cover, OCSP requests and responses, and the
  verification of a chain. As in the theory Pki the C library is an argument; so are the readers of
  \<open>cryptobyte\<close>.
\<close>

section \<open>CRLs\<close>

record CRLInfo =
  crl_Issuer :: string
  crl_IssuerNameDER :: bytes
  crl_AKI :: string
  ThisUpdate :: gotime
  NextUpdate :: gotime
  RevokedCount :: int
  HasIDP :: bool
  IsDelta :: bool
  idp :: "idpScope option"

record 'l CRL =
  crl_c :: 'l
  Info :: CRLInfo
  crl_DER :: bytes

definition Covers :: "CRLInfo \<Rightarrow> CertInfo \<Rightarrow> bool" where
  "Covers i cert =
     (if crl_IssuerNameDER i \<noteq> IssuerNameDER cert \<or> IsDelta i then False
      else if HasIDP i then (case idp i of None \<Rightarrow> False | Some d \<Rightarrow> covers d (CDPURLs cert) (IsCA cert))
      else True)"

text \<open>The result of \<open>parseIDP\<close> with its error dropped.\<close>

definition read_idp :: "readers \<Rightarrow> bytes \<Rightarrow> idpScope option" where
  "read_idp rd der = (case parseIDP rd der of Some (Inr s) \<Rightarrow> s | _ \<Rightarrow> None)"

definition crl_info :: "readers \<Rightarrow> 'l crl_getters \<Rightarrow> 'l \<Rightarrow> bytes \<Rightarrow> CRLInfo" where
  "crl_info rd g c der =
     (let has = (mp_crl_has_idp g c = Some 1) in
      \<lparr>crl_Issuer = got '''' (mp_crl_issuer g c),
       crl_IssuerNameDER = got [] (mp_crl_issuer_name_der g c),
       crl_AKI = got '''' (mp_crl_aki g c),
       ThisUpdate = got zero_time (map_option of_unix (mp_crl_this_update g c)),
       NextUpdate = got zero_time (map_option of_unix (mp_crl_next_update g c)),
       RevokedCount = got 0 (mp_crl_revoked_count g c),
       HasIDP = has,
       IsDelta = (mp_crl_is_delta g c = Some 1),
       idp = (if has then read_idp rd der else None)\<rparr>)"

definition ParseCRL :: "('c, 'l, 'o, 's) minipki \<Rightarrow> readers \<Rightarrow> bytes \<Rightarrow> goerr + 'l CRL" where
  "ParseCRL mp rd data =
     (if data = [] then Inl (text_error ''empty CRL data'')
      else case mp_crl_parse mp data of
        Inl rc \<Rightarrow> Inl (rcError ''mp_crl_parse'' rc)
      | Inr c \<Rightarrow>
          (case mp_crl_der (mp_crl mp) c of
             Inl rc \<Rightarrow> Inl (rcError ''mp_crl_der'' rc)
           | Inr der \<Rightarrow> Inr \<lparr>crl_c = c, Info = crl_info rd (mp_crl mp) c der, crl_DER = der\<rparr>))"

text \<open>\<open>CRL.Verify\<close>: no error, \<open>ErrCRLBadSignature\<close>, or another error.\<close>

datatype crl_verdict = Verified | ErrCRLBadSignature | CRLError goerr

definition crl_Verify :: "('c, 'l, 'o, 's) minipki \<Rightarrow> 'l CRL \<Rightarrow> bytes \<Rightarrow> crl_verdict" where
  "crl_Verify mp crl issuerDER =
     (if issuerDER = [] then CRLError (text_error ''empty issuer data'')
      else case mp_cert_parse mp issuerDER of
        Inl rc \<Rightarrow> CRLError (rcError ''mp_cert_parse(issuer)'' rc)
      | Inr issuer \<Rightarrow>
          (case mp_crl_verify mp (crl_c crl) issuer of
             MP_OK \<Rightarrow> Verified
           | MP_ERR_VERIFY \<Rightarrow> ErrCRLBadSignature
           | rc \<Rightarrow> CRLError (rcError ''mp_crl_verify'' rc)))"

definition IsRevoked :: "('c, 'l, 'o, 's) minipki \<Rightarrow> 'l CRL \<Rightarrow> bytes \<Rightarrow> goerr + bool" where
  "IsRevoked mp crl certDER =
     (if certDER = [] then Inl (text_error ''empty certificate data'')
      else case mp_cert_parse mp certDER of
        Inl rc \<Rightarrow> Inl (rcError ''mp_cert_parse'' rc)
      | Inr cert \<Rightarrow>
          (case mp_crl_is_revoked mp (crl_c crl) cert of
             Inl rc \<Rightarrow> Inl (rcError ''mp_crl_is_revoked'' rc)
           | Inr r \<Rightarrow> Inr (r = 1)))"

section \<open>OCSP\<close>

record OCSPResult =
  os_Status :: string
  os_Verified :: bool
  os_ThisUpdate :: gotime
  os_NextUpdate :: gotime
  os_ProducedAt :: gotime
  os_RevokedAt :: gotime
  os_RevokeReason :: int
  os_DER :: bytes

definition parse_pair :: "('c, 'l, 'o, 's) minipki \<Rightarrow> bytes \<Rightarrow> bytes \<Rightarrow> goerr + ('c \<times> 'c)" where
  "parse_pair mp certDER issuerDER =
     (case mp_cert_parse mp certDER of
        Inl rc \<Rightarrow> Inl (rcError ''mp_cert_parse(cert)'' rc)
      | Inr cert \<Rightarrow>
          (case mp_cert_parse mp issuerDER of
             Inl rc \<Rightarrow> Inl (rcError ''mp_cert_parse(issuer)'' rc)
           | Inr issuer \<Rightarrow> Inr (cert, issuer)))"

definition BuildOCSPRequest :: "('c, 'l, 'o, 's) minipki \<Rightarrow> bytes \<Rightarrow> bytes \<Rightarrow> goerr + bytes" where
  "BuildOCSPRequest mp certDER issuerDER =
     (if certDER = [] \<or> issuerDER = [] then Inl (text_error ''empty cert or issuer'')
      else case parse_pair mp certDER issuerDER of
        Inl e \<Rightarrow> Inl e
      | Inr (cert, issuer) \<Rightarrow>
          (case mp_ocsp_request_der mp cert issuer of
             Inl rc \<Rightarrow> Inl (rcError ''mp_ocsp_request_new'' rc)
           | Inr None \<Rightarrow> Inl (text_error ''mp_ocsp_request_der failed'')
           | Inr (Some der) \<Rightarrow> Inr der))"

text \<open>A time is taken only when its getter succeeds and it is after the epoch.\<close>

definition ocsp_time :: "int option \<Rightarrow> gotime" where
  "ocsp_time t = (case t of Some s \<Rightarrow> if s > 0 then of_unix s else zero_time | None \<Rightarrow> zero_time)"

definition ocsp_result :: "'o ocsp_getters \<Rightarrow> 'o \<Rightarrow> OCSPResult" where
  "ocsp_result g r =
     \<lparr>os_Status = (case mp_ocsp_status g r of MP_OCSP_GOOD \<Rightarrow> ''good'' | MP_OCSP_REVOKED \<Rightarrow> ''revoked''
        | MP_OCSP_OTHER _ \<Rightarrow> ''unknown''),
      os_Verified = (mp_ocsp_verified g r = 1),
      os_ThisUpdate = ocsp_time (mp_ocsp_this_update g r),
      os_NextUpdate = ocsp_time (mp_ocsp_next_update g r),
      os_ProducedAt = ocsp_time (mp_ocsp_produced_at g r),
      os_RevokedAt = ocsp_time (mp_ocsp_revoked_at g r),
      os_RevokeReason = got 0 (mp_ocsp_revoke_reason g r),
      os_DER = got [] (mp_ocsp_der g r)\<rparr>"

definition ParseOCSPResponse :: "('c, 'l, 'o, 's) minipki \<Rightarrow> bytes \<Rightarrow> bytes \<Rightarrow> bytes \<Rightarrow> goerr + OCSPResult" where
  "ParseOCSPResponse mp certDER issuerDER respDER =
     (if certDER = [] \<or> issuerDER = [] \<or> respDER = [] then Inl (text_error ''empty data'')
      else case parse_pair mp certDER issuerDER of
        Inl e \<Rightarrow> Inl e
      | Inr (cert, issuer) \<Rightarrow>
          (case mp_ocsp_response_parse mp cert issuer respDER of
             Inl rc \<Rightarrow> Inl (rcError ''mp_ocsp_response_parse'' rc)
           | Inr r \<Rightarrow> Inr (ocsp_result (mp_ocsp mp) r)))"

section \<open>Chain verification\<close>

record VerifyResult =
  ChainStatus :: string
  ChainMessage :: string
  ChainErrCode :: int
  ChainErrMsg :: string
  ChainErrAt :: int
  vr_RevocationStatus :: string
  vr_RevocationMessage :: string
  vr_Chain :: "CertInfo list"

text \<open>
  The loops that fill the store, with the index of the next certificate: \<open>None\<close> is the panic of
  \<open>&r[0]\<close> on an empty certificate, an error ends with the wrapped code.
\<close>

fun add_all :: "string \<Rightarrow> string \<Rightarrow> ('s \<Rightarrow> bytes \<Rightarrow> mp_rc + 's) \<Rightarrow> nat \<Rightarrow> 's \<Rightarrow> bytes list \<Rightarrow> (goerr + 's) option" where
  "add_all what f add i st [] = Some (Inr st)"
| "add_all what f add i st (r # rs) =
     (if r = [] then None
      else case add st r of
        Inl rc \<Rightarrow> Some (Inl (Wrapped (what @ ''['' @ digits_of i @ '']: '') (rcError f rc)))
      | Inr st' \<Rightarrow> add_all what f add (Suc i) st' rs)"

definition empty_result :: VerifyResult where
  "empty_result = \<lparr>ChainStatus = '''', ChainMessage = '''', ChainErrCode = 0, ChainErrMsg = '''', ChainErrAt = 0,
     vr_RevocationStatus = ''skipped'', vr_RevocationMessage = '''', vr_Chain = []\<rparr>"

definition verify_result :: "('c, 'l, 'o, 's) minipki \<Rightarrow> (mp_rc \<Rightarrow> int) \<Rightarrow> 's \<Rightarrow> 'c \<Rightarrow> VerifyResult" where
  "verify_result mp num st cert =
     (case mp_verify mp st cert of
        Inl rc \<Rightarrow>
          (let (status, msg) = rcStatus num rc; (code, depth, text) = mp_verify_last_error mp st cert in
           empty_result\<lparr>ChainStatus := status, ChainMessage := msg, ChainErrCode := code, ChainErrAt := depth,
             ChainErrMsg := text\<rparr>)
      | Inr certs \<Rightarrow>
          empty_result\<lparr>ChainStatus := ''ok'', vr_Chain := map (extractCertInfo (mp_cert mp)) certs\<rparr>)"

definition chain_Verify :: "('c, 'l, 'o, 's) minipki \<Rightarrow> (mp_rc \<Rightarrow> int) \<Rightarrow> bytes \<Rightarrow> bytes list \<Rightarrow> bytes list
    \<Rightarrow> (goerr + VerifyResult) option" where
  "chain_Verify mp num leafDER roots intermediates =
     (if leafDER = [] then Some (Inl (text_error ''empty leaf certificate''))
      else case mp_cert_parse mp leafDER of
        Inl rc \<Rightarrow> Some (Inl (rcError ''mp_cert_parse'' rc))
      | Inr cert \<Rightarrow>
        (case mp_store_new mp of
           Inl rc \<Rightarrow> Some (Inl (rcError ''mp_store_new'' rc))
         | Inr st0 \<Rightarrow>
           (case add_all ''add_root'' ''mp_store_add_root'' (mp_store_add_root mp) 0 st0 roots of
              None \<Rightarrow> None
            | Some (Inl e) \<Rightarrow> Some (Inl e)
            | Some (Inr st1) \<Rightarrow>
              (case add_all ''add_intermediate'' ''mp_store_add_intermediate'' (mp_store_add_intermediate mp) 0 st1 intermediates of
                 None \<Rightarrow> None
               | Some (Inl e) \<Rightarrow> Some (Inl e)
               | Some (Inr st2) \<Rightarrow>
                 (case mp_store_set_flags mp st2 of
                    Inl rc \<Rightarrow> Some (Inl (rcError ''mp_store_set_flags'' rc))
                  | Inr st3 \<Rightarrow> Some (Inr (verify_result mp num st3 cert)))))))"

end
