(* ===== verification/Chain.thy ===== *)
theory Chain
  imports Store_Laws Crl
begin

text \<open>
  How an analysis builds its chain (the first half of \<open>analyzeData\<close> in cmd/certview/handler.go, with
  \<open>resolveIssuer\<close>, \<open>archiveIssuer\<close>, \<open>archive\<close>, \<open>poolIssuers\<close>, \<open>trustedPath\<close>, \<open>chainsToTrust\<close> and
  \<open>trusted\<close>). An analysis threads a world: the store, the warnings of its response, and the rest of
  the outside, opaque, which answers the clock, the context and the downloads. Other analyses do
  not touch the store while one runs; logging is left out.
\<close>

section \<open>The world\<close>

record ('c, 'l, 'o, 's, 'n) env =
  e_mp :: "('c, 'l, 'o, 's) minipki"
  e_num :: "mp_rc \<Rightarrow> int"
  e_rd :: readers
  e_hash :: hashes
  e_clock :: "'n \<Rightarrow> gotime \<times> 'n"
  e_ctx_err :: "'n \<Rightarrow> goerr option \<times> 'n"
  e_fetch :: "fetch_kind \<Rightarrow> string \<Rightarrow> 'n \<Rightarrow> (goerr + bytes) \<times> 'n"
  e_post :: "string \<Rightarrow> bytes \<Rightarrow> 'n \<Rightarrow> (goerr + bytes) \<times> 'n"
  e_acquire :: "nat \<Rightarrow> 'n \<Rightarrow> goerr option \<times> 'n"
  e_quote :: "string \<Rightarrow> string"
  e_rfc3339 :: "gotime \<Rightarrow> string"
  e_asn1 :: "bytes \<Rightarrow> (nat list \<times> bytes) option"

record 'n world =
  w_store :: store
  w_warn :: "string list"
  w_net :: 'n

definition time_now :: "('c, 'l, 'o, 's, 'n) env \<Rightarrow> 'n world \<Rightarrow> gotime \<times> 'n world" where
  "time_now E w = (case e_clock E (w_net w) of (t, n) \<Rightarrow> (t, w\<lparr>w_net := n\<rparr>))"

definition ctx_Err :: "('c, 'l, 'o, 's, 'n) env \<Rightarrow> 'n world \<Rightarrow> goerr option \<times> 'n world" where
  "ctx_Err E w = (case e_ctx_err E (w_net w) of (e, n) \<Rightarrow> (e, w\<lparr>w_net := n\<rparr>))"

definition fetchWithInfo :: "('c, 'l, 'o, 's, 'n) env \<Rightarrow> fetch_kind \<Rightarrow> string \<Rightarrow> 'n world \<Rightarrow> (goerr + bytes) \<times> 'n world" where
  "fetchWithInfo E kind url w = (case e_fetch E kind url (w_net w) of (r, n) \<Rightarrow> (r, w\<lparr>w_net := n\<rparr>))"

definition warn :: "string \<Rightarrow> 'n world \<Rightarrow> 'n world" where
  "warn s w = w\<lparr>w_warn := w_warn w @ [s]\<rparr>"

section \<open>The store from here\<close>

definition args_of :: "CertInfo \<Rightarrow> string \<Rightarrow> cert_args" where
  "args_of c source =
     \<lparr>a_subject = Subject c, a_issuer = Issuer c, a_serial = Serial c, a_ski = SKI c, a_aki = AKI c,
      a_name_der = SubjectNameDER c, a_der = DER c, a_is_ca = IsCA c, a_self_signed = IsSelfSigned c,
      a_source = source\<rparr>"

definition archive :: "('c, 'l, 'o, 's, 'n) env \<Rightarrow> CertInfo \<Rightarrow> string \<Rightarrow> 'n world \<Rightarrow> 'n world" where
  "archive E c source w =
     (case time_now E w of (t, w1) \<Rightarrow> w1\<lparr>w_store := SaveCert (e_hash E) t (args_of c source) (w_store w1)\<rparr>)"

definition poolIssuers :: "bytes \<Rightarrow> store \<Rightarrow> bytes list" where
  "poolIssuers nameDER s = map cand_der (FindIssuers nameDER '''' maxAltCandidates 0 s)"

definition trusted :: "('c, 'l, 'o, 's, 'n) env \<Rightarrow> CertInfo \<Rightarrow> store \<Rightarrow> bool" where
  "trusted E c s = IsCertTrusted (SHA256Hex (e_hash E) (DER c)) s"

section \<open>trustedPath\<close>

definition anchors_of :: "('c, 'l, 'o, 's, 'n) env \<Rightarrow> store \<Rightarrow> bytes list \<Rightarrow> bytes list" where
  "anchors_of E s roots = filter (\<lambda>r. IsCertTrusted (SHA256Hex (e_hash E) r) s) roots"

text \<open>The CAs of a verified path that join the pool; \<open>SavePoolCert\<close>'s errors are only logged.\<close>

fun pool_path :: "('c, 'l, 'o, 's, 'n) env \<Rightarrow> bytes list \<Rightarrow> CertInfo list \<Rightarrow> 'n world \<Rightarrow> 'n world" where
  "pool_path E transient [] w = w"
| "pool_path E transient (c # cs) w =
     (if IsCA c \<and> DER c \<noteq> [] \<and> DER c \<notin> set transient
      then (case time_now E w of (t, w1) \<Rightarrow>
        pool_path E transient cs (w1\<lparr>w_store := fst (SavePoolCert (e_hash E) t (args_of c '''') (w_store w1))\<rparr>))
      else pool_path E transient cs w)"

text \<open>\<open>None\<close> is a panic of \<open>Verify\<close>; the anchor's subject is given when there is a trusted path.\<close>

definition trustedPath :: "('c, 'l, 'o, 's, 'n) env \<Rightarrow> bytes \<Rightarrow> bytes list \<Rightarrow> bytes list \<Rightarrow> bytes list \<Rightarrow> 'n world
    \<Rightarrow> (string option \<times> 'n world) option" where
  "trustedPath E der roots intermediates transient w =
     (let anchors = anchors_of E (w_store w) roots in
      if anchors = [] then Some (None, w)
      else case chain_Verify (e_mp E) (e_num E) der anchors intermediates of
        None \<Rightarrow> None
      | Some (Inl e) \<Rightarrow> Some (None, w)
      | Some (Inr vr) \<Rightarrow>
          if ChainStatus vr \<noteq> ''ok'' \<or> vr_Chain vr = [] then Some (None, w)
          else Some (Some (Subject (last (vr_Chain vr))), pool_path E transient (vr_Chain vr) w))"

text \<open>\<open>chainsToTrust\<close>: its loop over the names still to look up, at most \<open>maxChainDepth\<close> rounds.\<close>

fun split_issuers :: "('c, 'l, 'o, 's, 'n) env \<Rightarrow> bytes list \<Rightarrow> bytes list \<times> bytes list \<times> bytes list
    \<Rightarrow> bytes list \<times> bytes list \<times> bytes list" where
  "split_issuers E [] acc = acc"
| "split_issuers E (d # ds) (roots, ints, names) =
     split_issuers E ds
       (case ParseCertInfo (e_mp E) d of
          Inl _ \<Rightarrow> (roots, ints, names)
        | Inr info \<Rightarrow> if IsSelfSigned info then (roots @ [d], ints, names)
                      else (roots, ints @ [d], names @ [IssuerNameDER info]))"

fun trust_loop :: "('c, 'l, 'o, 's, 'n) env \<Rightarrow> store \<Rightarrow> nat \<Rightarrow> bytes list \<Rightarrow> bytes list \<Rightarrow> bytes list \<Rightarrow> bytes list
    \<Rightarrow> bytes list \<times> bytes list" where
  "trust_loop E s 0 names seen roots ints = (roots, ints)"
| "trust_loop E s (Suc depth) [] seen roots ints = (roots, ints)"
| "trust_loop E s (Suc depth) (name # names) seen roots ints =
     (if name \<in> set seen then trust_loop E s depth names seen roots ints
      else case split_issuers E (poolIssuers name s) (roots, ints, names) of
        (roots', ints', names') \<Rightarrow> trust_loop E s depth names' (name # seen) roots' ints')"

definition chainsToTrust :: "('c, 'l, 'o, 's, 'n) env \<Rightarrow> CertInfo \<Rightarrow> 'n world \<Rightarrow> (bool \<times> 'n world) option" where
  "chainsToTrust E cert w =
     (if trusted E cert (w_store w) then Some (True, w)
      else case trust_loop E (w_store w) maxChainDepth [IssuerNameDER cert] [] [] [] of
        (roots, ints) \<Rightarrow>
          map_option (\<lambda>(r, w'). (r \<noteq> None, w')) (trustedPath E (DER cert) roots ints [] w))"

section \<open>resolveIssuer\<close>

record bagCert =
  bc_info :: CertInfo
  bc_source :: string

definition in_validity :: "gotime \<Rightarrow> CertInfo \<Rightarrow> bool" where
  "in_validity now c \<longleftrightarrow> NotBefore c < now \<and> now < NotAfter c"

definition bag_match :: "CertInfo \<Rightarrow> bagCert \<Rightarrow> bool" where
  "bag_match cert c \<longleftrightarrow>
     (AKI cert \<noteq> '''' \<and> SKI (bc_info c) = AKI cert)
   \<or> (AKI cert = '''' \<and> SubjectNameDER (bc_info c) = IssuerNameDER cert)"

text \<open>The candidates of the store: a valid one of the pool at once, else the first expired one and the archived ones.\<close>

fun scan_candidates :: "('c, 'l, 'o, 's) minipki \<Rightarrow> gotime \<Rightarrow> candidate list \<Rightarrow> CertInfo option \<Rightarrow> CertInfo list
    \<Rightarrow> CertInfo + (CertInfo option \<times> CertInfo list)" where
  "scan_candidates mp now [] expired archived = Inr (expired, archived)"
| "scan_candidates mp now (c # cs) expired archived =
     (case ParseCertInfo mp (cand_der c) of
        Inl _ \<Rightarrow> scan_candidates mp now cs expired archived
      | Inr info \<Rightarrow>
          if \<not> cand_pool c then scan_candidates mp now cs expired (archived @ [info])
          else if in_validity now info then Inl info
          else scan_candidates mp now cs (if expired = None then Some info else expired) archived)"

fun pick_archived :: "gotime \<Rightarrow> CertInfo option \<Rightarrow> CertInfo list \<Rightarrow> CertInfo option" where
  "pick_archived now pick [] = pick"
| "pick_archived now pick (i # is) =
     pick_archived now
       (case pick of None \<Rightarrow> Some i | Some p \<Rightarrow> if in_validity now i \<and> \<not> in_validity now p then Some i else pick) is"

definition archiveIssuer :: "('c, 'l, 'o, 's, 'n) env \<Rightarrow> CertInfo \<Rightarrow> bagCert list \<Rightarrow> CertInfo list \<Rightarrow> 'n world
    \<Rightarrow> (CertInfo \<times> string) option \<times> bagCert list \<times> 'n world" where
  "archiveIssuer E cert bag archived w =
     (case time_now E w of (now, w1) \<Rightarrow>
       let bag' = bag @ map (\<lambda>i. \<lparr>bc_info = i, bc_source = ''archive''\<rparr>) archived in
       case pick_archived now None archived of
         None \<Rightarrow> (None, bag', warn (''Could not fetch issuer for: '' @ Subject cert) w1)
       | Some p \<Rightarrow> (Some (p, ''archive''), bag', w1))"

definition fallback :: "('c, 'l, 'o, 's, 'n) env \<Rightarrow> CertInfo \<Rightarrow> bagCert list \<Rightarrow> CertInfo option \<Rightarrow> CertInfo list \<Rightarrow> 'n world
    \<Rightarrow> (CertInfo \<times> string) option \<times> bagCert list \<times> 'n world" where
  "fallback E cert bag expired archived w =
     (case expired of Some c \<Rightarrow> (Some (c, ''cache''), bag, w) | None \<Rightarrow> archiveIssuer E cert bag archived w)"

definition parsed_certs :: "('c, 'l, 'o, 's) minipki \<Rightarrow> bytes list \<Rightarrow> CertInfo list" where
  "parsed_certs mp ders = List.map_filter (\<lambda>d. if length d > CertSize then None
     else case ParseCertInfo mp d of Inl _ \<Rightarrow> None | Inr i \<Rightarrow> Some i) ders"

definition ski_match :: "CertInfo \<Rightarrow> CertInfo \<Rightarrow> bool" where
  "ski_match cert i \<longleftrightarrow> AKI cert \<noteq> '''' \<and> SKI i = AKI cert"

definition pick_fetched :: "CertInfo \<Rightarrow> CertInfo list \<Rightarrow> CertInfo option" where
  "pick_fetched cert infos =
     (case find (\<lambda>i. ski_match cert i \<and> IsSelfSigned i) infos of Some i \<Rightarrow> Some i
      | None \<Rightarrow> (case find (ski_match cert) infos of Some i \<Rightarrow> Some i
         | None \<Rightarrow> (case infos of [] \<Rightarrow> None | i # _ \<Rightarrow> Some i)))"

fun try_aia :: "('c, 'l, 'o, 's, 'n) env \<Rightarrow> CertInfo \<Rightarrow> string list \<Rightarrow> bagCert list \<Rightarrow> 'n world
    \<Rightarrow> CertInfo option \<times> bagCert list \<times> 'n world" where
  "try_aia E cert [] bag w = (None, bag, w)"
| "try_aia E cert (url # urls) bag w =
     (case fetchWithInfo E fetchAIA url w of
        (Inl e, w1) \<Rightarrow> try_aia E cert urls bag (warn (''AIA fetch failed ('' @ url @ ''): '' @ publicError e) w1)
      | (Inr data, w1) \<Rightarrow>
         (case ParseAllCerts (e_mp E) data of
            Inl e \<Rightarrow> try_aia E cert urls bag (warn (''Failed to parse AIA: '' @ err_text e) w1)
          | Inr ders \<Rightarrow>
              if length ders > maxAIACerts
              then try_aia E cert urls bag (warn (''AIA '' @ url @ '': '' @ digits_of (length ders)
                     @ '' certificates, limit '' @ digits_of maxAIACerts) w1)
              else let infos = parsed_certs (e_mp E) ders;
                       bag' = bag @ map (\<lambda>i. \<lparr>bc_info = i, bc_source = ''fetched''\<rparr>) infos in
                case pick_fetched cert infos of
                  Some i \<Rightarrow> (Some i, bag', w1)
                | None \<Rightarrow> try_aia E cert urls bag' w1))"

definition resolveIssuer :: "('c, 'l, 'o, 's, 'n) env \<Rightarrow> CertInfo \<Rightarrow> bagCert list \<Rightarrow> 'n world
    \<Rightarrow> (CertInfo \<times> string) option \<times> bagCert list \<times> 'n world" where
  "resolveIssuer E cert bag w =
     (case find (bag_match cert) bag of
        Some c \<Rightarrow> (Some (bc_info c, bc_source c), bag, w)
      | None \<Rightarrow>
         let cands = FindIssuers (IssuerNameDER cert) (AKI cert) maxAltCandidates archiveSample (w_store w) in
         case time_now E w of (now, w1) \<Rightarrow>
         (case scan_candidates (e_mp E) now cands None [] of
            Inl info \<Rightarrow> (Some (info, ''cache''), bag, w1)
          | Inr (expired, archived) \<Rightarrow>
              if AIAURLs cert = []
              then fallback E cert bag expired archived (warn (''No AIA URL in: '' @ Subject cert) w1)
              else (case try_aia E cert (usableURLs (AIAURLs cert) maxAIAURLs) bag w1 of
                      (Some i, bag', w2) \<Rightarrow> (Some (i, ''fetched''), bag', w2)
                    | (None, bag', w2) \<Rightarrow> fallback E cert bag' expired archived w2)))"

section \<open>The chain\<close>

record chainEntry =
  ce_info :: CertInfo
  ce_source :: string

text \<open>
  The loop of \<open>analyzeData\<close>: \<open>room\<close> is \<open>maxChainDepth - len(chain)\<close>, \<open>seen\<close> the digests of the chain.
  The result is the chain and the bag, or the context's error.
\<close>

fun chain_loop :: "('c, 'l, 'o, 's, 'n) env \<Rightarrow> nat \<Rightarrow> CertInfo \<Rightarrow> chainEntry list \<Rightarrow> string list \<Rightarrow> bagCert list \<Rightarrow> 'n world
    \<Rightarrow> (goerr + chainEntry list \<times> CertInfo \<times> bagCert list) \<times> 'n world" where
  "chain_loop E 0 current chain seen bag w = (Inr (chain, current, bag), w)"
| "chain_loop E (Suc room) current chain seen bag w =
     (if IsSelfSigned current then (Inr (chain, current, bag), w)
      else case ctx_Err E w of
        (Some e, w1) \<Rightarrow> (Inl e, w1)
      | (None, w1) \<Rightarrow>
         (case resolveIssuer E current bag w1 of
            (None, bag', w2) \<Rightarrow> (Inr (chain, current, bag'), w2)
          | (Some (info, source), bag', w2) \<Rightarrow>
              let h = SHA256Hex (e_hash E) (DER info) in
              if h \<in> set seen
              then (Inr (chain, current, bag'), warn (''Loop detected at: '' @ Subject info) w2)
              else chain_loop E room info (chain @ [\<lparr>ce_info = info, ce_source = source\<rparr>]) (h # seen) bag' w2))"

definition build_chain :: "('c, 'l, 'o, 's, 'n) env \<Rightarrow> CertInfo \<Rightarrow> string \<Rightarrow> bagCert list \<Rightarrow> 'n world
    \<Rightarrow> (goerr + chainEntry list \<times> CertInfo \<times> bagCert list) \<times> 'n world" where
  "build_chain E leaf leafSource bag w =
     chain_loop E (maxChainDepth - 1) leaf [\<lparr>ce_info = leaf, ce_source = leafSource\<rparr>]
       [SHA256Hex (e_hash E) (DER leaf)] bag w"

definition depth_warning :: "chainEntry list \<Rightarrow> CertInfo \<Rightarrow> 'n world \<Rightarrow> 'n world" where
  "depth_warning chain current w =
     (if length chain \<ge> maxChainDepth \<and> \<not> IsSelfSigned current then warn ''Chain depth limit reached'' w else w)"

text \<open>What the archive keeps: the chain above the leaf, and the first certificates a site presented.\<close>

fun archive_chain :: "('c, 'l, 'o, 's, 'n) env \<Rightarrow> bytes list \<Rightarrow> chainEntry list \<Rightarrow> 'n world \<Rightarrow> 'n world" where
  "archive_chain E transient [] w = w"
| "archive_chain E transient (c # cs) w =
     archive_chain E transient cs
       (if DER (ce_info c) \<in> set transient then w else archive E (ce_info c) (ce_source c) w)"

fun archive_site :: "('c, 'l, 'o, 's, 'n) env \<Rightarrow> nat \<Rightarrow> bagCert list \<Rightarrow> 'n world \<Rightarrow> 'n world" where
  "archive_site E siteCerts [] w = w"
| "archive_site E siteCerts (c # cs) w =
     (if bc_source c = ''tls'' \<and> siteCerts < maxChainDepth
      then archive_site E (Suc siteCerts) cs (archive E (bc_info c) (bc_source c) w)
      else archive_site E siteCerts cs w)"

fun url_warnings :: "chainEntry list \<Rightarrow> 'n world \<Rightarrow> 'n world" where
  "url_warnings [] w = w"
| "url_warnings (e # es) w =
     url_warnings es
       (if length (AIAURLs (ce_info e)) > maxAIAURLs \<or> length (CDPURLs (ce_info e)) > maxCDPURLs
           \<or> length (OCSPURLs (ce_info e)) > maxOCSPURLs
        then warn (''Only the first '' @ digits_of maxAIAURLs @ '' AIA, '' @ digits_of maxCDPURLs @ '' CDP and ''
               @ digits_of maxOCSPURLs @ '' OCSP http(s) URLs are used for: '' @ Subject (ce_info e)) w
        else w)"

section \<open>Roots and intermediates\<close>

text \<open>\<open>addCert\<close>: a certificate counts once, where it is first added.\<close>

record parts =
  p_roots :: "bytes list"
  p_ints :: "bytes list"
  p_seen :: "bytes list"

definition addCert :: "bool \<Rightarrow> bytes \<Rightarrow> parts \<Rightarrow> parts" where
  "addCert root der p =
     (if der \<in> set (p_seen p) then p
      else if root then p\<lparr>p_seen := der # p_seen p, p_roots := p_roots p @ [der]\<rparr>
      else p\<lparr>p_seen := der # p_seen p, p_ints := p_ints p @ [der]\<rparr>)"

definition pool_items :: "('c, 'l, 'o, 's, 'n) env \<Rightarrow> store \<Rightarrow> CertInfo \<Rightarrow> (bool \<times> bytes) list" where
  "pool_items E s c =
     (if IssuerNameDER c = [] then []
      else List.map_filter (\<lambda>d. case ParseCertInfo (e_mp E) d of Inl _ \<Rightarrow> None | Inr i \<Rightarrow> Some (IsSelfSigned i, d))
             (poolIssuers (IssuerNameDER c) s))"

definition part_items :: "('c, 'l, 'o, 's, 'n) env \<Rightarrow> store \<Rightarrow> chainEntry list \<Rightarrow> bagCert list \<Rightarrow> (bool \<times> bytes) list" where
  "part_items E s chain bag =
     (if IsSelfSigned (ce_info (hd chain)) then [(True, DER (ce_info (hd chain)))] else [])
     @ map (\<lambda>e. (IsSelfSigned (ce_info e), DER (ce_info e))) (tl chain)
     @ map (\<lambda>c. (IsSelfSigned (bc_info c), DER (bc_info c))) bag
     @ concat (map (\<lambda>e. pool_items E s (ce_info e)) chain)"

definition partition_certs :: "(bool \<times> bytes) list \<Rightarrow> parts" where
  "partition_certs items = fold (\<lambda>(root, der). addCert root der) items \<lparr>p_roots = [], p_ints = [], p_seen = []\<rparr>"

section \<open>The first half of an analysis\<close>

text \<open>
  \<open>analyzeData\<close> from the parsed leaf to the certificates for the verifier. \<open>bag\<close> is what came with
  the leaf; with \<open>link\<close> leaf and bag came in a link and are transient: none of them is stored.
\<close>

definition transients :: "bool \<Rightarrow> CertInfo \<Rightarrow> bagCert list \<Rightarrow> bytes list" where
  "transients link leaf bag = (if link then DER leaf # map (\<lambda>c. DER (bc_info c)) bag else [])"

definition analyze_chain :: "('c, 'l, 'o, 's, 'n) env \<Rightarrow> CertInfo \<Rightarrow> bagCert list \<Rightarrow> bool \<Rightarrow> 'n world
    \<Rightarrow> (goerr + chainEntry list \<times> parts) \<times> 'n world" where
  "analyze_chain E leaf bag link w =
     (let w1 = (if link then w else archive E leaf '''' w) in
      case build_chain E leaf (if link then ''link'' else ''upload'') bag w1 of
        (Inl e, w2) \<Rightarrow> (Inl e, w2)
      | (Inr (chain, current, bag'), w2) \<Rightarrow>
          let w3 = archive_chain E (transients link leaf bag) (tl chain) (depth_warning chain current w2);
              w4 = url_warnings chain (archive_site E 0 bag w3)
          in (Inr (chain, partition_certs (part_items E (w_store w4) chain bag')), w4))"

end
