(* ===== verification/Chain_Laws.thy ===== *)
theory Chain_Laws
  imports Chain
begin

text \<open>
  What building a chain guarantees: it writes to the store only what an analysis may, the chain is
  bounded, starts at the leaf, repeats no certificate and ends at the first self-signed one, every
  issuer in it has one of the four sources in their order, the roots and intermediates given to
  the verifier are each certificate once, and a trusted path always ends at a trusted root.
\<close>

section \<open>What is written\<close>

definition analysed :: "hashes \<Rightarrow> store \<Rightarrow> store \<Rightarrow> bool" where
  "analysed H s s' \<longleftrightarrow> (\<exists>ops. (\<forall>op \<in> set ops. analysis_op op) \<and> s' = fold (apply_op H) ops s)"

lemma analysed_refl [simp, intro]: "analysed H s s"
  unfolding analysed_def by (rule exI [of _ "[]"]) simp

lemma analysed_trans [trans]:
  assumes "analysed H s s'" and "analysed H s' s''"
  shows "analysed H s s''"
proof -
  from assms obtain ops ops' where "\<forall>op \<in> set (ops @ ops'). analysis_op op" "s'' = fold (apply_op H) (ops @ ops') s"
    by (auto simp: analysed_def)
  then show ?thesis unfolding analysed_def by blast
qed

lemma analysed_op: "analysis_op op \<Longrightarrow> analysed H s (apply_op H op s)"
  unfolding analysed_def by (rule exI [of _ "[op]"]) simp

lemma analysed_SaveCert: "analysed H s (SaveCert H t a s)"
  using analysed_op [of "Op_SaveCert t a" H s] by simp

lemma analysed_SavePoolCert: "analysed H s (fst (SavePoolCert H t a s))"
  using analysed_op [of "Op_SavePoolCert t a" H s] by simp

lemma analysed_trust: "analysed H s s' \<Longrightarrow> IsCertTrusted h s' = IsCertTrusted h s"
  by (auto simp: analysed_def archive.harmless_saves)

lemma analysed_ok: "analysed H s s' \<Longrightarrow> store_ok H s \<Longrightarrow> store_ok H s'"
proof -
  have "store_ok H s \<Longrightarrow> store_ok H (fold (apply_op H) ops s)" for ops
    by (induction ops arbitrary: s) (simp_all add: store_ok_apply_op)
  then show "analysed H s s' \<Longrightarrow> store_ok H s \<Longrightarrow> store_ok H s'" by (auto simp: analysed_def)
qed

text \<open>Reading the outside does not write.\<close>

lemma outside_store [simp]: "time_now E w = (t, w') \<Longrightarrow> w_store w' = w_store w"
  "ctx_Err E w = (e, w') \<Longrightarrow> w_store w' = w_store w"
  "fetchWithInfo E k u w = (r, w') \<Longrightarrow> w_store w' = w_store w"
  "w_store (warn s w) = w_store w"
  by (auto simp: time_now_def ctx_Err_def fetchWithInfo_def warn_def split: prod.splits)

lemma pool_path_analysed: "analysed (e_hash E) (w_store w) (w_store (pool_path E tr cs w))"
proof (induction E tr cs w rule: pool_path.induct)
  case (2 E tr c cs w)
  show ?case
  proof (cases "IsCA c \<and> DER c \<noteq> [] \<and> DER c \<notin> set tr")
    case True
    obtain t w1 where t: "time_now E w = (t, w1)" by fastforce
    let ?w = "w1\<lparr>w_store := fst (SavePoolCert (e_hash E) t (args_of c '''') (w_store w1))\<rparr>"
    have "analysed (e_hash E) (w_store w) (w_store ?w)"
      using outside_store(1) [OF t] by (simp add: analysed_SavePoolCert)
    also have "analysed (e_hash E) (w_store ?w) (w_store (pool_path E tr cs ?w))"
      using "2.IH"(1) [OF True t [symmetric]] by simp
    finally show ?thesis using True t by simp
  next
    case False
    then show ?thesis using "2.IH"(2) by auto
  qed
qed simp

lemma trustedPath_analysed:
  "trustedPath E der roots ints tr w = Some (r, w') \<Longrightarrow> analysed (e_hash E) (w_store w) (w_store w')"
  by (auto simp: trustedPath_def Let_def pool_path_analysed split: if_splits option.splits sum.splits)

lemma archiveIssuer_store: "archiveIssuer E cert bag as w = (r, bag', w') \<Longrightarrow> w_store w' = w_store w"
  by (auto simp: archiveIssuer_def Let_def split: prod.splits option.splits)

lemma fallback_store: "fallback E cert bag x as w = (r, bag', w') \<Longrightarrow> w_store w' = w_store w"
  by (auto simp: fallback_def archiveIssuer_store split: option.splits)

lemma try_aia_store: "try_aia E cert us bag w = (r, bag', w') \<Longrightarrow> w_store w' = w_store w"
proof (induction us arbitrary: bag w)
  case (Cons u us)
  obtain x w1 where x: "fetchWithInfo E fetchAIA u w = (x, w1)" by fastforce
  note s = outside_store(3) [OF x]
  show ?case
  proof (cases x)
    case (Inl e)
    with Cons x s show ?thesis by auto
  next
    case (Inr data)
    show ?thesis
    proof (cases "ParseAllCerts (e_mp E) data")
      case Inl
      with Inr Cons x s show ?thesis by auto
    next
      case (Inr ders)
      with \<open>x = Inr data\<close> Cons x s show ?thesis
        by (auto simp: Let_def split: if_splits option.splits)
    qed
  qed
qed simp

lemma resolveIssuer_store: "resolveIssuer E cert bag w = (r, bag', w') \<Longrightarrow> w_store w' = w_store w"
  by (auto simp: resolveIssuer_def Let_def dest!: fallback_store try_aia_store
      split: option.splits prod.splits sum.splits if_splits)

section \<open>The chain\<close>

text \<open>What holds of a chain under construction, of the certificate it has got to and of the digests seen.\<close>

definition chain_inv :: "hashes \<Rightarrow> CertInfo \<Rightarrow> chainEntry list \<Rightarrow> CertInfo \<Rightarrow> string list \<Rightarrow> bool" where
  "chain_inv H leaf chain current seen \<longleftrightarrow>
     chain \<noteq> [] \<and> ce_info (hd chain) = leaf \<and> ce_info (last chain) = current
   \<and> distinct (map (\<lambda>e. SHA256Hex H (DER (ce_info e))) chain)
   \<and> set seen = (\<lambda>e. SHA256Hex H (DER (ce_info e))) ` set chain
   \<and> (\<forall>e \<in> set (butlast chain). \<not> IsSelfSigned (ce_info e))"

lemma chain_inv_extend:
  assumes "chain_inv H leaf chain current seen" and "\<not> IsSelfSigned current" and "SHA256Hex H (DER i) \<notin> set seen"
  shows "chain_inv H leaf (chain @ [\<lparr>ce_info = i, ce_source = src\<rparr>]) i (SHA256Hex H (DER i) # seen)"
proof -
  have "set chain = insert (last chain) (set (butlast chain))"
    using assms(1) by (metis chain_inv_def append_butlast_last_id list.set(1) list.simps(15) set_append sup_bot_right Un_insert_right)
  with assms show ?thesis by (auto simp: chain_inv_def hd_append)
qed

text \<open>One passage through the loop: the chain is complete, the context ended, no new issuer was found, or one was.\<close>

lemma chain_loop_cases:
  assumes "chain_loop E (Suc room) current chain seen bag w = (r, w')"
  obtains (root) "IsSelfSigned current" "r = Inr (chain, current, bag)" "w' = w"
  | (ended) e where "ctx_Err E w = (Some e, w')" "r = Inl e"
  | (over) w1 y bag' w2 where "ctx_Err E w = (None, w1)" "resolveIssuer E current bag w1 = (y, bag', w2)"
      "r = Inr (chain, current, bag')" "w_store w' = w_store w2"
  | (onward) w1 i src bag' w2 where "\<not> IsSelfSigned current" "ctx_Err E w = (None, w1)"
      "resolveIssuer E current bag w1 = (Some (i, src), bag', w2)" "SHA256Hex (e_hash E) (DER i) \<notin> set seen"
      "chain_loop E room i (chain @ [\<lparr>ce_info = i, ce_source = src\<rparr>]) (SHA256Hex (e_hash E) (DER i) # seen) bag' w2 = (r, w')"
proof (cases "IsSelfSigned current")
  case True
  with assms show ?thesis by (intro root) simp_all
next
  case ns: False
  obtain e w1 where e: "ctx_Err E w = (e, w1)" by fastforce
  show ?thesis
  proof (cases e)
    case (Some x)
    with ns e assms show ?thesis by (intro ended) auto
  next
    case None
    obtain y b w2 where y: "resolveIssuer E current bag w1 = (y, b, w2)" by (cases "resolveIssuer E current bag w1")
    show ?thesis
    proof (cases "\<exists>i src. y = Some (i, src) \<and> SHA256Hex (e_hash E) (DER i) \<notin> set seen")
      case True
      then obtain i src where i: "y = Some (i, src)" "SHA256Hex (e_hash E) (DER i) \<notin> set seen" by blast
      show ?thesis by (rule onward [of w1 i src b w2]) (use ns e None y i assms in \<open>simp_all add: Let_def\<close>)
    next
      case False
      with ns e None y assms have "r = Inr (chain, current, b) \<and> w_store w' = w_store w2"
        by (cases y) (auto simp: Let_def)
      with e None y show ?thesis by (intro over) auto
    qed
  qed
qed

lemma chain_loop_inv:
  assumes "chain_loop E room current chain seen bag w = (Inr (chain', current', bag'), w')"
    and "chain_inv (e_hash E) leaf chain current seen"
  shows "length chain' \<le> length chain + room \<and> (\<exists>seen'. chain_inv (e_hash E) leaf chain' current' seen')
       \<and> w_store w' = w_store w"
  using assms
proof (induction room arbitrary: current chain seen bag w)
  case 0
  then show ?case by auto
next
  case (Suc room)
  from Suc.prems(1) show ?case
  proof (cases rule: chain_loop_cases)
    case root
    with Suc.prems(2) show ?thesis by auto
  next
    case (over w1 y b w2)
    with Suc.prems(2) outside_store(2) [OF over(1)] resolveIssuer_store [OF over(2)] show ?thesis by auto
  next
    case (onward w1 i src b w2)
    note st = outside_store(2) [OF onward(2)] resolveIssuer_store [OF onward(3)]
    from Suc.IH [OF onward(5) chain_inv_extend [OF Suc.prems(2) onward(1,4)]] st show ?thesis by auto
  qed simp
qed

text \<open>
  Property C24. The chain an analysis builds has at most ten certificates, starts at the leaf, holds
  no certificate twice, and only its last one can be self-signed.
\<close>

lemma chain_well_formed:
  assumes "build_chain E leaf src bag w = (Inr (chain, current, bag'), w')"
  shows "length chain \<le> 10 \<and> chain \<noteq> [] \<and> ce_info (hd chain) = leaf \<and> ce_info (last chain) = current
       \<and> distinct (map (\<lambda>e. SHA256Hex (e_hash E) (DER (ce_info e))) chain)
       \<and> (\<forall>e \<in> set (butlast chain). \<not> IsSelfSigned (ce_info e))"
proof -
  have "chain_inv (e_hash E) leaf [\<lparr>ce_info = leaf, ce_source = src\<rparr>] leaf [SHA256Hex (e_hash E) (DER leaf)]"
    by (simp add: chain_inv_def)
  from chain_loop_inv [OF assms [unfolded build_chain_def] this] show ?thesis
    by (auto simp: chain_inv_def maxChainDepth_def)
qed

section \<open>Where an issuer comes from\<close>

text \<open>The candidates that parse, with their being in the pool.\<close>

definition readable :: "('c, 'l, 'o, 's) minipki \<Rightarrow> candidate list \<Rightarrow> (bool \<times> CertInfo) list" where
  "readable mp cs = List.map_filter (\<lambda>c. case ParseCertInfo mp (cand_der c) of Inl _ \<Rightarrow> None
     | Inr i \<Rightarrow> Some (cand_pool c, i)) cs"

lemma readable_simps [simp]: "readable mp [] = []"
  "readable mp (c # cs) = (case ParseCertInfo mp (cand_der c) of Inl _ \<Rightarrow> readable mp cs
     | Inr i \<Rightarrow> (cand_pool c, i) # readable mp cs)"
  by (simp_all add: readable_def List.map_filter_def split: sum.split)

lemma scan_candidates_eq:
  "scan_candidates mp now cs x as =
     (case find (\<lambda>(p, i). p \<and> in_validity now i) (readable mp cs) of
        Some (_, i) \<Rightarrow> Inl i
      | None \<Rightarrow> Inr (if x = None then map_option snd (find fst (readable mp cs)) else x,
                     as @ map snd (filter (\<lambda>(p, i). \<not> p) (readable mp cs))))"
proof (induction cs arbitrary: x as)
  case (Cons c cs)
  show ?case
  proof (cases "ParseCertInfo mp (cand_der c)")
    case (Inl e)
    then have "readable mp (c # cs) = readable mp cs"
      "scan_candidates mp now (c # cs) x as = scan_candidates mp now cs x as" by simp_all
    with Cons show ?thesis by (simp only:)
  next
    case (Inr i)
    with Cons show ?thesis
      by (cases "cand_pool c"; cases "in_validity now i"; cases x) (auto split: option.split)
  qed
qed simp

lemma pick_archived_in: "pick_archived now p is = Some i \<Longrightarrow> i \<in> set is \<or> p = Some i"
  by (induction "now" p "is" rule: pick_archived.induct) (auto split: option.splits if_splits)

text \<open>
  What the URLs serve, said apart from the loop that asks them: the readable certificates of one answer, nothing when
  the download or its parsing fails or there are too many; and the outside after a list of URLs was asked in turn.
\<close>

definition aia_certs :: "('c, 'l, 'o, 's, 'n) env \<Rightarrow> string \<Rightarrow> 'n \<Rightarrow> CertInfo list" where
  "aia_certs E u n =
     (case fst (e_fetch E fetchAIA u n) of Inl _ \<Rightarrow> []
      | Inr data \<Rightarrow> (case ParseAllCerts (e_mp E) data of Inl _ \<Rightarrow> []
         | Inr ders \<Rightarrow> if length ders > maxAIACerts then [] else parsed_certs (e_mp E) ders))"

definition aia_net :: "('c, 'l, 'o, 's, 'n) env \<Rightarrow> string list \<Rightarrow> 'n \<Rightarrow> 'n" where
  "aia_net E us n = fold (\<lambda>u n. snd (e_fetch E fetchAIA u n)) us n"

definition aia_served :: "('c, 'l, 'o, 's, 'n) env \<Rightarrow> string list \<Rightarrow> 'n \<Rightarrow> nat \<Rightarrow> CertInfo list" where
  "aia_served E us n k = aia_certs E (us ! k) (aia_net E (take k us) n)"

lemma aia_simps [simp]:
  "aia_net E [] n = n" "aia_net E (u # us) n = aia_net E us (snd (e_fetch E fetchAIA u n))"
  "aia_served E (u # us) n 0 = aia_certs E u n" "aia_served E (u # us) n (Suc k) = aia_served E us (snd (e_fetch E fetchAIA u n)) k"
  by (simp_all add: aia_net_def aia_served_def)

definition best_of :: "CertInfo \<Rightarrow> CertInfo list \<Rightarrow> CertInfo \<Rightarrow> bool" where
  "best_of cert cs i \<longleftrightarrow> i \<in> set cs
     \<and> ((\<exists>c \<in> set cs. ski_match cert c) \<longrightarrow> ski_match cert i)
     \<and> ((\<exists>c \<in> set cs. ski_match cert c \<and> IsSelfSigned c) \<longrightarrow> IsSelfSigned i)"

lemma pick_fetched_best: "pick_fetched cert cs = Some i \<Longrightarrow> best_of cert cs i"
  unfolding pick_fetched_def best_of_def
  by (auto split: option.splits list.splits dest!: find_SomeD simp: find_None_iff)

lemma pick_fetched_None: "pick_fetched cert cs = None \<longleftrightarrow> cs = []"
  by (auto simp: pick_fetched_def split: option.splits list.splits dest!: find_SomeD)

text \<open>One URL: without a certificate of its own it only costs the download, else the search ends with it.\<close>

lemma try_aia_one:
  fixes w :: "'n world"
  shows "\<exists>v. w_net v = snd (e_fetch E fetchAIA u (w_net w)) \<and>
     try_aia E cert (u # us) bag w =
       (case pick_fetched cert (aia_certs E u (w_net w)) of None \<Rightarrow> try_aia E cert us bag v
        | Some i \<Rightarrow> (Some i, bag @ map (\<lambda>i. \<lparr>bc_info = i, bc_source = ''fetched''\<rparr>) (aia_certs E u (w_net w)), v))"
proof -
  obtain x n where x: "e_fetch E fetchAIA u (w_net w) = (x, n)" by fastforce
  have skip: ?thesis if "aia_certs E u (w_net w) = []" "try_aia E cert (u # us) bag w = try_aia E cert us bag v" "w_net v = n" for v
    using that x by (intro exI [of _ v]) (simp add: pick_fetched_None [THEN iffD2])
  show ?thesis
  proof (cases "\<exists>data ders. x = Inr data \<and> ParseAllCerts (e_mp E) data = Inr ders \<and> \<not> length ders > maxAIACerts")
    case False
    show ?thesis
    proof (cases x)
      case (Inl e)
      with x show ?thesis
        by (intro skip [of "warn (''AIA fetch failed ('' @ u @ ''): '' @ publicError e) (w\<lparr>w_net := n\<rparr>)"])
          (simp_all add: aia_certs_def fetchWithInfo_def, simp add: warn_def)
    next
      case data: (Inr data)
      show ?thesis
      proof (cases "ParseAllCerts (e_mp E) data")
        case (Inl e)
        with x data show ?thesis
          by (intro skip [of "warn (''Failed to parse AIA: '' @ err_text e) (w\<lparr>w_net := n\<rparr>)"])
            (simp_all add: aia_certs_def fetchWithInfo_def, simp add: warn_def)
      next
        case (Inr ders)
        with False data have many: "length ders > maxAIACerts" by blast
        with x data Inr show ?thesis
          by (intro skip [of "warn (''AIA '' @ u @ '': '' @ digits_of (length ders) @ '' certificates, limit ''
                @ digits_of maxAIACerts) (w\<lparr>w_net := n\<rparr>)"])
            (simp_all add: aia_certs_def fetchWithInfo_def, simp add: warn_def)
      qed
    qed
  next
    case True
    then obtain data ders where d: "x = Inr data" "ParseAllCerts (e_mp E) data = Inr ders" "\<not> length ders > maxAIACerts"
      by blast
    then have cs: "aia_certs E u (w_net w) = parsed_certs (e_mp E) ders" using x by (simp add: aia_certs_def)
    show ?thesis
    proof (cases "pick_fetched cert (parsed_certs (e_mp E) ders)")
      case None
      then have "parsed_certs (e_mp E) ders = []" by (simp add: pick_fetched_None)
      with cs x d show ?thesis by (intro skip [of "w\<lparr>w_net := n\<rparr>"]) (simp_all add: fetchWithInfo_def pick_fetched_None [THEN iffD2])
    next
      case (Some i)
      with cs x d show ?thesis by (intro exI [of _ "w\<lparr>w_net := n\<rparr>"]) (simp add: fetchWithInfo_def Let_def)
    qed
  qed
qed

lemma try_aia_serves:
  "try_aia E cert us bag w = (r, bag', w') \<Longrightarrow>
     (case r of
        Some i \<Rightarrow> \<exists>k < length us. (\<forall>j < k. aia_served E us (w_net w) j = []) \<and> best_of cert (aia_served E us (w_net w) k) i
          \<and> bag' = bag @ map (\<lambda>i. \<lparr>bc_info = i, bc_source = ''fetched''\<rparr>) (aia_served E us (w_net w) k)
          \<and> w_net w' = aia_net E (take (Suc k) us) (w_net w)
      | None \<Rightarrow> (\<forall>j < length us. aia_served E us (w_net w) j = []) \<and> bag' = bag \<and> w_net w' = aia_net E us (w_net w))"
proof (induction us arbitrary: bag w)
  case (Cons u us)
  let ?cs = "aia_certs E u (w_net w)"
  obtain v where v: "w_net v = snd (e_fetch E fetchAIA u (w_net w))" and step: "try_aia E cert (u # us) bag w =
       (case pick_fetched cert ?cs of None \<Rightarrow> try_aia E cert us bag v
        | Some i \<Rightarrow> (Some i, bag @ map (\<lambda>i. \<lparr>bc_info = i, bc_source = ''fetched''\<rparr>) ?cs, v))"
    using try_aia_one by blast
  show ?case
  proof (cases "pick_fetched cert ?cs")
    case (Some i)
    with step Cons.prems have "r = Some i" "bag' = bag @ map (\<lambda>i. \<lparr>bc_info = i, bc_source = ''fetched''\<rparr>) ?cs" "w' = v" by auto
    with v pick_fetched_best [OF Some] show ?thesis by (auto intro!: exI [of _ 0])
  next
    case None
    with step Cons.prems have "try_aia E cert us bag v = (r, bag', w')" by simp
    note rest = Cons.IH [OF this, unfolded v]
    have none: "?cs = []" using None by (simp add: pick_fetched_None)
    show ?thesis
    proof (cases r)
      case None
      with rest none show ?thesis by (auto simp: less_Suc_eq_0_disj)
    next
      case (Some i)
      with rest obtain k where "k < length us" "\<forall>j < k. aia_served E us (snd (e_fetch E fetchAIA u (w_net w))) j = []"
        "best_of cert (aia_served E us (snd (e_fetch E fetchAIA u (w_net w))) k) i"
        "bag' = bag @ map (\<lambda>i. \<lparr>bc_info = i, bc_source = ''fetched''\<rparr>) (aia_served E us (snd (e_fetch E fetchAIA u (w_net w))) k)"
        "w_net w' = aia_net E (take (Suc k) us) (snd (e_fetch E fetchAIA u (w_net w)))" by auto
      with Some none show ?thesis
        by (simp only: option.case, intro exI [of _ "Suc k"]) (auto simp: less_Suc_eq_0_disj)
    qed
  qed
qed simp

text \<open>The last resort takes the first expired pool certificate, or without one an archived certificate, a valid one before others.\<close>

lemma pick_archived_first:
  "pick_archived now (Some p) is = Some (if in_validity now p then p else case find (in_validity now) is of Some i \<Rightarrow> i | None \<Rightarrow> p)"
  by (induction "is" arbitrary: p) auto

lemma fallback_source:
  assumes "fallback E cert b (map_option snd (find fst cands)) as v = (Some (i, src), bag', w')"
    and as: "as = map snd (filter (\<lambda>(p, i). \<not> p) cands)"
  shows "(src = ''cache'' \<and> find fst cands = Some (True, i) \<and> bag' = b \<and> w_net w' = w_net v)
       \<or> (src = ''archive'' \<and> (\<forall>j. (True, j) \<notin> set cands) \<and> (False, i) \<in> set cands
          \<and> ((\<exists>a. (False, a) \<in> set cands \<and> in_validity (fst (time_now E v)) a) \<longrightarrow> in_validity (fst (time_now E v)) i))"
proof (cases "find fst cands")
  case (Some pj)
  with assms(1) show ?thesis by (cases pj) (auto simp: fallback_def dest!: find_SomeD)
next
  case None
  then have no: "\<forall>j. (True, j) \<notin> set cands" by (auto simp: find_None_iff)
  obtain now v1 where t: "time_now E v = (now, v1)" by fastforce
  from None assms(1) t obtain p "is" where p: "as = p # is" "src = ''archive''" "pick_archived now (Some p) is = Some i"
    by (cases as) (auto simp: fallback_def archiveIssuer_def Let_def split: option.splits)
  then have i: "i \<in> set as" "(\<exists>a \<in> set as. in_validity now a) \<longrightarrow> in_validity now i"
    by (auto simp: pick_archived_first find_None_iff split: if_splits option.splits dest!: find_SomeD)
  with no p(2) t show ?thesis by (force simp: as)
qed

text \<open>Once neither the bag nor a valid pool certificate gave an issuer: AIA, then the last resort.\<close>

lemma resolve_outside:
  assumes r: "resolveIssuer E cert bag w = (Some (i, src), bag', w')"
    and bag: "find (bag_match cert) bag = None" and t: "time_now E w = (now, w1)"
    and scan: "scan_candidates (e_mp E) now (FindIssuers (IssuerNameDER cert) (AKI cert) maxAltCandidates archiveSample (w_store w)) None []
        = Inr (x, as)"
    and us: "us = usableURLs (AIAURLs cert) maxAIAURLs"
  obtains v where "fallback E cert bag x as v = (Some (i, src), bag', w')" "\<forall>j < length us. aia_served E us (w_net w1) j = []"
      "w_net v = aia_net E us (w_net w1)"
    | k where "src = ''fetched''" "k < length us" "\<forall>j < k. aia_served E us (w_net w1) j = []"
      "best_of cert (aia_served E us (w_net w1) k) i"
      "bag' = bag @ map (\<lambda>i. \<lparr>bc_info = i, bc_source = ''fetched''\<rparr>) (aia_served E us (w_net w1) k)"
      "w_net w' = aia_net E (take (Suc k) us) (w_net w1)"
proof (cases "AIAURLs cert = []")
  case True
  then have "us = []" by (simp add: us usableURLs_def)
  moreover from True bag t scan r
  have "fallback E cert bag x as (warn (''No AIA URL in: '' @ Subject cert) w1) = (Some (i, src), bag', w')"
    by (simp add: resolveIssuer_def)
  ultimately show thesis by (intro that(1) [of "warn (''No AIA URL in: '' @ Subject cert) w1"]) (simp_all, simp add: warn_def)
next
  case False
  obtain y b v where aia: "try_aia E cert us bag w1 = (y, b, v)"
    by (cases "try_aia E cert us bag w1")
  note done_aia = try_aia_serves [OF aia]
  show thesis
  proof (cases y)
    case None
    with done_aia have "b = bag" by simp
    with None False aia bag t scan r have "fallback E cert bag x as v = (Some (i, src), bag', w')"
      by (simp add: resolveIssuer_def us)
    with None done_aia show thesis by (intro that(1)) auto
  next
    case (Some j)
    with False aia bag t scan r have "j = i" "src = ''fetched''" "bag' = b" "w' = v"
      by (simp_all add: resolveIssuer_def us)
    with Some done_aia show thesis using that(2) by auto
  qed
qed

text \<open>
  Property C25. The issuer of a certificate is looked for in a fixed order: one the analysis holds, the first valid one
  of the pool's candidates, then the first URL that serves a certificate at all, then the first expired one of the pool,
  and only then the archive. Nothing is fetched while the analysis or the pool has one. Among what a URL serves a
  certificate with the key identifier is preferred, a self-signed one first; an expired certificate of the pool is taken
  only when no URL served anything, and an archived one only when moreover the pool has no readable candidate, one that
  is valid before those that are not.
\<close>

lemma issuer_sources_in_order:
  assumes "resolveIssuer E cert bag w = (Some (i, src), bag', w')"
  defines "cands \<equiv> readable (e_mp E) (FindIssuers (IssuerNameDER cert) (AKI cert) maxAltCandidates archiveSample (w_store w))"
    and "us \<equiv> usableURLs (AIAURLs cert) maxAIAURLs"
    and "now \<equiv> fst (time_now E w)" and "n \<equiv> w_net (snd (time_now E w))"
  shows "(\<exists>c. find (bag_match cert) bag = Some c \<and> i = bc_info c \<and> src = bc_source c \<and> w' = w \<and> bag' = bag)
       \<or> (find (bag_match cert) bag = None \<and>
          ((src = ''cache'' \<and> find (\<lambda>(pool, j). pool \<and> in_validity now j) cands = Some (True, i)
              \<and> w' = snd (time_now E w) \<and> bag' = bag)
         \<or> ((\<forall>j. (True, j) \<in> set cands \<longrightarrow> \<not> in_validity now j) \<and>
            ((src = ''fetched'' \<and> (\<exists>k < length us. (\<forall>j < k. aia_served E us n j = []) \<and> best_of cert (aia_served E us n k) i
                \<and> bag' = bag @ map (\<lambda>c. \<lparr>bc_info = c, bc_source = ''fetched''\<rparr>) (aia_served E us n k)
                \<and> w_net w' = aia_net E (take (Suc k) us) n))
           \<or> ((\<forall>j < length us. aia_served E us n j = []) \<and>
              ((src = ''cache'' \<and> find fst cands = Some (True, i) \<and> bag' = bag \<and> w_net w' = aia_net E us n)
             \<or> (src = ''archive'' \<and> (\<forall>j. (True, j) \<notin> set cands) \<and> (False, i) \<in> set cands
                \<and> ((\<exists>a. (False, a) \<in> set cands \<and> in_validity (fst (e_clock E (aia_net E us n))) a)
                    \<longrightarrow> in_validity (fst (e_clock E (aia_net E us n))) i))))))))"
proof (cases "find (bag_match cert) bag")
  case (Some c)
  with assms(1) show ?thesis by (simp add: resolveIssuer_def)
next
  case bag: None
  obtain t w1 where t: "time_now E w = (t, w1)" by fastforce
  then have n: "now = t" "n = w_net w1" by (simp_all add: now_def n_def)
  show ?thesis
  proof (cases "find (\<lambda>(p, i). p \<and> in_validity now i) cands")
    case (Some pi)
    obtain p j where pi: "pi = (p, j)" by (cases pi)
    with Some have "p" by (auto dest!: find_SomeD)
    with Some pi bag t n assms(1) show ?thesis
      by (simp add: resolveIssuer_def scan_candidates_eq cands_def)
  next
    case None
    then have no: "\<forall>j. (True, j) \<in> set cands \<longrightarrow> \<not> in_validity now j"
      by (auto simp: find_None_iff)
    have scan: "scan_candidates (e_mp E) t (FindIssuers (IssuerNameDER cert) (AKI cert) maxAltCandidates archiveSample (w_store w)) None []
        = Inr (map_option snd (find fst cands), map snd (filter (\<lambda>(p, i). \<not> p) cands))"
      using None n by (simp add: scan_candidates_eq cands_def)
    show ?thesis
      using assms(1) bag t scan us_def [THEN meta_eq_to_obj_eq]
    proof (cases rule: resolve_outside)
      case (1 v)
      have "fst (time_now E v) = fst (e_clock E (aia_net E us n))"
        using 1(3) n by (simp add: time_now_def split: prod.split)
      with fallback_source [OF 1(1) refl] 1(2,3) bag no n show ?thesis by simp
    next
      case (2 k)
      with bag no n show ?thesis by blast
    qed
  qed
qed

section \<open>Roots and intermediates\<close>

definition parts_ok :: "(bool \<times> bytes) list \<Rightarrow> parts \<Rightarrow> bool" where
  "parts_ok items p \<longleftrightarrow> distinct (p_roots p @ p_ints p) \<and> set (p_seen p) = set (p_roots p @ p_ints p)
     \<and> set (p_seen p) = snd ` set items
     \<and> (\<forall>d \<in> set (p_roots p). (True, d) \<in> set items) \<and> (\<forall>d \<in> set (p_ints p). (False, d) \<in> set items)"

lemma parts_ok_add: "parts_ok items p \<Longrightarrow> parts_ok (items @ [(root, der)]) (addCert root der p)"
  by (auto simp: parts_ok_def addCert_def)

lemma parts_ok_fold: "parts_ok done p \<Longrightarrow> parts_ok (done @ items) (fold (\<lambda>(root, der). addCert root der) items p)"
proof (induction items arbitrary: "done" p)
  case (Cons x items)
  obtain root der where x: "x = (root, der)" by (cases x)
  from Cons.IH [OF parts_ok_add [OF Cons.prems, of root der]] x show ?case by simp
qed simp

text \<open>
  The verifier is given every collected certificate exactly once, a root only if it
  was seen self-signed, an intermediate only if it was seen not to be.
\<close>

lemma verifier_input_partitioned:
  "distinct (p_roots (partition_certs items) @ p_ints (partition_certs items))
   \<and> set (p_roots (partition_certs items) @ p_ints (partition_certs items)) = snd ` set items
   \<and> set (p_roots (partition_certs items)) \<subseteq> {d. (True, d) \<in> set items}
   \<and> set (p_ints (partition_certs items)) \<subseteq> {d. (False, d) \<in> set items}"
  using parts_ok_fold [of "[]" "\<lparr>p_roots = [], p_ints = [], p_seen = []\<rparr>" items]
  by (auto simp: parts_ok_def partition_certs_def)

section \<open>Trust\<close>

lemma anchors_of_set: "set (anchors_of E s roots) = {r \<in> set roots. IsCertTrusted (SHA256Hex (e_hash E) r) s}"
  by (auto simp: anchors_of_def)

text \<open>
  A certificate has a trusted path only through a root of the store's trust: the
  verifier accepted it with nothing but trusted roots as anchors, and the path ends at one of
  them, whose subject is the one reported. Of the verifier it relies on one documented thing: a
  path it accepts ends at an anchor it was given.
\<close>

lemma trusted_path_ends_at_trusted_root:
  assumes anchored: "\<And>leaf anchors ints vr. chain_Verify (e_mp E) (e_num E) leaf anchors ints = Some (Inr vr)
      \<Longrightarrow> ChainStatus vr = ''ok'' \<Longrightarrow> vr_Chain vr \<noteq> [] \<Longrightarrow> DER (last (vr_Chain vr)) \<in> set anchors"
    and path: "trustedPath E der roots ints tr w = Some (Some subj, w')"
  shows "\<exists>vr. chain_Verify (e_mp E) (e_num E) der (anchors_of E (w_store w) roots) ints = Some (Inr vr)
       \<and> ChainStatus vr = ''ok'' \<and> subj = Subject (last (vr_Chain vr)) \<and> DER (last (vr_Chain vr)) \<in> set roots
       \<and> trusted E (last (vr_Chain vr)) (w_store w) \<and> trusted E (last (vr_Chain vr)) (w_store w')"
proof -
  from path obtain vr where vr: "chain_Verify (e_mp E) (e_num E) der (anchors_of E (w_store w) roots) ints = Some (Inr vr)"
    "ChainStatus vr = ''ok''" "vr_Chain vr \<noteq> []" "subj = Subject (last (vr_Chain vr))"
    by (auto simp: trustedPath_def Let_def split: if_splits option.splits sum.splits)
  from anchored [OF this(1-3)] have "DER (last (vr_Chain vr)) \<in> set roots" "trusted E (last (vr_Chain vr)) (w_store w)"
    by (auto simp: anchors_of_set trusted_def)
  moreover have "trusted E (last (vr_Chain vr)) (w_store w') = trusted E (last (vr_Chain vr)) (w_store w)"
    using analysed_trust [OF trustedPath_analysed [OF path]] by (simp add: trusted_def)
  ultimately show ?thesis using vr by blast
qed

text \<open>
  Without a trusted root among the candidates nothing is trusted: the verifier is not
  even asked and nothing is written, whatever self-signed certificates came along.
\<close>

lemma no_trusted_root_no_path:
  assumes "\<And>r. r \<in> set roots \<Longrightarrow> \<not> IsCertTrusted (SHA256Hex (e_hash E) r) (w_store w)"
  shows "trustedPath E der roots ints tr w = Some (None, w)"
proof -
  have "anchors_of E (w_store w) roots = []" using assms by (auto simp: anchors_of_def filter_empty_conv)
  then show ?thesis by (simp add: trustedPath_def)
qed

section \<open>Building a chain does not write\<close>

lemma quiet_store [simp]: "w_store (depth_warning chain c w) = w_store w" "w_store (url_warnings es w) = w_store w"
proof -
  show "w_store (depth_warning chain c w) = w_store w" by (simp add: depth_warning_def)
  show "w_store (url_warnings es w) = w_store w" by (induction es arbitrary: w) simp_all
qed

lemma chain_loop_store: "chain_loop E room current chain seen bag w = (r, w') \<Longrightarrow> w_store w' = w_store w"
proof (induction room arbitrary: current chain seen bag w)
  case (Suc room)
  from Suc.prems show ?case
  proof (cases rule: chain_loop_cases)
    case (onward w1 i src b w2)
    from Suc.IH [OF onward(5)] outside_store(2) [OF onward(2)] resolveIssuer_store [OF onward(3)] show ?thesis by simp
  qed (auto dest: outside_store(2) resolveIssuer_store)
qed simp

section \<open>Where certificates come from\<close>

text \<open>A certificate the library read, from one of the sources of issuers.\<close>

definition supplied :: "('c, 'l, 'o, 's, 'n) env \<Rightarrow> CertInfo \<Rightarrow> string \<Rightarrow> bool" where
  "supplied E i src \<longleftrightarrow> src \<in> {''fetched'', ''cache'', ''archive''} \<and> (\<exists>d. ParseCertInfo (e_mp E) d = Inr i)"

definition all_supplied :: "('c, 'l, 'o, 's, 'n) env \<Rightarrow> bagCert list \<Rightarrow> bool" where
  "all_supplied E bs \<longleftrightarrow> (\<forall>c \<in> set bs. supplied E (bc_info c) (bc_source c))"

lemma all_supplied_append [simp]: "all_supplied E (bs @ bs') \<longleftrightarrow> all_supplied E bs \<and> all_supplied E bs'"
  by (auto simp: all_supplied_def)

lemma readable_parsed: "(p, i) \<in> set (readable mp cs) \<Longrightarrow> \<exists>d. ParseCertInfo mp d = Inr i"
  by (induction cs) (auto split: sum.splits)

lemma parsed_certs_supplied: "all_supplied E (map (\<lambda>i. \<lparr>bc_info = i, bc_source = ''fetched''\<rparr>) (parsed_certs (e_mp E) ds))"
  by (auto simp: all_supplied_def supplied_def parsed_certs_def List.map_filter_def split: if_splits sum.splits)

lemma try_aia_adds:
  "try_aia E cert us bag w = (r, bag', w') \<Longrightarrow> \<exists>bs. bag' = bag @ bs \<and> all_supplied E bs \<and> (\<forall>i. r = Some i \<longrightarrow> supplied E i ''fetched'')"
proof (induction us arbitrary: bag w)
  case Nil
  then show ?case by (simp add: all_supplied_def)
next
  case (Cons u us)
  obtain x w1 where x: "fetchWithInfo E fetchAIA u w = (x, w1)" by fastforce
  show ?case
  proof (cases "\<exists>data ders. x = Inr data \<and> ParseAllCerts (e_mp E) data = Inr ders \<and> \<not> length ders > maxAIACerts")
    case False
    with Cons x show ?thesis by (cases x) (auto split: sum.splits)
  next
    case True
    then obtain data ders where d: "x = Inr data" "ParseAllCerts (e_mp E) data = Inr ders" "\<not> length ders > maxAIACerts"
      by blast
    let ?new = "map (\<lambda>i. \<lparr>bc_info = i, bc_source = ''fetched''\<rparr>) (parsed_certs (e_mp E) ders)"
    note new = parsed_certs_supplied [of E ders]
    show ?thesis
    proof (cases "pick_fetched cert (parsed_certs (e_mp E) ders)")
      case None
      with Cons.prems x d have "try_aia E cert us (bag @ ?new) w1 = (r, bag', w')" by (simp add: Let_def)
      from Cons.IH [OF this] new show ?thesis by auto
    next
      case (Some j)
      then have "j \<in> set (parsed_certs (e_mp E) ders)"
        by (auto simp: pick_fetched_def split: option.splits list.splits dest: find_SomeD)
      then have "supplied E j ''fetched''" using new by (auto simp: all_supplied_def)
      with Some Cons.prems x d new show ?thesis by (auto simp: Let_def)
    qed
  qed
qed

lemma fallback_adds:
  assumes "fallback E cert bag x as w = (r, bag', w')"
    and "\<forall>i. x = Some i \<longrightarrow> (\<exists>d. ParseCertInfo (e_mp E) d = Inr i)" and "\<forall>i \<in> set as. \<exists>d. ParseCertInfo (e_mp E) d = Inr i"
  shows "\<exists>bs. bag' = bag @ bs \<and> all_supplied E bs \<and> (\<forall>i src. r = Some (i, src) \<longrightarrow> supplied E i src)"
  using assms
  by (auto simp: fallback_def archiveIssuer_def Let_def all_supplied_def supplied_def split: option.splits prod.splits
      dest!: pick_archived_in)

lemma outside_adds:
  assumes r: "(if AIAURLs cert = [] then fallback E cert bag x as w
      else case try_aia E cert us bag w1 of (Some i, b, v) \<Rightarrow> (Some (i, ''fetched''), b, v) | (None, b, v) \<Rightarrow> fallback E cert b x as v)
      = (r, bag', w')"
    and parsed: "\<forall>i. x = Some i \<longrightarrow> (\<exists>d. ParseCertInfo (e_mp E) d = Inr i)" "\<forall>i \<in> set as. \<exists>d. ParseCertInfo (e_mp E) d = Inr i"
  shows "\<exists>bs. bag' = bag @ bs \<and> all_supplied E bs \<and> (\<forall>i src. r = Some (i, src) \<longrightarrow> supplied E i src)"
proof (cases "AIAURLs cert = []")
  case True
  with r have "fallback E cert bag x as w = (r, bag', w')" by simp
  from fallback_adds [OF this parsed] show ?thesis .
next
  case False
  obtain y b v where aia: "try_aia E cert us bag w1 = (y, b, v)" by (cases "try_aia E cert us bag w1")
  note adds = try_aia_adds [OF aia]
  show ?thesis
  proof (cases y)
    case None
    with False r aia have "fallback E cert b x as v = (r, bag', w')" by simp
    from fallback_adds [OF this parsed] adds show ?thesis by auto
  next
    case (Some i)
    with False r aia adds show ?thesis by auto
  qed
qed

text \<open>What looking for an issuer adds to the bag, and what it returns.\<close>

lemma resolveIssuer_adds:
  assumes r: "resolveIssuer E cert bag w = (r, bag', w')"
  shows "\<exists>bs. bag' = bag @ bs \<and> all_supplied E bs
    \<and> (\<forall>i src. r = Some (i, src) \<longrightarrow> (\<exists>c \<in> set bag. i = bc_info c \<and> src = bc_source c) \<or> supplied E i src)"
proof (cases "find (bag_match cert) bag")
  case (Some c)
  then have "c \<in> set bag" by (auto dest: find_SomeD)
  with Some r show ?thesis by (auto simp: resolveIssuer_def all_supplied_def)
next
  case bag: None
  define cands where "cands = readable (e_mp E) (FindIssuers (IssuerNameDER cert) (AKI cert) maxAltCandidates archiveSample (w_store w))"
  have parsed: "\<forall>(p, i) \<in> set cands. \<exists>d. ParseCertInfo (e_mp E) d = Inr i"
    using readable_parsed by (fastforce simp: cands_def)
  obtain now w1 where t: "time_now E w = (now, w1)" by fastforce
  let ?x = "map_option snd (find fst cands)" and ?as = "map snd (filter (\<lambda>(p, i). \<not> p) cands)"
  show ?thesis
  proof (cases "find (\<lambda>(p, i). p \<and> in_validity now i) cands")
    case (Some pi)
    then have "pi \<in> set cands" by (auto dest: find_SomeD)
    with Some bag t r parsed show ?thesis
      by (cases pi) (auto simp: resolveIssuer_def scan_candidates_eq cands_def [symmetric] all_supplied_def supplied_def)
  next
    case None
    have run: "(if AIAURLs cert = [] then fallback E cert bag ?x ?as (warn (''No AIA URL in: '' @ Subject cert) w1)
        else case try_aia E cert (usableURLs (AIAURLs cert) maxAIAURLs) bag w1 of
            (Some i, b, v) \<Rightarrow> (Some (i, ''fetched''), b, v) | (None, b, v) \<Rightarrow> fallback E cert b ?x ?as v) = (r, bag', w')"
      using None bag t r by (simp add: resolveIssuer_def scan_candidates_eq cands_def [symmetric])
    have x: "\<forall>i. ?x = Some i \<longrightarrow> (\<exists>d. ParseCertInfo (e_mp E) d = Inr i)"
      and as: "\<forall>i \<in> set ?as. \<exists>d. ParseCertInfo (e_mp E) d = Inr i"
      using parsed by (auto dest!: find_SomeD)
    from outside_adds [OF run x as] show ?thesis by blast
  qed
qed

text \<open>The same for the whole chain: what is added to it and to the bag.\<close>

lemma chain_loop_adds:
  "chain_loop E room current chain seen bag w = (Inr (chain', current', bag'), w') \<Longrightarrow>
     \<exists>es bs. chain' = chain @ es \<and> bag' = bag @ bs \<and> all_supplied E bs
       \<and> (\<forall>e \<in> set es. (\<exists>c \<in> set bag. ce_info e = bc_info c \<and> ce_source e = bc_source c) \<or> supplied E (ce_info e) (ce_source e))"
proof (induction room arbitrary: current chain seen bag w)
  case 0
  then show ?case by (simp add: all_supplied_def)
next
  case (Suc room)
  from Suc.prems show ?case
  proof (cases rule: chain_loop_cases)
    case root
    then show ?thesis by (simp add: all_supplied_def)
  next
    case (over w1 y b w2)
    with resolveIssuer_adds [OF over(2)] show ?thesis by auto
  next
    case (onward w1 i src b w2)
    from resolveIssuer_adds [OF onward(3)] obtain bs where b: "b = bag @ bs" "all_supplied E bs"
      "(\<exists>c \<in> set bag. i = bc_info c \<and> src = bc_source c) \<or> supplied E i src" by auto
    from Suc.IH [OF onward(5)] obtain es bs' where rest: "chain' = chain @ \<lparr>ce_info = i, ce_source = src\<rparr> # es" "bag' = b @ bs'"
      "all_supplied E bs'" "\<forall>e \<in> set es. (\<exists>c \<in> set b. ce_info e = bc_info c \<and> ce_source e = bc_source c) \<or> supplied E (ce_info e) (ce_source e)"
      by auto
    have "\<forall>e \<in> set (\<lparr>ce_info = i, ce_source = src\<rparr> # es).
        (\<exists>c \<in> set bag. ce_info e = bc_info c \<and> ce_source e = bc_source c) \<or> supplied E (ce_info e) (ce_source e)"
      using rest(4) b by (fastforce simp: all_supplied_def)
    with rest b show ?thesis by (intro exI [of _ "\<lparr>ce_info = i, ce_source = src\<rparr> # es"] exI [of _ "bs @ bs'"]) simp
  qed simp
qed

section \<open>The certificates in a store\<close>

definition ders :: "store \<Rightarrow> bytes set" where
  "ders s = c_der ` set (certs s)"

lemma ders_SaveCert: "ders (SaveCert H t a s) \<subseteq> insert (a_der a) (ders s)"
  by (auto simp: ders_def SaveCert_def cert_of_args_def)

lemma ders_SavePoolCert: "ders (fst (SavePoolCert H t a s)) \<subseteq> insert (a_der a) (ders s)"
  by (auto simp: ders_def SavePoolCert_def Let_def cert_of_args_def update_where_def)

end
