(* ===== verification/Chain_Sample.thy ===== *)
theory Chain_Sample
  imports Chain_Laws
begin

text \<open>
  A small certificate library and outside world to run the chain on: a certificate is one byte, 1 is a
  self-signed CA, 2 a leaf it issued, 3 a self-signed stranger; the verifier accepts a leaf when
  there is an anchor and shows the path from it. The properties of Chain_Laws are applied to it.
\<close>

definition sample_getters :: "bytes cert_getters" where
  "sample_getters =
     \<lparr>mp_cert_subject = (\<lambda>c. Some (if c = [1] then ''root'' else if c = [2] then ''leaf'' else ''stranger'')),
      mp_cert_issuer = (\<lambda>c. Some (if c = [3] then ''stranger'' else ''root'')),
      mp_cert_serial = (\<lambda>c. Some ''0''),
      mp_cert_not_before = (\<lambda>c. Some 0), mp_cert_not_after = (\<lambda>c. Some 100),
      mp_cert_is_ca = (\<lambda>c. Some (if c = [2] then 0 else 1)),
      mp_cert_is_self_signed = (\<lambda>c. Some (if c = [2] then 0 else 1)),
      mp_cert_key_algorithm = (\<lambda>c. None), mp_cert_key_bits = (\<lambda>c. None), mp_cert_key_curve = (\<lambda>c. None),
      mp_cert_key_usage = (\<lambda>c. Some 0xFFFFFFFF), mp_cert_eku_count = (\<lambda>c. None), mp_cert_eku_oid = (\<lambda>c i. None),
      mp_cert_pathlen = (\<lambda>c. None), mp_cert_san_count = (\<lambda>c. None), mp_cert_san_entry = (\<lambda>c i. None),
      mp_cert_ski = (\<lambda>c. None), mp_cert_aki = (\<lambda>c. None),
      mp_cert_subject_name_der = (\<lambda>c. Some c), mp_cert_issuer_name_der = (\<lambda>c. Some (if c = [3] then [3] else [1])),
      mp_cert_aia_count = (\<lambda>c. None), mp_cert_aia_url = (\<lambda>c i. None),
      mp_cert_ocsp_count = (\<lambda>c. None), mp_cert_ocsp_url = (\<lambda>c i. None),
      mp_cert_cdp_count = (\<lambda>c. if c = [2] then Some 1 else None), mp_cert_cdp_url = (\<lambda>c i. Some ''http://a/crl''),
      mp_cert_der = (\<lambda>c. Some c)\<rparr>"

text \<open>A CRL is one byte too; 7 lists certificate 2, 8 lists nothing; both are issued and verified by 1.\<close>

definition sample_crl_getters :: "bytes crl_getters" where
  "sample_crl_getters =
     \<lparr>mp_crl_issuer = (\<lambda>c. Some ''root''), mp_crl_this_update = (\<lambda>c. Some 10), mp_crl_next_update = (\<lambda>c. Some 90),
      mp_crl_revoked_count = (\<lambda>c. None), mp_crl_issuer_name_der = (\<lambda>c. Some [1]), mp_crl_aki = (\<lambda>c. None),
      mp_crl_has_idp = (\<lambda>c. Some 0), mp_crl_is_delta = (\<lambda>c. Some 0), mp_crl_der = (\<lambda>c. Inr c)\<rparr>"

definition sample_ocsp_getters :: "bytes ocsp_getters" where
  "sample_ocsp_getters =
     \<lparr>mp_ocsp_status = (\<lambda>x. MP_OCSP_GOOD), mp_ocsp_verified = (\<lambda>x. 1), mp_ocsp_this_update = (\<lambda>x. Some 10),
      mp_ocsp_next_update = (\<lambda>x. Some 90), mp_ocsp_produced_at = (\<lambda>x. None), mp_ocsp_revoked_at = (\<lambda>x. None),
      mp_ocsp_revoke_reason = (\<lambda>x. None), mp_ocsp_der = (\<lambda>x. Some x)\<rparr>"

definition sample_mp :: "(bytes, bytes, bytes, bytes list) minipki" where
  "sample_mp =
     \<lparr>mp_cert = sample_getters, mp_crl = sample_crl_getters, mp_ocsp = sample_ocsp_getters,
      mp_cert_parse = (\<lambda>d. if d \<in> {[1], [2], [3]} then Inr d else Inl MP_ERR_PARSE),
      mp_crl_parse = (\<lambda>d. if d \<in> {[7], [8]} then Inr d else Inl MP_ERR_PARSE),
      mp_crl_verify = (\<lambda>l c. if c = [1] then MP_OK else MP_ERR_VERIFY),
      mp_crl_is_revoked = (\<lambda>l c. Inr (if l = [7] \<and> c = [2] then 1 else 0)),
      mp_ocsp_request_der = (\<lambda>c i. Inl MP_ERR_OPENSSL),
      mp_ocsp_response_parse = (\<lambda>c i d. Inl MP_ERR_PARSE),
      mp_bag_parse = (\<lambda>d. Inr [Some d]),
      mp_store_new = Inr [],
      mp_store_add_root = (\<lambda>s r. Inr (s @ [r])),
      mp_store_add_intermediate = (\<lambda>s r. Inr s),
      mp_store_set_flags = (\<lambda>s. Inr s),
      mp_verify = (\<lambda>s c. case s of [] \<Rightarrow> Inl MP_ERR_NO_CHAIN | r # _ \<Rightarrow> Inr [c, r]),
      mp_verify_last_error = (\<lambda>s c. (20, 0, ''unable to get local issuer certificate''))\<rparr>"

definition sample_env :: "(bytes, bytes, bytes, bytes list, unit) env" where
  "sample_env =
     \<lparr>e_mp = sample_mp, e_num = (\<lambda>_. 0), e_rd = \<lparr>ReadAnyASN1 = (\<lambda>_. None), ReadASN1 = (\<lambda>_ _. None), SkipOptionalASN1 = (\<lambda>_ _. None)\<rparr>,
      e_hash = sample_hashes, e_clock = (\<lambda>n. (50 * nsec, n)), e_ctx_err = (\<lambda>n. (None, n)),
      e_fetch = (\<lambda>k u n. (if u = ''http://a/crl'' then Inr [7] else Inl DeadlineExceeded, n)),
      e_post = (\<lambda>u b n. (Inl DeadlineExceeded, n)), e_acquire = (\<lambda>k n. (None, n)),
      e_quote = (\<lambda>s. s), e_rfc3339 = (\<lambda>t. ''time''), e_asn1 = (\<lambda>d. None)\<rparr>"

definition sample_info :: "bytes \<Rightarrow> CertInfo" where
  "sample_info d = extractCertInfo sample_getters d"

text \<open>The store after the root 1 was imported from a bundle and the stranger 3 was uploaded.\<close>

definition sample_world :: "unit world" where
  "sample_world = \<lparr>w_store = SaveCert sample_hashes 0 (args_of (sample_info [3]) '''')
       (fst (ImportTrustedCert sample_hashes 0 (args_of (sample_info [1]) ''bundle'') empty_store)),
     w_warn = [], w_net = ()\<rparr>"

lemma sample_chain:
  "build_chain sample_env (sample_info [2]) ''upload'' [] sample_world
     = (Inr ([\<lparr>ce_info = sample_info [2], ce_source = ''upload''\<rparr>, \<lparr>ce_info = sample_info [1], ce_source = ''cache''\<rparr>],
             sample_info [1], []), sample_world)"
  by code_simp

lemma chain_well_formed_witness:
  "\<exists>chain c bag w. build_chain sample_env (sample_info [2]) ''upload'' [] sample_world = (Inr (chain, c, bag), w)
     \<and> length chain = 2 \<and> length chain \<le> 10"
  using chain_well_formed [OF sample_chain] by (simp add: sample_chain)

lemma sample_resolve:
  "resolveIssuer sample_env (sample_info [2]) [] sample_world = (Some (sample_info [1], ''cache''), [], sample_world)"
  by code_simp

lemma issuer_sources_in_order_witness:
  "(True, sample_info [1]) \<in> set (readable sample_mp (FindIssuers [1] '''' maxAltCandidates archiveSample (w_store sample_world)))"
proof -
  have "IssuerNameDER (sample_info [2]) = [1]" "AKI (sample_info [2]) = ''''" "e_mp sample_env = sample_mp"
    by (simp_all add: sample_info_def extractCertInfo_def sample_getters_def got_def sample_env_def)
  with issuer_sources_in_order [OF sample_resolve] show ?thesis by (auto dest!: find_SomeD)
qed

text \<open>What the verifier of the sample accepts ends at its first anchor.\<close>

lemma sample_add_all: "add_all what f (\<lambda>s r. Inr (s @ [r])) i st rs = Some (Inr st') \<Longrightarrow> st' = st @ rs"
  by (induction rs arbitrary: i st) (fastforce split: if_splits)+

lemma sample_add_none: "add_all what f (\<lambda>s r. Inr s) i st rs = Some (Inr st') \<Longrightarrow> st' = st"
  by (induction rs arbitrary: i) (auto split: if_splits)

lemma sample_DER: "DER (extractCertInfo sample_getters c) = c"
  by (simp add: extractCertInfo_def sample_getters_def got_def)

lemma sample_anchored:
  assumes "chain_Verify sample_mp num leaf anchors ints = Some (Inr vr)" and "ChainStatus vr = ''ok''"
  shows "DER (last (vr_Chain vr)) \<in> set anchors"
proof -
  from assms(1) obtain c where v: "vr = verify_result sample_mp num anchors c"
    by (auto simp: chain_Verify_def sample_mp_def dest!: sample_add_all sample_add_none
        split: if_splits option.splits sum.splits)
  show ?thesis
  proof (cases anchors)
    case Nil
    with v assms(2) show ?thesis
      by (simp add: verify_result_def sample_mp_def empty_result_def)
  next
    case (Cons r rs)
    with v show ?thesis by (simp add: verify_result_def sample_mp_def empty_result_def sample_DER)
  qed
qed

lemma sample_path:
  "map_option fst (trustedPath sample_env [2] [[3], [1]] [] [] sample_world) = Some (Some ''root'')"
  by code_simp

lemma trusted_path_ends_at_trusted_root_witness:
  "\<exists>c. Subject c = ''root'' \<and> DER c \<in> {[3], [1]} \<and> trusted sample_env c (w_store sample_world)"
proof -
  from sample_path obtain w where w: "trustedPath sample_env [2] [[3], [1]] [] [] sample_world = Some (Some ''root'', w)" by auto
  have "\<exists>vr. chain_Verify (e_mp sample_env) (e_num sample_env) [2] (anchors_of sample_env (w_store sample_world) [[3], [1]]) [] = Some (Inr vr)
       \<and> ChainStatus vr = ''ok'' \<and> ''root'' = Subject (last (vr_Chain vr)) \<and> DER (last (vr_Chain vr)) \<in> set [[3], [1]]
       \<and> trusted sample_env (last (vr_Chain vr)) (w_store sample_world) \<and> trusted sample_env (last (vr_Chain vr)) (w_store w)"
    by (rule trusted_path_ends_at_trusted_root [OF _ w]) (auto simp: sample_env_def intro: sample_anchored)
  then show ?thesis by auto
qed

lemma no_trusted_root_no_path_witness:
  "trustedPath sample_env [3] [[3]] [] [] sample_world = Some (None, sample_world)"
proof (rule no_trusted_root_no_path)
  have "\<not> IsCertTrusted (SHA256Hex sample_hashes [3]) (w_store sample_world)" by code_simp
  then show "\<not> IsCertTrusted (SHA256Hex (e_hash sample_env) r) (w_store sample_world)" if "r \<in> set [[3]]" for r
    using that by (simp add: sample_env_def)
qed

definition sample_bag :: "bagCert list" where
  "sample_bag = [\<lparr>bc_info = sample_info [3], bc_source = ''link''\<rparr>]"

end
