(* ===== verification/Revocation.thy ===== *)
theory Revocation
  imports Chain
begin

text \<open>
  How an analysis decides whether each certificate of its chain is revoked (the second half of
  \<open>analyzeData\<close> in cmd/certview/handler.go: \<open>findCRLIssuer\<close>, \<open>processCRL\<close>, the passes over the CRL
  distribution points, \<open>cachedCRL\<close>, \<open>openCRL\<close>, \<open>fetchCRL\<close>, \<open>resolveOCSP\<close>) and what it concludes
  of them. The state of one certificate's check is the record \<open>rev\<close>; the CRLs and OCSP responses
  shown under their issuers are lists over the whole chain. \<open>None\<close> is a panic of the verifier.
\<close>

section \<open>Results\<close>

record revResult =
  rr_status :: string
  rr_revoked :: bool
  rr_via :: string
  rr_revokedAt :: string
  rr_reason :: string

definition no_result :: revResult where
  "no_result = \<lparr>rr_status = '''', rr_revoked = False, rr_via = '''', rr_revokedAt = '''', rr_reason = ''''\<rparr>"

text \<open>\<open>derRef\<close>: a small object is embedded; a large one is referred to when it is stored.\<close>

datatype derJSON = InlineDER bytes | DerURL string nat | DerSize nat

definition inlineDERMax :: nat where "inlineDERMax = 262144"

definition derRef :: "hashes \<Rightarrow> store \<Rightarrow> bytes \<Rightarrow> derJSON" where
  "derRef H s der =
     (if length der \<le> inlineDERMax then InlineDER der
      else if HasDER (SHA256Hex H der) s then DerURL (''/api/der/'' @ SHA256Hex H der) (length der)
      else DerSize (length der))"

record crlJSON =
  j_URLs :: "string list"
  j_Issuer :: string
  j_AKI :: string
  j_ThisUpdate :: string
  j_NextUpdate :: string
  j_RevokedCount :: int
  j_CertRevoked :: bool
  j_Source :: string
  j_SignatureStatus :: string
  j_SignatureMsg :: string
  j_HasIDP :: bool
  j_IsDelta :: bool
  j_der :: "derJSON option"
  j_Errors :: "string list"

record ocspJSON =
  oj_URL :: string
  oj_Status :: string
  oj_Verified :: bool
  oj_VerifyMsg :: string
  oj_ThisUpdate :: string
  oj_NextUpdate :: string
  oj_ProducedAt :: string
  oj_RevokedAt :: string
  oj_Reason :: string
  oj_CertSubject :: string
  oj_CertSerial :: string
  oj_Source :: string
  oj_der :: derJSON

text \<open>
  One certificate's check: \<open>crlChecked\<close>, its result, why it is undetermined, the index of the CRLs
  shown for it, and the lists shown so far, each entry with the position it is shown under.
\<close>

record rev =
  rv_checked :: bool
  rv_result :: revResult
  rv_reasons :: "string list"
  rv_index :: "((nat \<times> string \<times> string) \<times> nat) list"
  rv_crls :: "(nat \<times> crlJSON) list"
  rv_ocsps :: "(nat \<times> ocspJSON) list"

definition undecided :: "string \<Rightarrow> rev \<Rightarrow> rev" where
  "undecided reason r = (if reason \<in> set (rv_reasons r) then r else r\<lparr>rv_reasons := rv_reasons r @ [reason]\<rparr>)"

section \<open>One CRL\<close>

text \<open>What every step of a check is given: the chain, the verifier's input, the transient certificates, the position.\<close>

record check =
  ck_chain :: "chainEntry list"
  ck_parts :: parts
  ck_transient :: "bytes list"
  ck_i :: nat
  ck_issuer :: "nat option"

definition ck_cert :: "check \<Rightarrow> CertInfo" where
  "ck_cert k = ce_info (ck_chain k ! ck_i k)"

text \<open>\<open>issuerIdx\<close>: the first CA above the certificate.\<close>

definition issuerIdx :: "chainEntry list \<Rightarrow> nat \<Rightarrow> nat option" where
  "issuerIdx chain i = find (\<lambda>j. IsCA (ce_info (chain ! j))) [Suc i..<length chain]"

definition names_issuer :: "CRLInfo \<Rightarrow> CertInfo \<Rightarrow> bool" where
  "names_issuer ci c \<longleftrightarrow> SubjectNameDER c = crl_IssuerNameDER ci
     \<and> \<not> (crl_AKI ci \<noteq> '''' \<and> SKI c \<noteq> '''' \<and> crl_AKI ci \<noteq> SKI c)"

definition findCRLIssuer :: "check \<Rightarrow> CRLInfo \<Rightarrow> CertInfo option" where
  "findCRLIssuer k ci =
     (case (if crl_IssuerNameDER ci \<noteq> [] then find (names_issuer ci) (map ce_info (ck_chain k)) else None) of
        Some c \<Rightarrow> Some c
      | None \<Rightarrow> map_option (\<lambda>j. ce_info (ck_chain k ! j)) (ck_issuer k))"

definition crlScopeNote :: "(string \<Rightarrow> string) \<Rightarrow> CRLInfo \<Rightarrow> CertInfo \<Rightarrow> string" where
  "crlScopeNote quote ci cert =
     (if crl_IssuerNameDER ci \<noteq> IssuerNameDER cert
      then ''CRL '' @ quote (crl_Issuer ci) @ '' is not issued by the certificate's issuer''
      else if IsDelta ci
      then ''CRL '' @ quote (crl_Issuer ci) @ '' is a delta CRL, listing only revocations since its base CRL''
      else ''CRL '' @ quote (crl_Issuer ci) @ '' is scoped by issuingDistributionPoint, which does not cover the certificate'')"

text \<open>The UTF-8 bytes of the dash in the code's messages.\<close>

definition em_dash :: string where
  "em_dash = [CHR 0xE2, CHR 0x80, CHR 0x94]"

text \<open>The signature's status and the message shown with it; then the warning about the dates.\<close>

definition crl_signature :: "('c, 'l, 'o, 's, 'n) env \<Rightarrow> 'l CRL \<Rightarrow> CertInfo option \<Rightarrow> string \<times> string" where
  "crl_signature E crl issuer =
     (case issuer of
        None \<Rightarrow> (''unchecked'', ''issuer CA not in chain '' @ em_dash @ '' signature not verified'')
      | Some c \<Rightarrow>
          if \<not> CanSignCRL c then (''unchecked'', ''issuer certificate may not sign CRLs'')
          else case crl_Verify (e_mp E) crl (DER c) of
            ErrCRLBadSignature \<Rightarrow> (''bad'', ''signature does not match issuer public key'')
          | CRLError e \<Rightarrow> (''unchecked'', err_text e)
          | Verified \<Rightarrow> (''verified'', ''''))"

definition crl_dates :: "('c, 'l, 'o, 's, 'n) env \<Rightarrow> CRLInfo \<Rightarrow> gotime \<Rightarrow> string option" where
  "crl_dates E ci now =
     (if ThisUpdate ci \<noteq> zero_time \<and> now < ThisUpdate ci
      then Some (''CRL '' @ e_quote E (crl_Issuer ci) @ '': thisUpdate '' @ e_rfc3339 E (ThisUpdate ci) @ '' is in the future'')
      else if NextUpdate ci \<noteq> zero_time \<and> NextUpdate ci < now
      then Some (''CRL '' @ e_quote E (crl_Issuer ci) @ '': expired at '' @ e_rfc3339 E (NextUpdate ci))
      else None)"

definition crl_warning :: "('c, 'l, 'o, 's, 'n) env \<Rightarrow> CRLInfo \<Rightarrow> string \<times> string \<Rightarrow> string option \<Rightarrow> string" where
  "crl_warning E ci sig dates =
     (case dates of Some d \<Rightarrow> d
      | None \<Rightarrow> if fst sig = ''verified'' then ''''
                else ''CRL '' @ e_quote E (crl_Issuer ci) @ '': '' @ snd sig)"

text \<open>The decision: \<open>revoked\<close> by an authoritative CRL counts whatever its scope, unrevoked only within it.\<close>

definition decide_crl :: "('c, 'l, 'o, 's, 'n) env \<Rightarrow> CertInfo \<Rightarrow> CRLInfo \<Rightarrow> bool \<Rightarrow> bool \<Rightarrow> rev \<Rightarrow> rev" where
  "decide_crl E cert ci authoritative revoked r =
     (if authoritative \<and> \<not> rv_checked r then
        (if revoked then r\<lparr>rv_result := no_result\<lparr>rr_status := ''revoked'', rr_revoked := True, rr_via := ''CRL''\<rparr>, rv_checked := True\<rparr>
         else if \<not> Covers ci cert then undecided (crlScopeNote (e_quote E) ci cert) r
         else r\<lparr>rv_result := no_result\<lparr>rr_status := ''not_revoked'', rr_via := ''CRL''\<rparr>, rv_checked := True\<rparr>)
      else r)"

text \<open>A fetched CRL is kept when its issuer verifies to a trusted root.\<close>

definition keep_crl :: "('c, 'l, 'o, 's, 'n) env \<Rightarrow> check \<Rightarrow> CertInfo \<Rightarrow> 'l CRL \<Rightarrow> string \<Rightarrow> 'n world \<Rightarrow> 'n world option" where
  "keep_crl E k crlIssuer crl url w =
     (case trustedPath E (DER crlIssuer) (p_roots (ck_parts k)) (p_ints (ck_parts k)) (ck_transient k) w of
        None \<Rightarrow> None
      | Some (None, w1) \<Rightarrow> Some w1
      | Some (Some _, w1) \<Rightarrow>
          (case time_now E w1 of (t1, w2) \<Rightarrow> (case time_now E w2 of (t2, w3) \<Rightarrow> (case time_now E w3 of (t3, w4) \<Rightarrow>
             Some (w4\<lparr>w_store := SaveCRL (e_hash E) t1 t2 t3 (crl_Issuer (Info crl)) url (crl_DER crl)
                       (ThisUpdate (Info crl)) (NextUpdate (Info crl)) (w_store w4)\<rparr>)))))"

text \<open>The CRL is shown once under its position, issuer and nextUpdate; another URL of it is added to it.\<close>

definition show_crl :: "('c, 'l, 'o, 's, 'n) env \<Rightarrow> check \<Rightarrow> 'l CRL \<Rightarrow> string \<Rightarrow> string \<Rightarrow> string \<times> string \<Rightarrow> bool \<Rightarrow> store \<Rightarrow> rev \<Rightarrow> rev" where
  "show_crl E k crl source url sig revoked s r =
     (let ci = Info crl; target = (case ck_issuer k of Some j \<Rightarrow> j | None \<Rightarrow> ck_i k);
          key = (target, crl_Issuer ci, e_rfc3339 E (NextUpdate ci)) in
      case map_of (rv_index r) key of
        Some idx \<Rightarrow>
          if url = '''' then r
          else r\<lparr>rv_crls := (rv_crls r)[idx := (target, (snd (rv_crls r ! idx))\<lparr>j_URLs := j_URLs (snd (rv_crls r ! idx)) @ [url]\<rparr>)]\<rparr>
      | None \<Rightarrow>
          r\<lparr>rv_index := (key, length (rv_crls r)) # rv_index r,
            rv_crls := rv_crls r @ [(target,
              \<lparr>j_URLs = (if url = '''' then [] else [url]), j_Issuer = crl_Issuer ci, j_AKI = crl_AKI ci,
               j_ThisUpdate = e_rfc3339 E (ThisUpdate ci), j_NextUpdate = e_rfc3339 E (NextUpdate ci),
               j_RevokedCount = RevokedCount ci, j_CertRevoked = revoked, j_Source = source,
               j_SignatureStatus = fst sig, j_SignatureMsg = snd sig, j_HasIDP = CRLInfo.HasIDP ci, j_IsDelta = IsDelta ci,
               j_der = Some (derRef (e_hash E) s (crl_DER crl)), j_Errors = []\<rparr>)]\<rparr>)"

definition processCRL :: "('c, 'l, 'o, 's, 'n) env \<Rightarrow> check \<Rightarrow> 'l CRL \<Rightarrow> string \<Rightarrow> string \<Rightarrow> rev \<Rightarrow> 'n world
    \<Rightarrow> (bool \<times> rev \<times> 'n world) option" where
  "processCRL E k crl source url r w =
     (let ci = Info crl; issuer = findCRLIssuer k ci; sig = crl_signature E crl issuer in
      case time_now E w of (now, w1) \<Rightarrow>
      let dates = crl_dates E ci now; warning = crl_warning E ci sig dates;
          r1 = (if warning \<noteq> '''' then undecided warning r else r);
          auth0 = (fst sig = ''verified'' \<and> dates = None);
          check = (if auth0 then IsRevoked (e_mp E) crl (DER (ck_cert k)) else Inr False);
          authoritative = (auth0 \<and> (case check of Inl _ \<Rightarrow> False | Inr _ \<Rightarrow> True));
          revoked = (case check of Inl _ \<Rightarrow> False | Inr b \<Rightarrow> b);
          r2 = decide_crl E (ck_cert k) ci authoritative revoked r1;
          kept = (case issuer of
             Some c \<Rightarrow> if authoritative \<and> source = ''fetched'' then keep_crl E k c crl url w1 else Some w1
           | None \<Rightarrow> Some w1)
      in map_option (\<lambda>w2. (authoritative, show_crl E k crl source url sig revoked (w_store w2) r2, w2)) kept)"

section \<open>The passes over the distribution points\<close>

definition acquire :: "('c, 'l, 'o, 's, 'n) env \<Rightarrow> nat \<Rightarrow> 'n world \<Rightarrow> goerr option \<times> 'n world" where
  "acquire E n w = (case e_acquire E n (w_net w) of (e, net) \<Rightarrow> (e, w\<lparr>w_net := net\<rparr>))"

definition openCRL :: "('c, 'l, 'o, 's, 'n) env \<Rightarrow> bytes \<Rightarrow> 'n world \<Rightarrow> (goerr + 'l CRL) \<times> 'n world" where
  "openCRL E der w =
     (case acquire E (length der) w of
        (Some e, w1) \<Rightarrow> (Inl e, w1)
      | (None, w1) \<Rightarrow> (ParseCRL (e_mp E) (e_rd E) der, w1))"

definition cachedCRL :: "('c, 'l, 'o, 's, 'n) env \<Rightarrow> string \<Rightarrow> 'n world \<Rightarrow> 'l CRL option \<times> 'n world" where
  "cachedCRL E url w =
     (case time_now E w of (t1, w1) \<Rightarrow>
      let size = FreshCRLSize t1 url (w_store w1) in
      if size = 0 then (None, w1)
      else case acquire E size w1 of
        (Some e, w2) \<Rightarrow> (None, w2)
      | (None, w2) \<Rightarrow>
          (case time_now E w2 of (t2, w3) \<Rightarrow>
           (case FindFreshCRL t2 url (w_store w3) of
              None \<Rightarrow> (None, w3)
            | Some der \<Rightarrow>
                (case ParseCRL (e_mp E) (e_rd E) der of Inl _ \<Rightarrow> (None, w3) | Inr crl \<Rightarrow> (Some crl, w3)))))"

text \<open>The handler's method of this name, which downloads and parses; \<open>fetchCRL\<close> is the kind of the download.\<close>

definition fetch_crl :: "('c, 'l, 'o, 's, 'n) env \<Rightarrow> string \<Rightarrow> 'n world \<Rightarrow> (goerr + 'l CRL) \<times> 'n world" where
  "fetch_crl E url w =
     (case fetchWithInfo E fetchCRL url w of
        (Inl e, w1) \<Rightarrow> (Inl e, w1)
      | (Inr der, w1) \<Rightarrow>
          (case openCRL E der w1 of
             (Inl e, w2) \<Rightarrow> (Inl (Wrapped ''parse CRL: '' e), w2)
           | (Inr crl, w2) \<Rightarrow> (Inr crl, w2)))"

fun cached_pass :: "('c, 'l, 'o, 's, 'n) env \<Rightarrow> check \<Rightarrow> string list \<Rightarrow> string list \<Rightarrow> rev \<Rightarrow> 'n world
    \<Rightarrow> (string list \<times> rev \<times> 'n world) option" where
  "cached_pass E k [] ok r w = Some (ok, r, w)"
| "cached_pass E k (url # urls) ok r w =
     (if rv_checked r then Some (ok, r, w)
      else case ctx_Err E w of
        (Some e, w1) \<Rightarrow> Some (ok, r, w1)
      | (None, w1) \<Rightarrow>
          (case cachedCRL E url w1 of
             (None, w2) \<Rightarrow> cached_pass E k urls ok r w2
           | (Some crl, w2) \<Rightarrow>
               (case processCRL E k crl ''cache'' url r w2 of
                  None \<Rightarrow> None
                | Some (authoritative, r', w3) \<Rightarrow>
                    cached_pass E k urls (if authoritative then url # ok else removeAll url ok) r' w3)))"

fun fetch_pass :: "('c, 'l, 'o, 's, 'n) env \<Rightarrow> check \<Rightarrow> string list \<Rightarrow> string list \<Rightarrow> string list \<Rightarrow> rev \<Rightarrow> 'n world
    \<Rightarrow> (string list \<times> rev \<times> 'n world) option" where
  "fetch_pass E k cachedOK [] errs r w = Some (errs, r, w)"
| "fetch_pass E k cachedOK (url # urls) errs r w =
     (if rv_checked r then Some (errs, r, w)
      else case ctx_Err E w of
        (Some e, w1) \<Rightarrow> Some (errs, r, w1)
      | (None, w1) \<Rightarrow>
          if url \<in> set cachedOK then fetch_pass E k cachedOK urls errs r w1
          else case fetch_crl E url w1 of
            (Inl e, w2) \<Rightarrow>
              fetch_pass E k cachedOK urls (errs @ [url @ '': '' @ publicError e])
                (undecided (''CRL '' @ url @ '': '' @ publicError e) r) w2
          | (Inr crl, w2) \<Rightarrow>
              (case processCRL E k crl ''fetched'' url r w2 of
                 None \<Rightarrow> None
               | Some (_, r', w3) \<Rightarrow> fetch_pass E k cachedOK urls errs r' w3))"

text \<open>The fallback to a stored CRL of the issuer's name.\<close>

definition store_crl :: "('c, 'l, 'o, 's, 'n) env \<Rightarrow> check \<Rightarrow> string list \<Rightarrow> rev \<Rightarrow> 'n world
    \<Rightarrow> (string list \<times> rev \<times> 'n world) option" where
  "store_crl E k errs r w =
     (if rv_checked r then Some (errs, r, w)
      else case time_now E w of (t, w1) \<Rightarrow>
        (case FindFreshCRLByIssuer t (Issuer (ck_cert k)) (w_store w1) of
           None \<Rightarrow> Some (errs, r, w1)
         | Some der \<Rightarrow>
             (case openCRL E der w1 of
                (Inl _, w2) \<Rightarrow> Some (errs, r, w2)
              | (Inr crl, w2) \<Rightarrow>
                  map_option (\<lambda>(_, r', w3). ([], r', w3)) (processCRL E k crl ''store'' '''' r w2))))"

section \<open>OCSP\<close>

definition ocspUnverifiedNote :: string where
  "ocspUnverifiedNote = ''OCSP response not verified: bad signature or not current''"

definition ocspRevokedAt :: "('c, 'l, 'o, 's, 'n) env \<Rightarrow> OCSPResult \<Rightarrow> string" where
  "ocspRevokedAt E res = (if os_RevokedAt res = zero_time then '''' else e_rfc3339 E (os_RevokedAt res))"

definition revokeReasonName :: "int \<Rightarrow> string" where
  "revokeReasonName reason =
     (if reason < 0 then ''''
      else case map_of [(0, ''unspecified''), (1, ''keyCompromise''), (2, ''cACompromise''),
          (3, ''affiliationChanged''), (4, ''superseded''), (5, ''cessationOfOperation''),
          (6, ''certificateHold''), (8, ''removeFromCRL''), (9, ''privilegeWithdrawn''),
          (10, ''aACompromise'')] reason of
        Some name \<Rightarrow> name
      | None \<Rightarrow> ''reason '' @ string_of_int reason)"

definition postOCSP :: "('c, 'l, 'o, 's, 'n) env \<Rightarrow> string \<Rightarrow> bytes \<Rightarrow> 'n world \<Rightarrow> (goerr + bytes) \<times> 'n world" where
  "postOCSP E url body w = (case e_post E url body (w_net w) of (r, n) \<Rightarrow> (r, w\<lparr>w_net := n\<rparr>))"

text \<open>
  \<open>resolveOCSP\<close>: the response with its source and URL, or why the responders gave none usable. The
  loop over the responders is \<open>ask_ocsp\<close>.
\<close>

fun ask_ocsp :: "('c, 'l, 'o, 's, 'n) env \<Rightarrow> CertInfo \<Rightarrow> CertInfo \<Rightarrow> bytes \<Rightarrow> string \<Rightarrow> string list \<Rightarrow> 'n world
    \<Rightarrow> (string + OCSPResult \<times> string \<times> string) \<times> 'n world" where
  "ask_ocsp E cert issuer req failure [] w = (Inl failure, w)"
| "ask_ocsp E cert issuer req failure (url # urls) w =
     (case postOCSP E url req w of
        (Inl e, w1) \<Rightarrow> ask_ocsp E cert issuer req failure urls w1
      | (Inr body, w1) \<Rightarrow>
          (case ParseOCSPResponse (e_mp E) (DER cert) (DER issuer) body of
             Inl e \<Rightarrow> ask_ocsp E cert issuer req
               (''OCSP response from '' @ url @ '' has no status for the certificate or is malformed'') urls w1
           | Inr res \<Rightarrow> (Inr (res, ''fetched'', url), w1)))"

definition resolveOCSP :: "('c, 'l, 'o, 's, 'n) env \<Rightarrow> CertInfo \<Rightarrow> CertInfo \<Rightarrow> 'n world
    \<Rightarrow> (string + OCSPResult \<times> string \<times> string) \<times> 'n world" where
  "resolveOCSP E cert issuer w =
     (case time_now E w of (t, w1) \<Rightarrow>
      let cached = (case FindFreshOCSP t (sha1hex (e_hash E) (DER cert)) (w_store w1) of
            None \<Rightarrow> None
          | Some der \<Rightarrow> (case ParseOCSPResponse (e_mp E) (DER cert) (DER issuer) der of
               Inl _ \<Rightarrow> None | Inr res \<Rightarrow> Some res)) in
      case cached of
        Some res \<Rightarrow> (Inr (res, ''cache'', ''''), w1)
      | None \<Rightarrow>
          (case BuildOCSPRequest (e_mp E) (DER cert) (DER issuer) of
             Inl _ \<Rightarrow> (Inl '''', w1)
           | Inr req \<Rightarrow> ask_ocsp E cert issuer req '''' (usableURLs (OCSPURLs cert) maxOCSPURLs) w1))"

text \<open>Why a response is not counted; empty when it decides.\<close>

definition ocsp_note :: "OCSPResult \<Rightarrow> string" where
  "ocsp_note res =
     (if \<not> os_Verified res then ocspUnverifiedNote
      else if os_Status res = ''revoked'' \<or> os_Status res = ''good'' then ''''
      else ''OCSP status is '' @ os_Status res)"

definition decide_ocsp :: "('c, 'l, 'o, 's, 'n) env \<Rightarrow> OCSPResult \<Rightarrow> rev \<Rightarrow> rev" where
  "decide_ocsp E res r =
     (if ocsp_note res \<noteq> '''' then undecided (ocsp_note res) r
      else if os_Status res = ''revoked''
      then r\<lparr>rv_checked := True, rv_result := \<lparr>rr_status = ''revoked'', rr_revoked = True, rr_via = ''OCSP'',
             rr_revokedAt = ocspRevokedAt E res, rr_reason = revokeReasonName (os_RevokeReason res)\<rparr>\<rparr>
      else r\<lparr>rv_checked := True, rv_result := no_result\<lparr>rr_status := ''not_revoked'', rr_via := ''OCSP''\<rparr>\<rparr>)"

text \<open>A fetched response that verifies and expires is kept when its issuer verifies to a trusted root.\<close>

definition keep_ocsp :: "('c, 'l, 'o, 's, 'n) env \<Rightarrow> check \<Rightarrow> CertInfo \<Rightarrow> OCSPResult \<Rightarrow> string \<Rightarrow> string \<Rightarrow> 'n world
    \<Rightarrow> 'n world option" where
  "keep_ocsp E k issuer res source url w =
     (if source = ''fetched'' \<and> os_Verified res \<and> os_NextUpdate res \<noteq> zero_time
      then case trustedPath E (DER issuer) (p_roots (ck_parts k)) (p_ints (ck_parts k)) (ck_transient k) w of
             None \<Rightarrow> None
           | Some (None, w1) \<Rightarrow> Some w1
           | Some (Some _, w1) \<Rightarrow>
               (case time_now E w1 of (t1, w2) \<Rightarrow> (case time_now E w2 of (t2, w3) \<Rightarrow>
                  Some (w3\<lparr>w_store := fst (SaveOCSP (e_hash E) t1 t2 (sha1hex (e_hash E) (DER (ck_cert k))) url
                    (os_Status res) (os_DER res) (os_ThisUpdate res) (os_NextUpdate res) (os_ProducedAt res)
                    (w_store w3))\<rparr>)))
      else Some w)"

definition shown_time :: "('c, 'l, 'o, 's, 'n) env \<Rightarrow> gotime \<Rightarrow> string" where
  "shown_time E t = (if t = zero_time then '''' else e_rfc3339 E t)"

definition show_ocsp :: "('c, 'l, 'o, 's, 'n) env \<Rightarrow> CertInfo \<Rightarrow> OCSPResult \<Rightarrow> string \<Rightarrow> string \<Rightarrow> store \<Rightarrow> ocspJSON" where
  "show_ocsp E cert res source url s =
     \<lparr>oj_URL = url, oj_Status = os_Status res, oj_Verified = os_Verified res,
      oj_VerifyMsg = (if os_Verified res then '''' else ocsp_note res),
      oj_ThisUpdate = shown_time E (os_ThisUpdate res), oj_NextUpdate = shown_time E (os_NextUpdate res),
      oj_ProducedAt = shown_time E (os_ProducedAt res),
      oj_RevokedAt = (if os_Status res = ''revoked'' then ocspRevokedAt E res else ''''),
      oj_Reason = (if os_Status res = ''revoked'' then revokeReasonName (os_RevokeReason res) else ''''),
      oj_CertSubject = Subject cert, oj_CertSerial = Serial cert, oj_Source = source,
      oj_der = derRef (e_hash E) s (os_DER res)\<rparr>"

definition ocsp_step :: "('c, 'l, 'o, 's, 'n) env \<Rightarrow> check \<Rightarrow> string list \<Rightarrow> rev \<Rightarrow> 'n world
    \<Rightarrow> (string list \<times> rev \<times> 'n world) option" where
  "ocsp_step E k errs r w =
     (case (if \<not> rv_checked r \<and> OCSPURLs (ck_cert k) \<noteq> [] then ck_issuer k else None) of
        None \<Rightarrow> Some (errs, r, w)
      | Some j \<Rightarrow>
          (let issuer = ce_info (ck_chain k ! j) in
           case resolveOCSP E (ck_cert k) issuer w of
             (Inl failure, w1) \<Rightarrow> Some (errs, if failure \<noteq> '''' then undecided failure r else r, w1)
           | (Inr (res, source, url), w1) \<Rightarrow>
               map_option (\<lambda>w2. let r1 = decide_ocsp E res r in
                 (if ocsp_note res = '''' then [] else errs,
                  r1\<lparr>rv_ocsps := rv_ocsps r1 @ [(j, show_ocsp E (ck_cert k) res source url (w_store w2))]\<rparr>, w2))
               (keep_ocsp E k issuer res source url w1)))"

section \<open>One certificate, then the chain\<close>

text \<open>What is shown when nothing decided and a download failed.\<close>

definition failed_crl :: "CertInfo \<Rightarrow> string list \<Rightarrow> crlJSON" where
  "failed_crl cert errs =
     \<lparr>j_URLs = CDPURLs cert, j_Issuer = '''', j_AKI = '''', j_ThisUpdate = '''', j_NextUpdate = '''',
      j_RevokedCount = 0, j_CertRevoked = False, j_Source = '''', j_SignatureStatus = '''', j_SignatureMsg = '''',
      j_HasIDP = False, j_IsDelta = False, j_der = None, j_Errors = errs\<rparr>"

definition show_errors :: "check \<Rightarrow> string list \<Rightarrow> rev \<Rightarrow> rev" where
  "show_errors k errs r =
     (case ck_issuer k of
        Some j \<Rightarrow> if \<not> rv_checked r \<and> errs \<noteq> []
                  then r\<lparr>rv_crls := rv_crls r @ [(j, failed_crl (ck_cert k) errs)]\<rparr> else r
      | None \<Rightarrow> r)"

definition check_cert :: "('c, 'l, 'o, 's, 'n) env \<Rightarrow> check \<Rightarrow> rev \<Rightarrow> 'n world \<Rightarrow> ((goerr + rev) \<times> 'n world) option" where
  "check_cert E k r w =
     (let urls = usableURLs (CDPURLs (ck_cert k)) maxCDPURLs in
      case cached_pass E k urls [] r w of None \<Rightarrow> None | Some (ok, r1, w1) \<Rightarrow>
      (case fetch_pass E k ok urls [] r1 w1 of None \<Rightarrow> None | Some (errs2, r2, w2) \<Rightarrow>
      (case ctx_Err E w2 of
         (Some e, w3) \<Rightarrow> Some (Inl e, w3)
       | (None, w3) \<Rightarrow>
           (case store_crl E k errs2 r2 w3 of None \<Rightarrow> None | Some (errs4, r4, w4) \<Rightarrow>
           (case ocsp_step E k errs4 r4 w4 of None \<Rightarrow> None | Some (errs5, r5, w5) \<Rightarrow>
              Some (Inr (show_errors k errs5 r5), w5))))))"

text \<open>The certificates of a chain that are checked.\<close>

definition needs_check :: "CertInfo \<Rightarrow> bool" where
  "needs_check c \<longleftrightarrow> \<not> IsSelfSigned c \<and> \<not> (CDPURLs c = [] \<and> OCSPURLs c = [])"

text \<open>What the loop has found: for each certificate its result and reasons, and the lists shown.\<close>

record findings =
  f_results :: "(revResult \<times> string list) list"
  f_crls :: "(nat \<times> crlJSON) list"
  f_ocsps :: "(nat \<times> ocspJSON) list"

definition start_rev :: "findings \<Rightarrow> rev" where
  "start_rev f = \<lparr>rv_checked = False, rv_result = no_result, rv_reasons = [], rv_index = [], rv_crls = f_crls f,
     rv_ocsps = f_ocsps f\<rparr>"

fun check_chain :: "('c, 'l, 'o, 's, 'n) env \<Rightarrow> chainEntry list \<Rightarrow> parts \<Rightarrow> bytes list \<Rightarrow> nat list \<Rightarrow> findings \<Rightarrow> 'n world
    \<Rightarrow> ((goerr + findings) \<times> 'n world) option" where
  "check_chain E chain ps transient [] f w = Some (Inr f, w)"
| "check_chain E chain ps transient (i # is) f w =
     (case ctx_Err E w of
        (Some e, w1) \<Rightarrow> Some (Inl e, w1)
      | (None, w1) \<Rightarrow>
          if \<not> needs_check (ce_info (chain ! i))
          then check_chain E chain ps transient is (f\<lparr>f_results := f_results f @ [(no_result, [])]\<rparr>) w1
          else (case check_cert E \<lparr>ck_chain = chain, ck_parts = ps, ck_transient = transient, ck_i = i,
                    ck_issuer = issuerIdx chain i\<rparr> (start_rev f) w1 of
                  None \<Rightarrow> None
                | Some (Inl e, w2) \<Rightarrow> Some (Inl e, w2)
                | Some (Inr r, w2) \<Rightarrow>
                    check_chain E chain ps transient is
                      \<lparr>f_results = f_results f @ [(rv_result r, rv_reasons r)], f_crls = rv_crls r,
                       f_ocsps = rv_ocsps r\<rparr> w2))"

end
