(* ===== verification/Analyze.thy ===== *)
theory Analyze
  imports Revocation
begin

text \<open>
  What an analysis concludes and shows: the verdict at the end of \<open>analyzeData\<close>, \<open>doAnalyzeCRL\<close>
  for an uploaded CRL, the JSON of a certificate, and \<open>analyzeData\<close> itself, which composes the
  chain, the revocation check and the verdict (cmd/certview/handler.go). The signature algorithm
  shown with a certificate, read with \<open>encoding/asn1\<close>, is left out.
\<close>

section \<open>A certificate as it is shown\<close>

definition kuBits :: "(32 word \<times> string) list" where
  "kuBits =
     [(0x0080, ''Digital Signature''), (0x0040, ''Non Repudiation''), (0x0020, ''Key Encipherment''),
      (0x0010, ''Data Encipherment''), (0x0008, ''Key Agreement''), (0x0004, ''Certificate Sign''),
      (0x0002, ''CRL Sign''), (0x0001, ''Encipher Only''), (0x8000, ''Decipher Only'')]"

definition decodeKeyUsage :: "32 word \<Rightarrow> string list" where
  "decodeKeyUsage ku =
     (if ku = 0xFFFFFFFF then []
      else map snd (filter (\<lambda>(mask, name). and ku mask \<noteq> 0) kuBits))"

record certJSON =
  c_info :: CertInfo
  c_IsCrossSigned :: bool
  c_Trusted :: bool
  c_NotBefore :: string
  c_NotAfter :: string
  c_KeyUsage :: "string list"
  c_SignatureAlgorithm :: string
  c_Revocation :: "revResult option"
  c_IssuedCRLs :: "crlJSON list"
  c_IssuedOCSPs :: "ocspJSON list"
  c_ThumbprintSHA1 :: string
  c_ThumbprintSHA256 :: string
  c_der :: "derJSON option"
  c_Stored :: bool
  c_Source :: string

text \<open>
  \<open>certSignatureAlgorithm\<close>: \<open>e_asn1\<close> is \<open>asn1.Unmarshal\<close> of the outer SEQUENCE, with the algorithm's OID and what is
  left of the input.
\<close>

fun dotted :: "nat list \<Rightarrow> string" where
  "dotted [] = ''''"
| "dotted [n] = digits_of n"
| "dotted (n # m # ns) = digits_of n @ CHR ''.'' # dotted (m # ns)"

definition certSignatureAlgorithm :: "('c, 'l, 'o, 's, 'n) env \<Rightarrow> bytes \<Rightarrow> string" where
  "certSignatureAlgorithm E der =
     (case e_asn1 E der of None \<Rightarrow> '''' | Some (oid, rest) \<Rightarrow> if rest \<noteq> [] \<or> oid = [] then '''' else dotted oid)"

text \<open>The fields copied from the certificate are \<open>c_info\<close>; the rest is computed.\<close>

definition certToJSON :: "('c, 'l, 'o, 's, 'n) env \<Rightarrow> store \<Rightarrow> CertInfo \<Rightarrow> string \<Rightarrow> certJSON" where
  "certToJSON E s c source =
     \<lparr>c_info = c,
      c_IsCrossSigned = (\<not> IsSelfSigned c \<and> SubjectNameDER c \<noteq> [] \<and> SubjectNameDER c = IssuerNameDER c),
      c_Trusted = False, c_NotBefore = e_rfc3339 E (NotBefore c), c_NotAfter = e_rfc3339 E (NotAfter c),
      c_KeyUsage = decodeKeyUsage (KeyUsage c), c_SignatureAlgorithm = certSignatureAlgorithm E (DER c),
      c_Revocation = None, c_IssuedCRLs = [], c_IssuedOCSPs = [],
      c_ThumbprintSHA1 = sha1hex (e_hash E) (DER c), c_ThumbprintSHA256 = SHA256Hex (e_hash E) (DER c),
      c_der = Some (derRef (e_hash E) s (DER c)), c_Stored = HasDER (SHA256Hex (e_hash E) (DER c)) s,
      c_Source = source\<rparr>"

section \<open>The verdict\<close>

record verifyJSON =
  v_Status :: string
  v_Message :: string
  v_Trusted :: bool
  v_TrustVia :: string
  v_RevocationStatus :: string
  v_RevocationMsg :: string

definition verdict :: "string \<Rightarrow> string \<Rightarrow> verifyJSON" where
  "verdict status msg = \<lparr>v_Status = status, v_Message = msg, v_Trusted = False, v_TrustVia = '''',
     v_RevocationStatus = '''', v_RevocationMsg = ''''\<rparr>"

text \<open>\<open>strings.Join\<close>.\<close>

fun join :: "string \<Rightarrow> string list \<Rightarrow> string" where
  "join sep [] = ''''"
| "join sep [x] = x"
| "join sep (x # y # ys) = x @ sep @ join sep (y # ys)"

text \<open>The checked certificates of the chain, each with its result and reasons.\<close>

definition checked_of :: "chainEntry list \<Rightarrow> findings \<Rightarrow> (CertInfo \<times> revResult \<times> string list) list" where
  "checked_of chain f = filter (\<lambda>(c, _). needs_check c) (zip (map ce_info chain) (f_results f))"

definition unchecked_name :: "CertInfo \<Rightarrow> string list \<Rightarrow> string" where
  "unchecked_name c reasons = Subject c @ (if reasons \<noteq> [] then '' ('' @ join '', '' reasons @ '')'' else '''')"

definition chain_message :: "VerifyResult \<Rightarrow> string" where
  "chain_message vr =
     (if ChainErrMsg vr \<noteq> ''''
      then ChainMessage vr @ '' (X509: '' @ ChainErrMsg vr @ '' at depth '' @ string_of_int (ChainErrAt vr) @ '')''
      else ChainMessage vr)"

text \<open>The verdict on revocation over the verdict on the chain.\<close>

definition revocation_verdict :: "chainEntry list \<Rightarrow> findings \<Rightarrow> verifyJSON \<Rightarrow> verifyJSON" where
  "revocation_verdict chain f v =
     (let cs = checked_of chain f; notChecked = filter (\<lambda>(c, r, _). rr_status r = '''') cs in
      if \<exists>(c, r, _) \<in> set cs. rr_revoked r
      then (if v_Status v = ''ok''
            then v\<lparr>v_RevocationStatus := ''revoked'', v_Status := ''error'', v_Message := ''Certificate is revoked''\<rparr>
            else v\<lparr>v_RevocationStatus := ''revoked''\<rparr>)
      else if cs = []
      then v\<lparr>v_RevocationStatus := ''na'', v_RevocationMsg := ''No CDP or OCSP declared in any non-root certificate''\<rparr>
      else if notChecked = [] then v\<lparr>v_RevocationStatus := ''checked''\<rparr>
      else let v' = v\<lparr>v_RevocationStatus := ''incomplete'', v_RevocationMsg := ''Revocation not determined for: ''
                 @ join ''; '' (map (\<lambda>(c, _, reasons). unchecked_name c reasons) notChecked)\<rparr> in
        if v_Status v = ''ok''
        then v'\<lparr>v_Status := ''warn'', v_Message := ''Chain valid but revocation status incomplete''\<rparr>
        else v')"

definition revocation_warnings :: "chainEntry list \<Rightarrow> findings \<Rightarrow> string list" where
  "revocation_warnings chain f =
     concat (map (\<lambda>(c, r, reasons). map (\<lambda>reason. Subject c @ '': '' @ reason) reasons)
       (filter (\<lambda>(c, r, _). rr_status r = '''') (checked_of chain f)))"

text \<open>From \<open>h.ctx.Verify\<close> on: the chain's verdict, the revocation's, then whether a trusted root is reached.\<close>

definition conclude :: "('c, 'l, 'o, 's, 'n) env \<Rightarrow> chainEntry list \<Rightarrow> parts \<Rightarrow> bytes list \<Rightarrow> findings \<Rightarrow> 'n world
    \<Rightarrow> (verifyJSON \<times> 'n world) option" where
  "conclude E chain ps transient f w =
     (let leaf = ce_info (hd chain) in
      case chain_Verify (e_mp E) (e_num E) (DER leaf) (p_roots ps) (p_ints ps) of
        None \<Rightarrow> None
      | Some (Inl e) \<Rightarrow> Some (verdict ''error'' (err_text e), w)
      | Some (Inr vr) \<Rightarrow>
          (let v = revocation_verdict chain f (verdict (ChainStatus vr) (chain_message vr));
               w1 = fold warn (revocation_warnings chain f) w in
           if ChainStatus vr \<noteq> ''ok'' then Some (v, w1)
           else case trustedPath E (DER leaf) (p_roots ps) (p_ints ps) transient w1 of
             None \<Rightarrow> None
           | Some (None, w2) \<Rightarrow> Some (v, w2)
           | Some (Some via, w2) \<Rightarrow> Some (v\<lparr>v_Trusted := True, v_TrustVia := via\<rparr>, w2)))"

section \<open>The response\<close>

record response =
  r_Chain :: "certJSON list"
  r_Verify :: verifyJSON
  r_Warnings :: "string list"
  r_IsAdmin :: bool

text \<open>What was shown under position \<open>i\<close>.\<close>

definition shown_at :: "nat \<Rightarrow> (nat \<times> 'j) list \<Rightarrow> 'j list" where
  "shown_at i xs = map snd (filter (\<lambda>(j, _). j = i) xs)"

definition chain_json :: "('c, 'l, 'o, 's, 'n) env \<Rightarrow> store \<Rightarrow> chainEntry list \<Rightarrow> findings \<Rightarrow> certJSON list" where
  "chain_json E s chain f =
     map (\<lambda>i. let c = ce_info (chain ! i); r = fst (f_results f ! i) in
       (certToJSON E s c (ce_source (chain ! i)))
         \<lparr>c_Revocation := (if rr_status r \<noteq> '''' then Some r else None),
          c_IssuedCRLs := shown_at i (f_crls f), c_IssuedOCSPs := shown_at i (f_ocsps f),
          c_Trusted := trusted E c s\<rparr>)
       [0..<length chain]"

definition verdict_only :: "string \<Rightarrow> 'n world \<Rightarrow> response" where
  "verdict_only msg w = \<lparr>r_Chain = [], r_Verify = verdict ''error'' msg, r_Warnings = w_warn w, r_IsAdmin = False\<rparr>"

text \<open>The second half of \<open>analyzeData\<close>: the revocation check, the verdict and the response.\<close>

definition judge :: "('c, 'l, 'o, 's, 'n) env \<Rightarrow> bool \<Rightarrow> chainEntry list \<Rightarrow> parts \<Rightarrow> bytes list \<Rightarrow> 'n world
    \<Rightarrow> ((goerr + response) \<times> 'n world) option" where
  "judge E isAdmin chain ps transient w =
     (case check_chain E chain ps transient [0..<length chain] \<lparr>f_results = [], f_crls = [], f_ocsps = []\<rparr> w of
        None \<Rightarrow> None
      | Some (Inl e, w1) \<Rightarrow> Some (Inl e, w1)
      | Some (Inr f, w1) \<Rightarrow>
          (case ctx_Err E w1 of
             (Some e, w2) \<Rightarrow> Some (Inl e, w2)
           | (None, w2) \<Rightarrow>
               (case conclude E chain ps transient f w2 of
                  None \<Rightarrow> None
                | Some (v, w3) \<Rightarrow>
                    Some (Inr \<lparr>r_Chain = chain_json E (w_store w3) chain f, r_Verify = v, r_Warnings = w_warn w3,
                      r_IsAdmin = isAdmin\<rparr>, w3))))"

section \<open>An uploaded CRL\<close>

definition upload_warnings :: "('c, 'l, 'o, 's, 'n) env \<Rightarrow> CRLInfo \<Rightarrow> gotime \<Rightarrow> string list" where
  "upload_warnings E ci now =
     (if ThisUpdate ci \<noteq> zero_time \<and> now < ThisUpdate ci
      then [''CRL thisUpdate '' @ e_rfc3339 E (ThisUpdate ci) @ '' is in the future'']
      else if NextUpdate ci \<noteq> zero_time \<and> NextUpdate ci < now
      then [''CRL expired at '' @ e_rfc3339 E (NextUpdate ci)] else [])
     @ (if IsDelta ci
        then [''CRL '' @ e_quote E (crl_Issuer ci) @ '' is a delta CRL: a certificate missing from it is not shown unrevoked'']
        else if CRLInfo.HasIDP ci
        then [''CRL '' @ e_quote E (crl_Issuer ci)
               @ '' has issuingDistributionPoint: it covers only the certificates in its scope'']
        else [])"

text \<open>The CA of the pool that may have signed it.\<close>

definition signs_upload :: "CRLInfo \<Rightarrow> CertInfo \<Rightarrow> bool" where
  "signs_upload ci c \<longleftrightarrow> \<not> (crl_AKI ci \<noteq> '''' \<and> SKI c \<noteq> '''' \<and> crl_AKI ci \<noteq> SKI c \<or> \<not> CanSignCRL c)"

definition upload_issuer :: "('c, 'l, 'o, 's, 'n) env \<Rightarrow> store \<Rightarrow> CRLInfo \<Rightarrow> CertInfo option" where
  "upload_issuer E s ci =
     (if crl_IssuerNameDER ci = [] then None
      else find (signs_upload ci)
        (List.map_filter (\<lambda>d. case ParseCertInfo (e_mp E) d of Inl _ \<Rightarrow> None | Inr c \<Rightarrow> Some c)
          (poolIssuers (crl_IssuerNameDER ci) s)))"

definition upload_json :: "('c, 'l, 'o, 's, 'n) env \<Rightarrow> 'l CRL \<Rightarrow> store \<Rightarrow> string \<times> string \<Rightarrow> crlJSON" where
  "upload_json E crl s sig =
     (let ci = Info crl in
      \<lparr>j_URLs = [], j_Issuer = crl_Issuer ci, j_AKI = crl_AKI ci, j_ThisUpdate = e_rfc3339 E (ThisUpdate ci),
       j_NextUpdate = e_rfc3339 E (NextUpdate ci), j_RevokedCount = RevokedCount ci, j_CertRevoked = False,
       j_Source = ''upload'', j_SignatureStatus = fst sig, j_SignatureMsg = snd sig, j_HasIDP = CRLInfo.HasIDP ci,
       j_IsDelta = IsDelta ci, j_der = Some (derRef (e_hash E) s (crl_DER crl)), j_Errors = []\<rparr>)"

text \<open>A verified CRL is kept when its issuer chains to trust and it is not expired.\<close>

definition save_upload :: "('c, 'l, 'o, 's, 'n) env \<Rightarrow> CertInfo \<Rightarrow> 'l CRL \<Rightarrow> gotime \<Rightarrow> 'n world \<Rightarrow> 'n world option" where
  "save_upload E caInfo crl now w =
     (let ci = Info crl in
      case chainsToTrust E caInfo w of
        None \<Rightarrow> None
      | Some (ok, w1) \<Rightarrow>
          if \<not> ok then Some w1
          else if NextUpdate ci \<noteq> zero_time \<and> NextUpdate ci < now then Some w1
          else (case time_now E w1 of (t1, w2) \<Rightarrow> (case time_now E w2 of (t2, w3) \<Rightarrow> (case time_now E w3 of (t3, w4) \<Rightarrow>
            Some (w4\<lparr>w_store := SaveCRL (e_hash E) t1 t2 t3 (crl_Issuer ci) '''' (crl_DER crl)
                      (ThisUpdate ci) (NextUpdate ci) (w_store w4)\<rparr>)))))"

text \<open>The entry shown in place of a CA that is not in the pool.\<close>

definition missing_ca :: "string \<Rightarrow> CertInfo" where
  "missing_ca name =
     \<lparr>Subject = name, Issuer = name, Serial = ''(unknown)'', NotBefore = zero_time, NotAfter = zero_time,
      IsCA = True, IsSelfSigned = False, KeyAlgorithm = '''', KeyBits = 0, KeyCurve = '''', KeyUsage = 0,
      EKUs = [], SANs = [], PathLen = 0, SKI = '''', AKI = '''', SubjectNameDER = [], IssuerNameDER = [],
      AIAURLs = [], OCSPURLs = [], CDPURLs = [], DER = []\<rparr>"

definition missing_json :: "string \<Rightarrow> crlJSON \<Rightarrow> certJSON" where
  "missing_json name j =
     \<lparr>c_info = missing_ca name, c_IsCrossSigned = False, c_Trusted = False, c_NotBefore = '''', c_NotAfter = '''',
      c_KeyUsage = [], c_SignatureAlgorithm = '''', c_Revocation = None, c_IssuedCRLs = [j], c_IssuedOCSPs = [], c_ThumbprintSHA1 = '''',
      c_ThumbprintSHA256 = '''', c_der = None, c_Stored = False, c_Source = ''missing''\<rparr>"

definition upload_ca_json :: "('c, 'l, 'o, 's, 'n) env \<Rightarrow> store \<Rightarrow> CertInfo \<Rightarrow> crlJSON \<Rightarrow> certJSON" where
  "upload_ca_json E s ca j = (certToJSON E s ca ''cache'')\<lparr>c_Trusted := trusted E ca s, c_IssuedCRLs := [j]\<rparr>"

definition upload_response :: "bool \<Rightarrow> certJSON \<Rightarrow> string \<Rightarrow> string \<Rightarrow> 'n world \<Rightarrow> response" where
  "upload_response isAdmin cj status msg w =
     \<lparr>r_Chain = [cj], r_Verify = verdict status msg, r_Warnings = w_warn w, r_IsAdmin = isAdmin\<rparr>"

definition doAnalyzeCRL :: "('c, 'l, 'o, 's, 'n) env \<Rightarrow> bool \<Rightarrow> 'l CRL \<Rightarrow> 'n world \<Rightarrow> (response \<times> 'n world) option" where
  "doAnalyzeCRL E isAdmin crl w =
     (let ci = Info crl; json = upload_json E crl in
      case time_now E w of (now, w0) \<Rightarrow>
      let w1 = fold warn (upload_warnings E ci now) w0 in
      case upload_issuer E (w_store w1) ci of
        None \<Rightarrow>
          (let w2 = warn (''Issuer CA not in store: '' @ crl_Issuer ci @ '' '' @ em_dash
                      @ '' signature NOT verified, CRL not saved'') w1;
               j = json (w_store w2) (''unchecked'', ''issuer CA not in trust store '' @ em_dash @ '' signature not verified'') in
           Some (upload_response isAdmin (missing_json (crl_Issuer ci) j) ''warn''
             (''CRL parsed, but issuing CA not found in trust store '' @ em_dash @ '' signature not verified'') w2, w2))
      | Some ca \<Rightarrow>
          (case crl_Verify (e_mp E) crl (DER ca) of
             Verified \<Rightarrow>
               map_option (\<lambda>w2. (upload_response isAdmin
                 (upload_ca_json E (w_store w2) ca (json (w_store w2) (''verified'', ''''))) ''ok'' '''' w2, w2))
                 (save_upload E ca crl now w1)
           | ErrCRLBadSignature \<Rightarrow>
               (let w2 = warn (''CRL signature verification FAILED against '' @ Subject ca) w1;
                    j = json (w_store w2) (''bad'', ''signature does not match issuer public key'') in
                Some (upload_response isAdmin (upload_ca_json E (w_store w2) ca j) ''error''
                  (''CRL signature invalid '' @ em_dash @ '' not saved'') w2, w2))
           | CRLError e \<Rightarrow>
               (let w2 = warn (''CRL signature check error: '' @ err_text e) w1;
                    j = json (w_store w2) ('''', err_text e) in
                Some (upload_response isAdmin (upload_ca_json E (w_store w2) ca j) ''error''
                  (''CRL signature invalid '' @ em_dash @ '' not saved'') w2, w2))))"

section \<open>analyzeData\<close>

definition analyzeData :: "('c, 'l, 'o, 's, 'n) env \<Rightarrow> bool \<Rightarrow> bytes \<Rightarrow> bagCert list \<Rightarrow> bool \<Rightarrow> 'n world
    \<Rightarrow> ((goerr + response) \<times> 'n world) option" where
  "analyzeData E isAdmin input bag link w =
     (case openCRL E input w of
        (Inr crl, w1) \<Rightarrow> map_option (\<lambda>(resp, w2). (Inr resp, w2)) (doAnalyzeCRL E isAdmin crl w1)
      | (Inl _, w1) \<Rightarrow>
          (case ctx_Err E w1 of
             (Some e, w2) \<Rightarrow> Some (Inl e, w2)
           | (None, w2) \<Rightarrow>
               if length input > 2 * CertSize
               then Some (Inr (verdict_only (''Input too large for a certificate: '' @ digits_of (length input) @ '' bytes'') w2), w2)
               else case ParseCertInfo (e_mp E) input of
                 Inl e \<Rightarrow> Some (Inr (verdict_only (''Failed to parse: '' @ err_text e) w2), w2)
               | Inr leaf \<Rightarrow>
                   if length (DER leaf) > CertSize
                   then Some (Inr (verdict_only (''Certificate too large: '' @ digits_of (length (DER leaf))
                          @ '' bytes, limit '' @ digits_of CertSize) w2), w2)
                   else (case analyze_chain E leaf bag link w2 of
                           (Inl e, w3) \<Rightarrow> Some (Inl e, w3)
                         | (Inr (chain, ps), w3) \<Rightarrow> judge E isAdmin chain ps (transients link leaf bag) w3)))"

end
