(* ===== verification/Revocation_Laws.thy ===== *)
theory Revocation_Laws
  imports Chain_Laws Analyze
begin

text \<open>
  What the revocation check and the verdict guarantee: a status of a certificate always has
  evidence behind it, an analysis stores a CRL only with an issuer that verifies to a trusted
  root, it never changes trust, and what it concludes follows from what it found. The locale
  \<open>check_laws\<close> is the interface between the check and what it is checked for: an invariant of the
  state of one certificate's check, and a relation between the stores before and after. Its
  lemmas go through the passes once; the theory interprets it for each of the guarantees.
\<close>

section \<open>Evidence\<close>

text \<open>
  A CRL that decides: parsed, its issuer may sign CRLs and verifies it, current by the clock, asked
  about the certificate; to show it unrevoked it must also cover it.
\<close>

definition crl_evidence :: "('c, 'l, 'o, 's, 'n) env \<Rightarrow> check \<Rightarrow> bool \<Rightarrow> bool" where
  "crl_evidence E k revoked \<longleftrightarrow>
     (\<exists>der crl ca w. ParseCRL (e_mp E) (e_rd E) der = Inr crl \<and> findCRLIssuer k (Info crl) = Some ca
        \<and> CanSignCRL ca \<and> crl_Verify (e_mp E) crl (DER ca) = Verified
        \<and> crl_dates E (Info crl) (fst (time_now E w)) = None
        \<and> IsRevoked (e_mp E) crl (DER (ck_cert k)) = Inr revoked
        \<and> (revoked \<or> Covers (Info crl) (ck_cert k)))"

text \<open>A response that decides: parsed for the certificate and the CA above it, verified, revoked or good.\<close>

definition ocsp_evidence :: "('c, 'l, 'o, 's, 'n) env \<Rightarrow> check \<Rightarrow> bool \<Rightarrow> bool" where
  "ocsp_evidence E k revoked \<longleftrightarrow>
     (\<exists>j resp res. ck_issuer k = Some j
        \<and> ParseOCSPResponse (e_mp E) (DER (ck_cert k)) (DER (ce_info (ck_chain k ! j))) resp = Inr res
        \<and> os_Verified res \<and> os_Status res = (if revoked then ''revoked'' else ''good''))"

definition justified :: "('c, 'l, 'o, 's, 'n) env \<Rightarrow> check \<Rightarrow> revResult \<Rightarrow> bool" where
  "justified E k res \<longleftrightarrow>
     rr_status res = (if rr_revoked res then ''revoked'' else ''not_revoked'')
   \<and> (crl_evidence E k (rr_revoked res) \<and> rr_via res = ''CRL''
      \<or> ocsp_evidence E k (rr_revoked res) \<and> rr_via res = ''OCSP'')"

text \<open>A CA the store's trust reaches, and a CRL that such a CA vouches for.\<close>

definition reaches_trust :: "('c, 'l, 'o, 's, 'n) env \<Rightarrow> bytes \<Rightarrow> store \<Rightarrow> bool" where
  "reaches_trust E der s \<longleftrightarrow> IsCertTrusted (SHA256Hex (e_hash E) der) s \<or>
     (\<exists>roots ints vr. (\<forall>r \<in> set roots. IsCertTrusted (SHA256Hex (e_hash E) r) s)
        \<and> chain_Verify (e_mp E) (e_num E) der roots ints = Some (Inr vr) \<and> ChainStatus vr = ''ok'')"

definition vouched_by :: "('c, 'l, 'o, 's, 'n) env \<Rightarrow> CertInfo \<Rightarrow> 'l CRL \<Rightarrow> store \<Rightarrow> bool" where
  "vouched_by E ca crl s \<longleftrightarrow> (\<exists>der. ParseCRL (e_mp E) (e_rd E) der = Inr crl)
     \<and> CanSignCRL ca \<and> crl_Verify (e_mp E) crl (DER ca) = Verified \<and> reaches_trust E (DER ca) s"

lemma crl_verified:
  "fst (crl_signature E crl issuer) = ''verified'' \<Longrightarrow>
   \<exists>ca. issuer = Some ca \<and> CanSignCRL ca \<and> crl_Verify (e_mp E) crl (DER ca) = Verified"
  by (auto simp: crl_signature_def split: option.splits if_splits crl_verdict.splits)

lemma undecided_quiet [simp]:
  "rv_checked (undecided s r) = rv_checked r" "rv_result (undecided s r) = rv_result r"
  by (simp_all add: undecided_def)

lemma show_crl_quiet [simp]:
  "rv_checked (show_crl E k crl src url sig b s r) = rv_checked r"
  "rv_result (show_crl E k crl src url sig b s r) = rv_result r"
  by (simp_all add: show_crl_def Let_def split: option.splits)

lemma show_errors_quiet [simp]:
  "rv_checked (show_errors k errs r) = rv_checked r" "rv_result (show_errors k errs r) = rv_result r"
  by (simp_all add: show_errors_def split: option.splits)

lemma outside_store2 [simp]:
  "acquire E n w = (e, w') \<Longrightarrow> w_store w' = w_store w"
  "postOCSP E u b w = (x, w') \<Longrightarrow> w_store w' = w_store w"
  by (auto simp: acquire_def postOCSP_def split: prod.splits)

lemma openCRL_store: "openCRL E der w = (x, w') \<Longrightarrow> w_store w' = w_store w"
  by (auto simp: openCRL_def split: prod.splits option.splits)

lemma openCRL_parsed: "openCRL E der w = (Inr crl, w') \<Longrightarrow> \<exists>d. ParseCRL (e_mp E) (e_rd E) d = Inr crl"
  by (auto simp: openCRL_def split: prod.splits option.splits)

lemma cachedCRL_store: "cachedCRL E u w = (x, w') \<Longrightarrow> w_store w' = w_store w"
  by (auto simp: cachedCRL_def Let_def split: prod.splits option.splits sum.splits if_splits)

lemma cachedCRL_parsed: "cachedCRL E u w = (Some crl, w') \<Longrightarrow> \<exists>d. ParseCRL (e_mp E) (e_rd E) d = Inr crl"
  by (auto simp: cachedCRL_def Let_def split: prod.splits option.splits sum.splits if_splits)

lemma fetch_crl_store: "fetch_crl E u w = (x, w') \<Longrightarrow> w_store w' = w_store w"
  by (auto simp: fetch_crl_def dest!: openCRL_store split: prod.splits sum.splits)

lemma fetch_crl_parsed: "fetch_crl E u w = (Inr crl, w') \<Longrightarrow> \<exists>d. ParseCRL (e_mp E) (e_rd E) d = Inr crl"
  by (auto simp: fetch_crl_def dest!: openCRL_parsed split: prod.splits sum.splits)

lemma ask_ocsp_store: "ask_ocsp E c i q f us w = (x, w') \<Longrightarrow> w_store w' = w_store w"
proof (induction us arbitrary: f w)
  case (Cons u us)
  obtain y w1 where y: "postOCSP E u q w = (y, w1)" by fastforce
  from Cons y outside_store2(2) [OF y] show ?case by (auto split: sum.splits)
qed simp

lemma ask_ocsp_parsed:
  "ask_ocsp E c i q f us w = (Inr (res, src, u), w') \<Longrightarrow> \<exists>d. ParseOCSPResponse (e_mp E) (DER c) (DER i) d = Inr res"
proof (induction us arbitrary: f w)
  case (Cons v us)
  obtain y w1 where y: "postOCSP E v q w = (y, w1)" by fastforce
  from Cons y show ?case by (auto split: sum.splits)
qed simp

lemma resolveOCSP_store: "resolveOCSP E c i w = (x, w') \<Longrightarrow> w_store w' = w_store w"
  by (auto simp: resolveOCSP_def Let_def dest!: ask_ocsp_store split: prod.splits option.splits sum.splits)

lemma resolveOCSP_parsed:
  "resolveOCSP E c i w = (Inr (res, src, u), w') \<Longrightarrow> \<exists>d. ParseOCSPResponse (e_mp E) (DER c) (DER i) d = Inr res"
  by (auto simp: resolveOCSP_def Let_def dest!: ask_ocsp_parsed split: prod.splits option.splits sum.splits)

text \<open>A trusted path is found only for what reaches trust.\<close>

lemma trustedPath_reaches:
  assumes "trustedPath E der roots ints tr w = Some (Some via, w')"
  shows "reaches_trust E der (w_store w) \<and> reaches_trust E der (w_store w')"
proof -
  from assms obtain vr where vr: "chain_Verify (e_mp E) (e_num E) der (anchors_of E (w_store w) roots) ints = Some (Inr vr)"
    "ChainStatus vr = ''ok''"
    by (auto simp: trustedPath_def Let_def split: if_splits option.splits sum.splits)
  moreover have "\<forall>r \<in> set (anchors_of E (w_store w) roots). IsCertTrusted (SHA256Hex (e_hash E) r) (w_store w)"
    by (simp add: anchors_of_set)
  moreover note analysed_trust [OF trustedPath_analysed [OF assms]]
  ultimately show ?thesis unfolding reaches_trust_def by metis
qed

text \<open>What the check of position \<open>i\<close> is given.\<close>

definition position :: "chainEntry list \<Rightarrow> parts \<Rightarrow> bytes list \<Rightarrow> nat \<Rightarrow> check" where
  "position chain ps tr i =
     \<lparr>ck_chain = chain, ck_parts = ps, ck_transient = tr, ck_i = i, ck_issuer = issuerIdx chain i\<rparr>"

section \<open>One passage through the check\<close>

text \<open>
  \<open>tr\<close> are the analysis's transient certificates, \<open>I\<close> an invariant of one certificate's check, \<open>R\<close>
  a relation between stores, \<open>S\<close> the sources certificates are archived under. The laws say what the check may do to
  them: note a reason or show something, decide once with evidence, archive a certificate, pool a CA, keep a CRL
  that the CA it is looked up under or a CA of the pool vouches for, keep an OCSP response.
\<close>

locale check_laws =
  fixes E :: "('c, 'l, 'o, 's, 'n) env"
    and tr :: "bytes list"
    and I :: "check \<Rightarrow> rev \<Rightarrow> bool"
    and R :: "store \<Rightarrow> store \<Rightarrow> bool"
    and S :: "string \<Rightarrow> bool"
  assumes quiet: "I k r \<Longrightarrow> rv_checked r' = rv_checked r \<Longrightarrow> rv_result r' = rv_result r \<Longrightarrow> I k r'"
    and decided: "I k r \<Longrightarrow> \<not> rv_checked r \<Longrightarrow> justified E k (rv_result r') \<Longrightarrow> rv_checked r' \<Longrightarrow> I k r'"
    and same: "R s s"
    and onward: "R s s' \<Longrightarrow> R s' s'' \<Longrightarrow> R s s''"
    and origins: "list_all S ['''', ''fetched'', ''cache'', ''archive'']"
    and archived: "DER c \<notin> set tr \<Longrightarrow> S src \<Longrightarrow> R s (SaveCert (e_hash E) t (args_of c src) s)"
    and pooled: "DER c \<notin> set tr \<Longrightarrow> R s (fst (SavePoolCert (e_hash E) t (args_of c '''') s))"
    and kept_crl: "vouched_by E ca crl s \<Longrightarrow>
          (\<exists>k r. I k r \<and> findCRLIssuer k (Info crl) = Some ca) \<or> (\<exists>d. ParseCertInfo (e_mp E) d = Inr ca) \<Longrightarrow>
          R s (SaveCRL (e_hash E) t1 t2 t3 (crl_Issuer (Info crl)) url (crl_DER crl)
          (ThisUpdate (Info crl)) (NextUpdate (Info crl)) s)"
    and kept_ocsp: "R s (fst (SaveOCSP (e_hash E) t1 t2 thumb url status der this nxt produced s))"
begin

lemma pool_path_R: "R (w_store w) (w_store (pool_path E tr cs w))"
proof (induction cs arbitrary: w)
  case (Cons c cs)
  show ?case
  proof (cases "IsCA c \<and> DER c \<noteq> [] \<and> DER c \<notin> set tr")
    case True
    obtain t w1 where t: "time_now E w = (t, w1)" by fastforce
    let ?w = "w1\<lparr>w_store := fst (SavePoolCert (e_hash E) t (args_of c '''') (w_store w1))\<rparr>"
    have "R (w_store w) (w_store ?w)"
      using pooled [of c "w_store w1" t] True outside_store(1) [OF t] by simp
    from onward [OF this Cons.IH] show ?thesis using True t by simp
  next
    case False
    then show ?thesis using Cons.IH by auto
  qed
qed (simp add: same)

lemma trustedPath_R: "trustedPath E der roots ints tr w = Some (t, w') \<Longrightarrow> R (w_store w) (w_store w')"
  by (auto simp: trustedPath_def Let_def same pool_path_R split: if_splits option.splits sum.splits)

text \<open>Keeping a CRL or a response after its issuer's path was found.\<close>

lemma keep_crl_R:
  assumes "keep_crl E k ca crl url w = Some w'" and "ck_transient k = tr"
    and "ParseCRL (e_mp E) (e_rd E) der = Inr crl" and "CanSignCRL ca" and "crl_Verify (e_mp E) crl (DER ca) = Verified"
    and "I k r" and "findCRLIssuer k (Info crl) = Some ca"
  shows "R (w_store w) (w_store w')"
proof -
  obtain x w1 where x: "trustedPath E (DER ca) (p_roots (ck_parts k)) (p_ints (ck_parts k)) tr w = Some (x, w1)"
    using assms(1,2) by (auto simp: keep_crl_def split: option.splits)
  note R1 = trustedPath_R [OF x]
  show ?thesis
  proof (cases x)
    case None
    with x assms(1,2) R1 show ?thesis by (simp add: keep_crl_def)
  next
    case (Some via)
    obtain t1 w2 where t1: "time_now E w1 = (t1, w2)" by fastforce
    obtain t2 w3 where t2: "time_now E w2 = (t2, w3)" by fastforce
    obtain t3 w4 where t3: "time_now E w3 = (t3, w4)" by fastforce
    have st: "w_store w4 = w_store w1"
      using outside_store(1) [OF t1] outside_store(1) [OF t2] outside_store(1) [OF t3] by simp
    have v: "vouched_by E ca crl (w_store w1)"
      using assms(3-5) trustedPath_reaches [OF x [unfolded Some]] unfolding vouched_by_def by blast
    have "\<exists>k r. I k r \<and> findCRLIssuer k (Info crl) = Some ca" using assms(6,7) by blast
    note kept_crl [OF v disjI1 [OF this], of t1 t2 t3 url]
    moreover have "w' = w4\<lparr>w_store := SaveCRL (e_hash E) t1 t2 t3 (crl_Issuer (Info crl)) url (crl_DER crl)
        (ThisUpdate (Info crl)) (NextUpdate (Info crl)) (w_store w4)\<rparr>"
      using assms(1) by (simp add: keep_crl_def assms(2) x Some t1 t2 t3)
    ultimately have "R (w_store w1) (w_store w')" by (simp add: st)
    with R1 show ?thesis by (rule onward)
  qed
qed

lemma keep_ocsp_R:
  assumes "keep_ocsp E k issuer res src url w = Some w'" and "ck_transient k = tr"
  shows "R (w_store w) (w_store w')"
proof (cases "src = ''fetched'' \<and> os_Verified res \<and> os_NextUpdate res \<noteq> zero_time")
  case True
  then obtain x w1 where x: "trustedPath E (DER issuer) (p_roots (ck_parts k)) (p_ints (ck_parts k)) tr w = Some (x, w1)"
    using assms by (auto simp: keep_ocsp_def split: option.splits)
  obtain t1 w2 where t1: "time_now E w1 = (t1, w2)" by fastforce
  obtain t2 w3 where t2: "time_now E w2 = (t2, w3)" by fastforce
  note st = outside_store(1) [OF t1] outside_store(1) [OF t2]
  have "R (w_store w1) (w_store w')"
    using x True assms t1 t2 st kept_ocsp same by (cases x) (auto simp: keep_ocsp_def)
  with trustedPath_R [OF x] show ?thesis by (rule onward)
next
  case False
  with assms show ?thesis by (auto simp: keep_ocsp_def same)
qed

text \<open>The decisions.\<close>

lemma decide_crl_I:
  assumes "I k r" and "authoritative \<Longrightarrow> crl_evidence E k True \<or> \<not> revoked"
    and "authoritative \<Longrightarrow> \<not> revoked \<Longrightarrow> Covers ci (ck_cert k) \<Longrightarrow> crl_evidence E k False"
  shows "I k (decide_crl E (ck_cert k) ci authoritative revoked r)"
proof (cases "authoritative \<and> \<not> rv_checked r")
  case False
  with assms(1) show ?thesis by (auto simp: decide_crl_def)
next
  case True
  consider "revoked" | "\<not> revoked" "\<not> Covers ci (ck_cert k)" | "\<not> revoked" "Covers ci (ck_cert k)" by blast
  then show ?thesis
  proof cases
    case 1
    with True assms(2) show ?thesis
      by (intro decided [OF assms(1)]) (auto simp: decide_crl_def justified_def no_result_def)
  next
    case 2
    with True show ?thesis by (intro quiet [OF assms(1)]) (auto simp: decide_crl_def)
  next
    case 3
    with True assms(3) show ?thesis
      by (intro decided [OF assms(1)]) (auto simp: decide_crl_def justified_def no_result_def)
  qed
qed

lemma decide_ocsp_I:
  assumes "I k r" and "\<not> rv_checked r" and j: "ck_issuer k = Some j"
    and parsed: "ParseOCSPResponse (e_mp E) (DER (ck_cert k)) (DER (ce_info (ck_chain k ! j))) resp = Inr res"
  shows "I k (decide_ocsp E res r)"
proof (cases "ocsp_note res = ''''")
  case False
  then show ?thesis by (intro quiet [OF assms(1)]) (auto simp: decide_ocsp_def)
next
  case True
  then have "os_Verified res \<and> os_Status res = (if os_Status res = ''revoked'' then ''revoked'' else ''good'')"
    by (auto simp: ocsp_note_def ocspUnverifiedNote_def split: if_splits)
  with j parsed have "ocsp_evidence E k (os_Status res = ''revoked'')" by (auto simp: ocsp_evidence_def)
  with True show ?thesis
    by (intro decided [OF assms(1,2)]) (auto simp: decide_ocsp_def justified_def no_result_def)
qed

end

text \<open>One CRL: what it decides rests on evidence, and what is kept of it was verified.\<close>

lemma processCRL_parts:
  assumes p: "processCRL E k crl src url r w = Some (a, r', w')" and der: "ParseCRL (e_mp E) (e_rd E) der = Inr crl"
  obtains auth revoked r1 w1 where "w_store w1 = w_store w" "rv_checked r1 = rv_checked r" "rv_result r1 = rv_result r"
    "rv_checked r' = rv_checked (decide_crl E (ck_cert k) (Info crl) auth revoked r1)"
    "rv_result r' = rv_result (decide_crl E (ck_cert k) (Info crl) auth revoked r1)"
    "auth \<Longrightarrow> revoked \<or> Covers (Info crl) (ck_cert k) \<Longrightarrow> crl_evidence E k revoked"
    "w' = w1 \<or> (\<exists>ca. findCRLIssuer k (Info crl) = Some ca \<and> CanSignCRL ca \<and> crl_Verify (e_mp E) crl (DER ca) = Verified
       \<and> keep_crl E k ca crl url w1 = Some w')"
proof -
  obtain now w1 where t: "time_now E w = (now, w1)" by fastforce
  define ci where "ci = Info crl"
  define issuer where "issuer = findCRLIssuer k ci"
  define sig where "sig = crl_signature E crl issuer"
  define dates where "dates = crl_dates E ci now"
  define warning where "warning = crl_warning E ci sig dates"
  define r1 where "r1 = (if warning \<noteq> '''' then undecided warning r else r)"
  define auth0 where "auth0 = (fst sig = ''verified'' \<and> dates = None)"
  define chk where "chk = (if auth0 then IsRevoked (e_mp E) crl (DER (ck_cert k)) else Inr False)"
  define auth where "auth = (auth0 \<and> (case chk of Inl _ \<Rightarrow> False | Inr _ \<Rightarrow> True))"
  define revoked where "revoked = (case chk of Inl _ \<Rightarrow> False | Inr b \<Rightarrow> b)"
  define kept where "kept = (case issuer of
      Some c \<Rightarrow> if auth \<and> src = ''fetched'' then keep_crl E k c crl url w1 else Some w1 | None \<Rightarrow> Some w1)"
  have p': "kept = Some w'" "r' = show_crl E k crl src url sig revoked (w_store w') (decide_crl E (ck_cert k) ci auth revoked r1)"
    using p unfolding processCRL_def Let_def t prod.case ci_def [symmetric] issuer_def [symmetric] sig_def [symmetric]
      dates_def [symmetric] warning_def [symmetric] r1_def [symmetric] auth0_def [symmetric] chk_def [symmetric]
      auth_def [symmetric] revoked_def [symmetric] kept_def [symmetric] by auto
  have good: "\<exists>ca. issuer = Some ca \<and> CanSignCRL ca \<and> crl_Verify (e_mp E) crl (DER ca) = Verified" if auth
    using that crl_verified [of E crl issuer] by (simp add: auth_def auth0_def sig_def)
  have "crl_evidence E k revoked" if "auth" "revoked \<or> Covers ci (ck_cert k)"
  proof -
    have "dates = None" "chk = IsRevoked (e_mp E) crl (DER (ck_cert k))" using that(1) by (simp_all add: auth_def auth0_def chk_def)
    moreover have "chk = Inr revoked" using that(1) by (auto simp: auth_def revoked_def split: sum.splits)
    ultimately show ?thesis
      using good [OF that(1)] that(2) der t unfolding crl_evidence_def issuer_def dates_def ci_def by (metis fst_conv)
  qed
  moreover have "w' = w1 \<or> (\<exists>ca. findCRLIssuer k (Info crl) = Some ca \<and> CanSignCRL ca \<and> crl_Verify (e_mp E) crl (DER ca) = Verified
       \<and> keep_crl E k ca crl url w1 = Some w')"
    using p'(1) good by (auto simp: kept_def issuer_def ci_def split: option.splits if_splits)
  ultimately show thesis
    using outside_store(1) [OF t] p'(2) by (intro that [of w1 r1 auth revoked]) (simp_all add: r1_def ci_def)
qed

text \<open>One URL of the second pass.\<close>

lemma fetch_pass_cases:
  assumes p: "fetch_pass E k ok (u # us) errs r w = Some (errs', r', w')"
  obtains (stop) "r' = r" "w_store w' = w_store w"
  | (skip) w1 where "w_store w1 = w_store w" "fetch_pass E k ok us errs r w1 = Some (errs', r', w')"
  | (failed) x w2 where "w_store w2 = w_store w"
      "fetch_pass E k ok us (errs @ [u @ '': '' @ publicError x]) (undecided (''CRL '' @ u @ '': '' @ publicError x) r) w2
        = Some (errs', r', w')"
  | (got) w2 crl d a ra wa where "w_store w2 = w_store w" "ParseCRL (e_mp E) (e_rd E) d = Inr crl"
      "processCRL E k crl ''fetched'' u r w2 = Some (a, ra, wa)" "fetch_pass E k ok us errs ra wa = Some (errs', r', w')"
proof -
  obtain e w1 where e: "ctx_Err E w = (e, w1)" by fastforce
  note s1 = outside_store(2) [OF e]
  show ?thesis
  proof (cases "rv_checked r \<or> e \<noteq> None \<or> u \<in> set ok")
    case True
    show ?thesis
    proof (cases "rv_checked r \<or> e \<noteq> None")
      case True
      with e p s1 have "r' = r \<and> w_store w' = w_store w" by (cases e) (auto split: if_splits)
      then show ?thesis by (intro stop) simp_all
    next
      case run: False
      show ?thesis by (rule skip [of w1]) (use run True e p s1 in simp_all)
    qed
  next
    case False
    then have run: "\<not> rv_checked r" "e = None" "u \<notin> set ok" by simp_all
    obtain c w2 where c: "fetch_crl E u w1 = (c, w2)" by fastforce
    note s2 = fetch_crl_store [OF c]
    show ?thesis
    proof (cases c)
      case (Inl x)
      show ?thesis by (rule failed [of w2 x]) (use run e c Inl p s1 s2 in simp_all)
    next
      case (Inr crl)
      from fetch_crl_parsed [OF c [unfolded Inr]] obtain d where d: "ParseCRL (e_mp E) (e_rd E) d = Inr crl" ..
      obtain a ra wa where pr: "processCRL E k crl ''fetched'' u r w2 = Some (a, ra, wa)"
        using run e c Inr p by (auto split: option.splits)
      show ?thesis by (rule got [OF _ d pr]) (use run e c Inr p s1 s2 pr in simp_all)
    qed
  qed
qed

text \<open>One position of the chain.\<close>

lemma check_chain_cases:
  assumes p: "check_chain E chain ps tr (i # is) f w = Some (x, w')"
  obtains (cut) e where "x = Inl e" "w_store w' = w_store w"
  | (plain) w1 where "\<not> needs_check (ce_info (chain ! i))" "w_store w1 = w_store w"
      "check_chain E chain ps tr is (f\<lparr>f_results := f_results f @ [(no_result, [])]\<rparr>) w1 = Some (x, w')"
  | (failed) w1 e where "w_store w1 = w_store w"
      "check_cert E (position chain ps tr i) (start_rev f) w1 = Some (Inl e, w')" "x = Inl e"
  | (checked) w1 r w2 where "needs_check (ce_info (chain ! i))" "w_store w1 = w_store w"
      "check_cert E (position chain ps tr i) (start_rev f) w1 = Some (Inr r, w2)"
      "check_chain E chain ps tr is
         \<lparr>f_results = f_results f @ [(rv_result r, rv_reasons r)], f_crls = rv_crls r, f_ocsps = rv_ocsps r\<rparr> w2 = Some (x, w')"
proof -
  obtain e w1 where e: "ctx_Err E w = (e, w1)" by fastforce
  note s1 = outside_store(2) [OF e]
  show ?thesis
  proof (cases "e \<noteq> None \<or> \<not> needs_check (ce_info (chain ! i))")
    case True
    show ?thesis
    proof (cases e)
      case None
      show ?thesis by (rule plain [of w1]) (use None True e p s1 in simp_all)
    next
      case (Some y)
      show ?thesis by (rule cut [of y]) (use Some e p s1 in simp_all)
    qed
  next
    case False
    then have run: "e = None" "needs_check (ce_info (chain ! i))" by simp_all
    obtain y w2 where y: "check_cert E (position chain ps tr i) (start_rev f) w1 = Some (y, w2)"
      using run e p by (auto simp: position_def split: option.splits)
    show ?thesis
    proof (cases y)
      case (Inl z)
      show ?thesis by (rule failed [of w1 z]) (use run e p y Inl s1 in \<open>auto simp: position_def\<close>)
    next
      case (Inr r)
      show ?thesis by (rule checked [of w1 r w2]) (use run e p y Inr s1 in \<open>auto simp: position_def\<close>)
    qed
  qed
qed

context check_laws
begin

lemma processCRL_keeps:
  assumes p: "processCRL E k crl src url r w = Some (a, r', w')" and tr: "ck_transient k = tr"
    and der: "ParseCRL (e_mp E) (e_rd E) der = Inr crl" and I: "I k r"
  shows "I k r' \<and> R (w_store w) (w_store w')"
  using p der
proof (cases rule: processCRL_parts)
  case (1 auth revoked r1 w1)
  have "I k r1" by (rule quiet [OF I]) (simp_all add: 1)
  then have "I k (decide_crl E (ck_cert k) (Info crl) auth revoked r1)" by (rule decide_crl_I) (use 1 in auto)
  then have "I k r'" by (rule quiet) (simp_all add: 1)
  moreover have "R (w_store w1) (w_store w')"
    using 1(7)
  proof
    assume "\<exists>ca. findCRLIssuer k (Info crl) = Some ca \<and> CanSignCRL ca \<and> crl_Verify (e_mp E) crl (DER ca) = Verified
        \<and> keep_crl E k ca crl url w1 = Some w'"
    then show ?thesis using keep_crl_R [OF _ tr der _ _ I] by blast
  qed (simp add: same)
  ultimately show ?thesis by (simp add: 1(1))
qed

text \<open>The passes.\<close>

lemma cached_pass_keeps:
  "cached_pass E k urls ok r w = Some (ok', r', w') \<Longrightarrow> ck_transient k = tr \<Longrightarrow> I k r
    \<Longrightarrow> I k r' \<and> R (w_store w) (w_store w')"
proof (induction urls arbitrary: ok r w)
  case (Cons u us)
  show ?case
  proof (cases "rv_checked r")
    case True
    with Cons.prems show ?thesis by (simp add: same)
  next
    case False
    obtain e w1 where e: "ctx_Err E w = (e, w1)" by fastforce
    note s1 = outside_store(2) [OF e]
    show ?thesis
    proof (cases e)
      case (Some x)
      with False e Cons.prems s1 show ?thesis by (simp add: same)
    next
      case None
      obtain c w2 where c: "cachedCRL E u w1 = (c, w2)" by fastforce
      note s2 = cachedCRL_store [OF c]
      show ?thesis
      proof (cases c)
        case None
        with False e \<open>e = None\<close> c Cons.prems(1) have "cached_pass E k us ok r w2 = Some (ok', r', w')" by simp
        from Cons.IH [OF this Cons.prems(2,3)] s1 s2 show ?thesis by simp
      next
        case (Some crl)
        from cachedCRL_parsed [OF c [unfolded Some]] obtain d where d: "ParseCRL (e_mp E) (e_rd E) d = Inr crl" ..
        obtain a ra wa where pr: "processCRL E k crl ''cache'' u r w2 = Some (a, ra, wa)"
          using False e \<open>e = None\<close> c Some Cons.prems(1) by (auto split: option.splits)
        from processCRL_keeps [OF pr Cons.prems(2) d Cons.prems(3)] have k: "I k ra" "R (w_store w2) (w_store wa)" by simp_all
        have "cached_pass E k us (if a then u # ok else removeAll u ok) ra wa = Some (ok', r', w')"
          using False e \<open>e = None\<close> c Some pr Cons.prems(1) by simp
        from Cons.IH [OF this Cons.prems(2) k(1)] k(2) s1 s2 onward show ?thesis by metis
      qed
    qed
  qed
qed (simp add: same)

lemma fetch_pass_keeps:
  "fetch_pass E k ok urls errs r w = Some (errs', r', w') \<Longrightarrow> ck_transient k = tr \<Longrightarrow> I k r
    \<Longrightarrow> I k r' \<and> R (w_store w) (w_store w')"
proof (induction urls arbitrary: errs r w)
  case (Cons u us)
  from Cons.prems(1) show ?case
  proof (cases rule: fetch_pass_cases)
    case stop
    with Cons.prems(3) show ?thesis by (simp add: same)
  next
    case (skip w1)
    from Cons.IH [OF skip(2) Cons.prems(2,3)] skip(1) show ?thesis by simp
  next
    case (failed x w2)
    have "I k (undecided (''CRL '' @ u @ '': '' @ publicError x) r)" by (rule quiet [OF Cons.prems(3)]) simp_all
    from Cons.IH [OF failed(2) Cons.prems(2) this] failed(1) show ?thesis by simp
  next
    case (got w2 crl d a ra wa)
    from processCRL_keeps [OF got(3) Cons.prems(2) got(2) Cons.prems(3)] have k: "I k ra" "R (w_store w2) (w_store wa)" by simp_all
    from Cons.IH [OF got(4) Cons.prems(2) k(1)] k(2) got(1) onward show ?thesis by metis
  qed
qed (simp add: same)

lemma store_crl_keeps:
  assumes p: "store_crl E k errs r w = Some (errs', r', w')" and tr: "ck_transient k = tr" and I: "I k r"
  shows "I k r' \<and> R (w_store w) (w_store w')"
proof (cases "rv_checked r")
  case True
  with p I show ?thesis by (simp add: store_crl_def same)
next
  case False
  obtain t w1 where t: "time_now E w = (t, w1)" by fastforce
  note s1 = outside_store(1) [OF t]
  show ?thesis
  proof (cases "FindFreshCRLByIssuer t (Issuer (ck_cert k)) (w_store w1)")
    case None
    with False t s1 p I show ?thesis by (simp add: store_crl_def same)
  next
    case (Some der)
    obtain c w2 where c: "openCRL E der w1 = (c, w2)" by fastforce
    note s2 = openCRL_store [OF c]
    show ?thesis
    proof (cases c)
      case (Inl x)
      with False t Some c s1 s2 p I show ?thesis by (simp add: store_crl_def same)
    next
      case (Inr crl)
      from openCRL_parsed [OF c [unfolded Inr]] obtain d where d: "ParseCRL (e_mp E) (e_rd E) d = Inr crl" ..
      obtain a where "processCRL E k crl ''store'' '''' r w2 = Some (a, r', w')"
        using False t Some c Inr p by (auto simp: store_crl_def)
      from processCRL_keeps [OF this tr d I] s1 s2 show ?thesis by simp
    qed
  qed
qed

lemma ocsp_step_keeps:
  assumes p: "ocsp_step E k errs r w = Some (errs', r', w')" and tr: "ck_transient k = tr" and I: "I k r"
  shows "I k r' \<and> R (w_store w) (w_store w')"
proof (cases "if \<not> rv_checked r \<and> OCSPURLs (ck_cert k) \<noteq> [] then ck_issuer k else None")
  case None
  with p I show ?thesis by (simp add: ocsp_step_def same)
next
  case (Some j)
  then have j: "\<not> rv_checked r" "ck_issuer k = Some j" by (auto split: if_splits)
  let ?i = "ce_info (ck_chain k ! j)"
  obtain x w1 where x: "resolveOCSP E (ck_cert k) ?i w = (x, w1)" by fastforce
  note s1 = resolveOCSP_store [OF x]
  show ?thesis
  proof (cases x)
    case (Inl failure)
    have "I k (if failure \<noteq> '''' then undecided failure r else r)" by (rule quiet [OF I]) simp_all
    with p Some x Inl s1 show ?thesis by (simp add: ocsp_step_def same Let_def)
  next
    case (Inr y)
    obtain res src u where y: "y = (res, src, u)" by (cases y)
    from resolveOCSP_parsed [OF x [unfolded Inr y]] obtain d where
      d: "ParseOCSPResponse (e_mp E) (DER (ck_cert k)) (DER ?i) d = Inr res" ..
    have k: "keep_ocsp E k ?i res src u w1 = Some w'"
      and r': "rv_checked r' = rv_checked (decide_ocsp E res r)" "rv_result r' = rv_result (decide_ocsp E res r)"
      using p Some x Inr y by (auto simp: ocsp_step_def Let_def)
    have "I k r'" by (rule quiet [OF decide_ocsp_I [OF I j d] r'])
    with keep_ocsp_R [OF k tr] s1 show ?thesis by simp
  qed
qed

text \<open>One certificate, then the chain.\<close>

lemma check_cert_keeps:
  assumes p: "check_cert E k r w = Some (x, w')" and tr: "ck_transient k = tr" and I: "I k r"
  shows "(\<forall>r'. x = Inr r' \<longrightarrow> I k r') \<and> R (w_store w) (w_store w')"
proof -
  let ?urls = "usableURLs (CDPURLs (ck_cert k)) maxCDPURLs"
  obtain ok r1 w1 where 1: "cached_pass E k ?urls [] r w = Some (ok, r1, w1)"
    using p by (auto simp: check_cert_def Let_def split: option.splits)
  obtain errs2 r2 w2 where 2: "fetch_pass E k ok ?urls [] r1 w1 = Some (errs2, r2, w2)"
    using p 1 by (auto simp: check_cert_def Let_def split: option.splits)
  obtain e w3 where 3: "ctx_Err E w2 = (e, w3)" by fastforce
  from cached_pass_keeps [OF 1 tr I] have k1: "I k r1" "R (w_store w) (w_store w1)" by simp_all
  from fetch_pass_keeps [OF 2 tr k1(1)] have k2: "I k r2" "R (w_store w1) (w_store w2)" by simp_all
  have R3: "R (w_store w) (w_store w3)" using onward [OF k1(2) k2(2)] outside_store(2) [OF 3] by simp
  show ?thesis
  proof (cases e)
    case (Some y)
    with p 1 2 3 have "x = Inl y" "w' = w3" by (simp_all add: check_cert_def Let_def)
    with R3 show ?thesis by simp
  next
    case None
    obtain errs4 r4 w4 where 4: "store_crl E k errs2 r2 w3 = Some (errs4, r4, w4)"
      using p 1 2 3 None by (auto simp: check_cert_def Let_def split: option.splits)
    obtain errs5 r5 w5 where 5: "ocsp_step E k errs4 r4 w4 = Some (errs5, r5, w5)"
      using p 1 2 3 None 4 by (auto simp: check_cert_def Let_def split: option.splits)
    from store_crl_keeps [OF 4 tr k2(1)] have k4: "I k r4" "R (w_store w3) (w_store w4)" by simp_all
    from ocsp_step_keeps [OF 5 tr k4(1)] have k5: "I k r5" "R (w_store w4) (w_store w5)" by simp_all
    have "I k (show_errors k errs5 r5)" by (rule quiet [OF k5(1)]) simp_all
    moreover have "R (w_store w) (w_store w5)" using onward [OF onward [OF R3 k4(2)] k5(2)] .
    ultimately show ?thesis using p 1 2 3 None 4 5 by (auto simp: check_cert_def Let_def)
  qed
qed

text \<open>Each position ends with the result of a check that kept the invariant, or unchecked.\<close>

lemma check_chain_keeps:
  assumes start: "\<And>i f. I (position chain ps tr i) (start_rev f)"
  shows "check_chain E chain ps tr is f w = Some (x, w') \<Longrightarrow> R (w_store w) (w_store w') \<and>
    (\<forall>f'. x = Inr f' \<longrightarrow> (\<exists>fs. f_results f' = f_results f @ fs \<and>
       list_all2 (\<lambda>i p. if needs_check (ce_info (chain ! i)) then \<exists>r. fst p = rv_result r \<and> I (position chain ps tr i) r
          else fst p = no_result) is fs))"
proof (induction "is" arbitrary: f w)
  case Nil
  then show ?case by (auto simp: same)
next
  case (Cons i "is")
  from Cons.prems show ?case
  proof (cases rule: check_chain_cases)
    case cut
    then show ?thesis by (simp add: same)
  next
    case (plain w1)
    from Cons.IH [OF plain(3)] plain(1,2) show ?thesis by fastforce
  next
    case (failed w1 e)
    from check_cert_keeps [OF failed(2) _ start] failed show ?thesis by (simp add: position_def)
  next
    case (checked w1 r w2)
    from check_cert_keeps [OF checked(3) _ start] have k: "I (position chain ps tr i) r" "R (w_store w) (w_store w2)"
      using checked(2) by (simp_all add: position_def)
    note IH = Cons.IH [OF checked(4)]
    have "R (w_store w) (w_store w')" using onward [OF k(2)] IH by blast
    moreover have "\<exists>r'. rv_result r = rv_result r' \<and> I (position chain ps tr i) r'" using k(1) by blast
    ultimately show ?thesis using IH checked(1) by fastforce
  qed
qed

end

end
