(* ===== verification/Analyze_Laws.thy ===== *)
theory Analyze_Laws
  imports Revocation_Laws
begin

text \<open>
  Whole analyses: the lemmas of the locale \<open>check_laws\<close> from the chain to the response, its
  interpretations (what may be written to the store, which CRLs enter it, what a link leaves
  behind, what stands behind a status), and the properties of \<open>analyzeData\<close> they give.
\<close>

section \<open>The chain and the conclusion\<close>

lemma fold_warn_store [simp]: "w_store (fold warn ms w) = w_store w"
  by (induction ms arbitrary: w) simp_all

lemma build_chain_store: "build_chain E leaf src bag w = (r, w') \<Longrightarrow> w_store w' = w_store w"
  by (auto simp: build_chain_def dest: chain_loop_store)

text \<open>Where the certificates of the bag and of the chain come from.\<close>

definition sources_in :: "(string \<Rightarrow> bool) \<Rightarrow> bagCert list \<Rightarrow> bool" where
  "sources_in S bag \<longleftrightarrow> (\<forall>c \<in> set bag. S (bc_source c))"

lemma sources_in_any: "sources_in (\<lambda>_. True) bag"
  by (simp add: sources_in_def)

lemma build_chain_sources:
  assumes "list_all S [''fetched'', ''cache'', ''archive'']" and "sources_in S bag"
    and "build_chain E leaf src bag w = (Inr (chain, cert', bag'), w')"
  shows "\<forall>e \<in> set (tl chain). S (ce_source e)"
proof -
  have "S src" if "supplied E i src" for i src using that assms(1) by (auto simp: supplied_def)
  with chain_loop_adds [OF assms(3) [unfolded build_chain_def]] assms(2) show ?thesis by (fastforce simp: sources_in_def)
qed

text \<open>Every certificate of a chain was in the bag or was read by the library, and so is the issuer a CRL is looked up under.\<close>

definition known :: "('c, 'l, 'o, 's, 'n) env \<Rightarrow> bagCert list \<Rightarrow> CertInfo \<Rightarrow> bool" where
  "known E bag c \<longleftrightarrow> c \<in> bc_info ` set bag \<or> (\<exists>d. ParseCertInfo (e_mp E) d = Inr c)"

definition knows :: "('c, 'l, 'o, 's, 'n) env \<Rightarrow> bagCert list \<Rightarrow> check \<Rightarrow> bool" where
  "knows E bag k \<longleftrightarrow> (\<forall>e \<in> set (ck_chain k). known E bag (ce_info e))
     \<and> (\<forall>j. ck_issuer k = Some j \<longrightarrow> j < length (ck_chain k))"

lemma known_chain:
  assumes a: "analyze_chain E leaf bag link w = (Inr (chain, ps), w')" and leaf: "ParseCertInfo (e_mp E) input = Inr leaf"
  shows "\<forall>e \<in> set chain. known E bag (ce_info e)"
proof -
  define w1 where "w1 = (if link then w else archive E leaf '''' w)"
  obtain current bag' w2 where b: "build_chain E leaf (if link then ''link'' else ''upload'') bag w1 = (Inr (chain, current, bag'), w2)"
    using a by (auto simp: analyze_chain_def Let_def w1_def split: prod.splits sum.splits)
  from chain_loop_adds [OF b [unfolded build_chain_def]] leaf show ?thesis
    by (fastforce simp: known_def supplied_def)
qed

lemma knows_position: "\<forall>e \<in> set chain. known E bag (ce_info e) \<Longrightarrow> knows E bag (position chain ps tr i)"
  by (auto simp: knows_def position_def issuerIdx_def dest!: find_SomeD)

lemma knows_issuer: "knows E bag k \<Longrightarrow> findCRLIssuer k ci = Some ca \<Longrightarrow> known E bag ca"
  by (fastforce simp: knows_def findCRLIssuer_def split: option.splits if_splits dest!: find_SomeD)

lemma archive_site_none: "\<forall>c \<in> set cs. bc_source c \<noteq> ''tls'' \<Longrightarrow> archive_site E n cs w = w"
  by (induction cs arbitrary: n) auto

context check_laws
begin

lemma archive_R:
  assumes "DER c \<notin> set tr" and "S src"
  shows "R (w_store w) (w_store (archive E c src w))"
proof -
  obtain t w1 where t: "time_now E w = (t, w1)" by fastforce
  show ?thesis using archived [OF assms] outside_store(1) [OF t] by (simp add: archive_def t)
qed

lemma archive_chain_R:
  assumes "\<forall>e \<in> set cs. S (ce_source e)"
  shows "R (w_store w) (w_store (archive_chain E tr cs w))"
  using assms
proof (induction cs arbitrary: w)
  case (Cons c cs)
  then have "R (w_store w) (w_store (if DER (ce_info c) \<in> set tr then w else archive E (ce_info c) (ce_source c) w))"
    by (simp add: archive_R same)
  from onward [OF this Cons.IH] Cons.prems show ?case by simp
qed (simp add: same)

lemma archive_site_R:
  assumes any: "tr = [] \<or> (\<forall>c src t s. R s (SaveCert (e_hash E) t (args_of c src) s))"
    and "sources_in S cs"
  shows "R (w_store w) (w_store (archive_site E n cs w))"
  using assms(2)
proof (induction cs arbitrary: n w)
  case (Cons c cs)
  show ?case
  proof (cases "bc_source c = ''tls'' \<and> n < maxChainDepth")
    case True
    obtain t w1 where t: "time_now E w = (t, w1)" by fastforce
    have "R (w_store w1) (SaveCert (e_hash E) t (args_of (bc_info c) (bc_source c)) (w_store w1))"
      using any archived [of "bc_info c" "bc_source c"] Cons.prems by (auto simp: sources_in_def)
    then have "R (w_store w) (w_store (archive E (bc_info c) (bc_source c) w))"
      using outside_store(1) [OF t] by (simp add: archive_def t)
    from onward [OF this Cons.IH] True Cons.prems show ?thesis by (simp add: sources_in_def)
  next
    case False
    then have "archive_site E n (c # cs) w = archive_site E n cs w" by auto
    with Cons.IH Cons.prems show ?thesis by (simp add: sources_in_def)
  qed
qed (simp add: same)

text \<open>Nothing is transient, or no site presented anything, or anything may be archived.\<close>

lemma analyze_chain_R:
  assumes a: "analyze_chain E leaf bag link w = (r, w')" and tr: "transients link leaf bag = tr"
    and bag: "sources_in S bag"
    and tls: "link \<Longrightarrow> (\<forall>c \<in> set bag. bc_source c \<noteq> ''tls'') \<or> (\<forall>c src t s. R s (SaveCert (e_hash E) t (args_of c src) s))"
  shows "R (w_store w) (w_store w')"
proof -
  define w1 where "w1 = (if link then w else archive E leaf '''' w)"
  have tr0: "\<not> link \<Longrightarrow> tr = []" using tr by (simp add: transients_def)
  have R1: "R (w_store w) (w_store w1)" using tr0 using origins by (simp add: w1_def same archive_R)
  obtain x w2 where x: "build_chain E leaf (if link then ''link'' else ''upload'') bag w1 = (x, w2)" by fastforce
  note s2 = build_chain_store [OF x]
  show ?thesis
  proof (cases x)
    case (Inl e)
    with a x R1 s2 show ?thesis by (auto simp: analyze_chain_def Let_def w1_def)
  next
    case (Inr y)
    obtain chain current bag' where y: "y = (chain, current, bag')" by (cases y)
    have "\<forall>e \<in> set (tl chain). S (ce_source e)"
      using build_chain_sources [OF _ bag x [unfolded Inr y]] origins by simp
    note chain_R = archive_chain_R [OF this]
    let ?w3 = "archive_chain E tr (tl chain) (depth_warning chain current w2)"
    have w': "w' = url_warnings chain (archive_site E 0 bag ?w3)"
      using a x Inr y tr by (simp add: analyze_chain_def Let_def w1_def)
    have "R (w_store w1) (w_store ?w3)"
      using chain_R [of "depth_warning chain current w2"] s2 by simp
    moreover have "R (w_store ?w3) (w_store (archive_site E 0 bag ?w3))"
      using archive_site_R [OF _ bag] tr0 tls archive_site_none [of bag E] same by metis
    ultimately show ?thesis using onward [OF R1 onward] by (simp add: w')
  qed
qed

lemma conclude_R: "conclude E chain ps tr f w = Some (v, w') \<Longrightarrow> R (w_store w) (w_store w')"
  by (auto simp: conclude_def Let_def same dest!: trustedPath_R split: option.splits sum.splits if_splits)

lemma judge_R:
  assumes j: "judge E isAdmin chain ps tr w = Some (x, w')"
    and start: "\<And>i f. I (position chain ps tr i) (start_rev f)"
  shows "R (w_store w) (w_store w')"
proof -
  obtain y w1 where y: "check_chain E chain ps tr [0..<length chain] \<lparr>f_results = [], f_crls = [], f_ocsps = []\<rparr> w = Some (y, w1)"
    using j by (auto simp: judge_def split: option.splits)
  note R1 = check_chain_keeps [OF start y, THEN conjunct1]
  show ?thesis
  proof (cases y)
    case (Inl e)
    with j y R1 show ?thesis by (simp add: judge_def)
  next
    case (Inr f)
    obtain e w2 where e: "ctx_Err E w1 = (e, w2)" by fastforce
    note s2 = outside_store(2) [OF e]
    show ?thesis
    proof (cases e)
      case (Some z)
      with j y Inr e R1 s2 show ?thesis by (simp add: judge_def)
    next
      case None
      obtain v where "conclude E chain ps tr f w2 = Some (v, w')"
        using j y Inr e None by (auto simp: judge_def split: option.splits)
      from conclude_R [OF this] s2 have "R (w_store w1) (w_store w')" by simp
      with R1 show ?thesis by (rule onward)
    qed
  qed
qed

text \<open>An uploaded CRL; nothing of it is transient.\<close>

lemma chainsToTrust_R:
  assumes c: "chainsToTrust E ca w = Some (ok, w')" and "tr = []"
  shows "R (w_store w) (w_store w') \<and> (ok \<longrightarrow> reaches_trust E (DER ca) (w_store w'))"
proof (cases "trusted E ca (w_store w)")
  case True
  with c show ?thesis by (simp add: chainsToTrust_def same reaches_trust_def trusted_def)
next
  case False
  obtain roots ints where l: "trust_loop E (w_store w) maxChainDepth [IssuerNameDER ca] [] [] [] = (roots, ints)" by fastforce
  with c False obtain via where t: "trustedPath E (DER ca) roots ints tr w = Some (via, w')" "ok = (via \<noteq> None)"
    by (auto simp: chainsToTrust_def \<open>tr = []\<close>)
  from trustedPath_R [OF t(1)] trustedPath_reaches [of E "DER ca" roots ints tr w _ w'] t show ?thesis by auto
qed

lemma save_upload_R:
  assumes s: "save_upload E ca crl now w = Some w'" and "tr = []"
    and "ParseCRL (e_mp E) (e_rd E) der = Inr crl" and "CanSignCRL ca" and "crl_Verify (e_mp E) crl (DER ca) = Verified"
    and read: "\<exists>d. ParseCertInfo (e_mp E) d = Inr ca"
  shows "R (w_store w) (w_store w')"
proof -
  obtain ok w1 where c: "chainsToTrust E ca w = Some (ok, w1)"
    using s by (auto simp: save_upload_def Let_def split: option.splits)
  note R1 = chainsToTrust_R [OF c \<open>tr = []\<close>]
  show ?thesis
  proof (cases "ok \<and> \<not> (NextUpdate (Info crl) \<noteq> zero_time \<and> NextUpdate (Info crl) < now)")
    case False
    with s c R1 show ?thesis by (auto simp: save_upload_def Let_def split: if_splits)
  next
    case True
    obtain t1 w2 where t1: "time_now E w1 = (t1, w2)" by fastforce
    obtain t2 w3 where t2: "time_now E w2 = (t2, w3)" by fastforce
    obtain t3 w4 where t3: "time_now E w3 = (t3, w4)" by fastforce
    have st: "w_store w4 = w_store w1"
      using outside_store(1) [OF t1] outside_store(1) [OF t2] outside_store(1) [OF t3] by simp
    have "vouched_by E ca crl (w_store w1)" using assms(3-5) R1 True unfolding vouched_by_def by blast
    note kept_crl [OF this disjI2 [OF read], of t1 t2 t3 "''''"]
    moreover have "w' = w4\<lparr>w_store := SaveCRL (e_hash E) t1 t2 t3 (crl_Issuer (Info crl)) '''' (crl_DER crl)
        (ThisUpdate (Info crl)) (NextUpdate (Info crl)) (w_store w4)\<rparr>"
      using s True by (auto simp: save_upload_def Let_def c t1 t2 t3)
    ultimately show ?thesis using onward [of "w_store w" "w_store w1"] R1 by (simp add: st)
  qed
qed

lemma upload_issuer_signs: "upload_issuer E s ci = Some ca \<Longrightarrow> CanSignCRL ca"
  by (auto simp: upload_issuer_def signs_upload_def split: if_splits dest!: find_SomeD)

lemma upload_issuer_read:
  assumes "upload_issuer E s ci = Some ca"
  shows "\<exists>d. ParseCertInfo (e_mp E) d = Inr ca"
proof -
  have "ca \<in> set (List.map_filter (\<lambda>d. case ParseCertInfo (e_mp E) d of Inl _ \<Rightarrow> None | Inr c \<Rightarrow> Some c)
      (poolIssuers (crl_IssuerNameDER ci) s))"
    using assms by (auto simp: upload_issuer_def split: if_splits dest: find_SomeD)
  then obtain d where "(case ParseCertInfo (e_mp E) d of Inl _ \<Rightarrow> None | Inr c \<Rightarrow> Some c) = Some ca"
    by (auto simp: List.map_filter_def)
  then have "ParseCertInfo (e_mp E) d = Inr ca" by (simp split: sum.splits)
  then show ?thesis ..
qed

lemma doAnalyzeCRL_R:
  assumes d: "doAnalyzeCRL E isAdmin crl w = Some (resp, w')" and "tr = []"
    and der: "ParseCRL (e_mp E) (e_rd E) der = Inr crl"
  shows "R (w_store w) (w_store w')"
proof -
  obtain now w0 where t: "time_now E w = (now, w0)" by fastforce
  let ?w1 = "fold warn (upload_warnings E (Info crl) now) w0"
  note s1 = outside_store(1) [OF t]
  show ?thesis
  proof (cases "upload_issuer E (w_store w0) (Info crl)")
    case None
    with d t s1 show ?thesis by (auto simp: doAnalyzeCRL_def Let_def same)
  next
    case (Some ca)
    show ?thesis
    proof (cases "crl_Verify (e_mp E) crl (DER ca)")
      case Verified
      with d t Some have "save_upload E ca crl now ?w1 = Some w'" by (auto simp: doAnalyzeCRL_def Let_def)
      from save_upload_R [OF this \<open>tr = []\<close> der upload_issuer_signs [OF Some] Verified upload_issuer_read [OF Some]] s1 show ?thesis by simp
    qed (use d t Some s1 in \<open>auto simp: doAnalyzeCRL_def Let_def same\<close>)
  qed
qed

end

section \<open>analyzeData\<close>

text \<open>An input that is no CRL: nothing that was analysed, a chain cut short, a chain judged.\<close>

lemma analyzeData_no_crl:
  assumes a: "analyzeData E isAdmin input bag link w = Some (x, w')" and c: "openCRL E input w = (Inl z, w1)"
  obtains (refused) "w_store w' = w_store w" "\<And>resp. x = Inr resp \<Longrightarrow> \<exists>msg. resp = verdict_only msg w'"
    | (cut) leaf w2 e where "w_store w2 = w_store w" "ParseCertInfo (e_mp E) input = Inr leaf"
      "analyze_chain E leaf bag link w2 = (Inl e, w')" "x = Inl e"
    | (judged) leaf w2 chain ps w3 where "w_store w2 = w_store w" "ParseCertInfo (e_mp E) input = Inr leaf"
      "analyze_chain E leaf bag link w2 = (Inr (chain, ps), w3)"
      "judge E isAdmin chain ps (transients link leaf bag) w3 = Some (x, w')"
proof -
  obtain e w2 where e: "ctx_Err E w1 = (e, w2)" by fastforce
  have s2: "w_store w2 = w_store w" using outside_store(2) [OF e] openCRL_store [OF c] by simp
  show ?thesis
  proof (cases "\<exists>leaf. e = None \<and> ParseCertInfo (e_mp E) input = Inr leaf \<and> length input \<le> 2 * CertSize
      \<and> length (DER leaf) \<le> CertSize")
    case False
    with a c e have "w' = w2 \<and> (\<forall>resp. x = Inr resp \<longrightarrow> (\<exists>msg. resp = verdict_only msg w2))"
      by (auto simp: analyzeData_def split: option.splits if_splits sum.splits)
    with refused s2 show ?thesis by blast
  next
    case True
    then obtain leaf where leaf: "e = None" "ParseCertInfo (e_mp E) input = Inr leaf" "\<not> length input > 2 * CertSize"
      "\<not> length (DER leaf) > CertSize" by auto
    obtain y w3 where y: "analyze_chain E leaf bag link w2 = (y, w3)" by fastforce
    have r: "(case y of Inl e \<Rightarrow> Some (Inl e, w3) | Inr (chain, ps) \<Rightarrow> judge E isAdmin chain ps (transients link leaf bag) w3) = Some (x, w')"
      using a c e leaf y by (auto simp: analyzeData_def split: sum.splits prod.splits)
    then show ?thesis using y cut judged s2 leaf(2) by (cases y) auto
  qed
qed

text \<open>What an analysis came to: a CRL, or one of these.\<close>

lemma analyzeData_cases:
  assumes a: "analyzeData E isAdmin input bag link w = Some (x, w')"
  obtains (crl) crl w1 der resp where "w_store w1 = w_store w" "ParseCRL (e_mp E) (e_rd E) der = Inr crl"
      "doAnalyzeCRL E isAdmin crl w1 = Some (resp, w')" "x = Inr resp" "openCRL E input w = (Inr crl, w1)"
    | (refused) "w_store w' = w_store w" "\<And>resp. x = Inr resp \<Longrightarrow> \<exists>msg. resp = verdict_only msg w'"
    | (cut) leaf w1 e where "w_store w1 = w_store w" "ParseCertInfo (e_mp E) input = Inr leaf"
      "analyze_chain E leaf bag link w1 = (Inl e, w')" "x = Inl e"
    | (judged) leaf w1 chain ps w2 where "w_store w1 = w_store w" "ParseCertInfo (e_mp E) input = Inr leaf"
      "analyze_chain E leaf bag link w1 = (Inr (chain, ps), w2)"
      "judge E isAdmin chain ps (transients link leaf bag) w2 = Some (x, w')"
proof -
  obtain c w1 where c: "openCRL E input w = (c, w1)" by fastforce
  show ?thesis
  proof (cases c)
    case (Inr l)
    note c = c [unfolded Inr]
    obtain resp where "doAnalyzeCRL E isAdmin l w1 = Some (resp, w')" "x = Inr resp"
      using a c by (auto simp: analyzeData_def)
    moreover obtain der where "ParseCRL (e_mp E) (e_rd E) der = Inr l" using openCRL_parsed [OF c] by blast
    ultimately show ?thesis using crl openCRL_store [OF c] c by blast
  next
    case (Inl z)
    from a c [unfolded Inl] show ?thesis by (cases rule: analyzeData_no_crl) (fact refused cut judged)+
  qed
qed

end
