(* ===== verification/Analysis_Props.thy ===== *)
theory Analysis_Props
  imports Analyze_Laws
begin

text \<open>
  The properties of a whole analysis: what it may change in the store, which CRLs enter it, what a
  link leaves behind, what stands behind a revocation status, when the verdict is \<open>ok\<close> and what
  trusted means. Each is an interpretation of the locale \<open>check_laws\<close> and a case analysis of
  \<open>analyzeData\<close>.
\<close>

section \<open>What an analysis may write\<close>

lemma analysed_SaveCRL: "analysed H s (SaveCRL H t1 t2 t3 i u d b n s)"
  using analysed_op [of "Op_SaveCRL t1 t2 t3 i u d b n" H s] by simp

lemma analysed_SaveOCSP: "analysed H s (fst (SaveOCSP H t1 t2 th u st d b n p s))"
  using analysed_op [of "Op_SaveOCSP t1 t2 th u st d b n p" H s] by simp

interpretation writes: check_laws E tr "\<lambda>k r. True" "analysed (e_hash E)" "\<lambda>_. True" for E :: "('c, 'l, 'o, 's, 'n) env" and tr
  by unfold_locales
     (auto intro: analysed_trans analysed_SaveCert analysed_SavePoolCert analysed_SaveCRL analysed_SaveOCSP)

lemma analyzeData_analysed:
  assumes a: "analyzeData E isAdmin input bag link w = Some (x, w')"
  shows "analysed (e_hash E) (w_store w) (w_store w')"
  using a
proof (cases rule: analyzeData_cases)
  case (crl l w1 der resp)
  from writes.doAnalyzeCRL_R [OF crl(3) refl crl(2)] crl(1) show ?thesis by simp
next
  case refused
  then show ?thesis by simp
next
  case (cut leaf w1 e)
  from writes.analyze_chain_R [OF cut(3) refl sources_in_any] cut(1) show ?thesis by (simp add: analysed_SaveCert)
next
  case (judged leaf w1 chain ps w2)
  have "analysed (e_hash E) (w_store w1) (w_store w2)"
    using writes.analyze_chain_R [OF judged(3) refl sources_in_any] by (simp add: analysed_SaveCert)
  also have "analysed (e_hash E) (w_store w2) (w_store w')"
    using writes.judge_R [OF judged(4)] by simp
  finally show ?thesis using judged(1) by simp
qed

text \<open>
  Property C9. An analysis, whatever was uploaded, sent in a link, presented by a site or
  downloaded while it ran, changes no certificate's trust and keeps the store well formed.
\<close>

lemma analysis_keeps_trust:
  assumes "analyzeData E isAdmin input bag link w = Some (x, w')"
  shows "IsCertTrusted h (w_store w') = IsCertTrusted h (w_store w)
       \<and> (store_ok (e_hash E) (w_store w) \<longrightarrow> store_ok (e_hash E) (w_store w'))"
  using analyzeData_analysed [OF assms] by (auto simp: analysed_trust dest: analysed_ok)

section \<open>Which CRLs are kept\<close>

definition crl_ders :: "store \<Rightarrow> bytes set" where
  "crl_ders s = k_der ` set (crls s)"

text \<open>
  A CA that vouches for a CRL is no made up record: it is a certificate of the bag the analysis was given, or one the
  library read.
\<close>

definition vouched :: "('c, 'l, 'o, 's, 'n) env \<Rightarrow> bagCert list \<Rightarrow> 'l CRL \<Rightarrow> store \<Rightarrow> bool" where
  "vouched E bag crl s \<longleftrightarrow>
     (\<exists>ca. (ca \<in> bc_info ` set bag \<or> (\<exists>d. ParseCertInfo (e_mp E) d = Inr ca)) \<and> vouched_by E ca crl s)"

definition crls_vouched :: "('c, 'l, 'o, 's, 'n) env \<Rightarrow> bagCert list \<Rightarrow> store \<Rightarrow> store \<Rightarrow> bool" where
  "crls_vouched E bag s s' \<longleftrightarrow> (\<forall>h. IsCertTrusted h s' = IsCertTrusted h s)
     \<and> (\<forall>b \<in> crl_ders s'. b \<in> crl_ders s \<or> (\<exists>crl. crl_DER crl = b \<and> vouched E bag crl s))"

lemma vouched_cong: "(\<forall>h. IsCertTrusted h s' = IsCertTrusted h s) \<Longrightarrow> vouched E bag crl s' = vouched E bag crl s"
  by (simp add: vouched_def vouched_by_def reaches_trust_def)

lemma crl_ders_SaveCRL: "crl_ders (SaveCRL H t1 t2 t3 i u d b n s) \<subseteq> insert d (crl_ders s)"
  by (auto simp: crl_ders_def SaveCRL_defs save_crl_row_def delete_where_def)

lemma crl_ders_others [simp]:
  "crl_ders (SaveCert H t a s) = crl_ders s"
  "crl_ders (fst (SavePoolCert H t a s)) = crl_ders s"
  "crl_ders (fst (SaveOCSP H t1 t2 th u st d b n p s)) = crl_ders s"
  by (simp_all add: crl_ders_def SaveCert_def SavePoolCert_def SaveOCSP_def Let_def)

lemma crls_vouched_refl: "crls_vouched E bag s s"
  by (simp add: crls_vouched_def)

lemma crls_vouched_trans: "crls_vouched E bag s s' \<Longrightarrow> crls_vouched E bag s' s'' \<Longrightarrow> crls_vouched E bag s s''"
  unfolding crls_vouched_def using vouched_cong by (metis (no_types, lifting))

lemma crls_vouched_quiet:
  "(\<And>h. IsCertTrusted h s' = IsCertTrusted h s) \<Longrightarrow> crl_ders s' = crl_ders s \<Longrightarrow> crls_vouched E bag s s'"
  by (simp add: crls_vouched_def)

interpretation kept: check_laws E tr "\<lambda>k r. knows E bag k" "crls_vouched E bag" "\<lambda>_. True"
  for E :: "('c, 'l, 'o, 's, 'n) env" and tr and bag
proof unfold_locales
  fix crl ca t1 t2 t3 url and s :: store
  assume v: "vouched_by E ca crl s"
    and ca: "(\<exists>k r. knows E bag k \<and> findCRLIssuer k (Info crl) = Some ca) \<or> (\<exists>d. ParseCertInfo (e_mp E) d = Inr ca)"
  have "known E bag ca" using ca knows_issuer [of E bag] unfolding known_def by blast
  with v have "vouched E bag crl s" by (auto simp: vouched_def known_def)
  then show "crls_vouched E bag s (SaveCRL (e_hash E) t1 t2 t3 (crl_Issuer (Info crl)) url (crl_DER crl)
      (ThisUpdate (Info crl)) (NextUpdate (Info crl)) s)"
    using crl_ders_SaveCRL unfolding crls_vouched_def by (fastforce simp: trust_simps)
qed (auto intro: crls_vouched_refl crls_vouched_trans crls_vouched_quiet simp: trust_simps)

text \<open>
  Property C8. A CRL enters the store only vouched for: it was parsed, and a certificate that came with the analysis or
  that the library read, which may sign CRLs, verifies its signature and is trusted itself or verifies with nothing but
  trusted roots as anchors. No upload, no download and no mirror can plant another one.
\<close>

lemma only_vouched_crls_enter:
  assumes a: "analyzeData E isAdmin input bag link w = Some (x, w')"
    and row: "row \<in> set (crls (w_store w'))" and new: "k_der row \<notin> k_der ` set (crls (w_store w))"
  shows "\<exists>crl der ca. crl_DER crl = k_der row \<and> ParseCRL (e_mp E) (e_rd E) der = Inr crl
       \<and> (ca \<in> bc_info ` set bag \<or> (\<exists>d. ParseCertInfo (e_mp E) d = Inr ca))
       \<and> CanSignCRL ca \<and> crl_Verify (e_mp E) crl (DER ca) = Verified \<and> reaches_trust E (DER ca) (w_store w)"
proof -
  have any: "crls_vouched E bag s (SaveCert (e_hash E) t (args_of c src) s)" for c src t s
    by (rule crls_vouched_quiet) (simp_all add: trust_simps)
  have "crls_vouched E bag (w_store w) (w_store w')"
    using a
  proof (cases rule: analyzeData_cases)
    case (crl l w1 der resp)
    from kept.doAnalyzeCRL_R [OF crl(3) refl crl(2)] crl(1) show ?thesis by simp
  next
    case refused
    then show ?thesis by (simp add: crls_vouched_refl)
  next
    case (cut leaf w1 e)
    from kept.analyze_chain_R [OF cut(3) refl sources_in_any] cut(1) show ?thesis by (simp add: any)
  next
    case (judged leaf w1 chain ps w2)
    have "crls_vouched E bag (w_store w1) (w_store w2)"
      using kept.analyze_chain_R [OF judged(3) refl sources_in_any] by (simp add: any)
    moreover have "crls_vouched E bag (w_store w2) (w_store w')"
      by (rule kept.judge_R [OF judged(4)]) (rule knows_position [OF known_chain [OF judged(3,2)]])
    ultimately show ?thesis using judged(1) crls_vouched_trans by metis
  qed
  with row new obtain crl where "crl_DER crl = k_der row" "vouched E bag crl (w_store w)"
    by (auto simp: crls_vouched_def crl_ders_def)
  then show ?thesis unfolding vouched_def vouched_by_def by blast
qed

section \<open>What a link leaves\<close>

definition no_new :: "bytes list \<Rightarrow> store \<Rightarrow> store \<Rightarrow> bool" where
  "no_new tr s s' \<longleftrightarrow> ders s' \<inter> set tr \<subseteq> ders s"

lemma ders_others [simp]:
  "ders (SaveCRL H t1 t2 t3 i u d b n s) = ders s" "ders (fst (SaveOCSP H t1 t2 th u st d b n p s)) = ders s"
  by (simp_all add: ders_def)

interpretation linked: check_laws E tr "\<lambda>k r. True" "no_new tr" "\<lambda>_. True" for E :: "('c, 'l, 'o, 's, 'n) env" and tr
proof unfold_locales
  fix c :: CertInfo and t src and s :: store
  assume c: "DER c \<notin> set tr"
  show "no_new tr s (SaveCert (e_hash E) t (args_of c src) s)"
    using c ders_SaveCert [of "e_hash E" t "args_of c src" s] by (auto simp: no_new_def args_of_def)
next
  fix c :: CertInfo and t and s :: store
  assume c: "DER c \<notin> set tr"
  show "no_new tr s (fst (SavePoolCert (e_hash E) t (args_of c '''') s))"
    using c ders_SavePoolCert [of "e_hash E" t "args_of c ''''" s] by (auto simp: no_new_def args_of_def)
qed (auto simp: no_new_def)

text \<open>
  Property C10. Of the certificates that came in a link none enters the store in the whole analysis:
  neither the leaf nor its companions are archived or pooled, even when the chain or a trusted
  path goes through them.
\<close>

lemma link_certificates_not_stored:
  assumes a: "analyzeData E isAdmin input bag True w = Some (x, w')"
    and notcrl: "\<And>crl. fst (openCRL E input w) \<noteq> Inr crl"
    and leaf: "ParseCertInfo (e_mp E) input = Inr leaf" and tls: "\<forall>c \<in> set bag. bc_source c \<noteq> ''tls''"
    and d: "d \<in> insert (DER leaf) (set (map (\<lambda>c. DER (bc_info c)) bag))" and stored: "d \<in> ders (w_store w')"
  shows "d \<in> ders (w_store w)"
proof -
  let ?tr = "transients True leaf bag"
  have "no_new ?tr (w_store w) (w_store w')"
    using a
  proof (cases rule: analyzeData_cases)
    case (crl l w1 der resp)
    with notcrl [of l] show ?thesis by simp
  next
    case refused
    then show ?thesis by (simp add: no_new_def)
  next
    case (cut leaf' w1 e)
    with leaf have "leaf' = leaf" by simp
    from linked.analyze_chain_R [OF cut(3) refl sources_in_any] cut(1) this tls show ?thesis by simp
  next
    case (judged leaf' w1 chain ps w2)
    with leaf have l: "leaf' = leaf" by simp
    have "no_new ?tr (w_store w1) (w_store w2)" using linked.analyze_chain_R [OF judged(3) refl sources_in_any] tls l by simp
    moreover have "no_new ?tr (w_store w2) (w_store w')" using linked.judge_R [OF judged(4)] l by simp
    ultimately show ?thesis using judged(1) by (auto simp: no_new_def)
  qed
  with d stored show ?thesis by (auto simp: no_new_def transients_def)
qed

section \<open>What stands behind a status\<close>

definition backed :: "('c, 'l, 'o, 's, 'n) env \<Rightarrow> check \<Rightarrow> rev \<Rightarrow> bool" where
  "backed E k r \<longleftrightarrow> (if rv_checked r then justified E k (rv_result r) else rv_result r = no_result)"

interpretation evidence: check_laws E tr "backed E" "\<lambda>s s'. True" "\<lambda>_. True" for E :: "('c, 'l, 'o, 's, 'n) env" and tr
  by unfold_locales (auto simp: backed_def)

lemma backed_start: "backed E k (start_rev f)"
  by (simp add: backed_def start_rev_def)

lemma check_chain_backed:
  assumes "check_chain E chain ps tr [0..<length chain] \<lparr>f_results = [], f_crls = [], f_ocsps = []\<rparr> w = Some (Inr f, w')"
  shows "length (f_results f) = length chain" (is ?len)
    and "i < length chain \<Longrightarrow> fst (f_results f ! i) = no_result
           \<or> (needs_check (ce_info (chain ! i)) \<and> justified E (position chain ps tr i) (fst (f_results f ! i)))"
proof -
  let ?P = "\<lambda>i p. if needs_check (ce_info (chain ! i)) then \<exists>r. fst p = rv_result r \<and> backed E (position chain ps tr i) r
      else fst p = no_result"
  have l: "list_all2 ?P [0..<length chain] (f_results f)"
    using evidence.check_chain_keeps [OF backed_start assms] by simp
  show ?len using list_all2_lengthD [OF l] by simp
  show "fst (f_results f ! i) = no_result
      \<or> (needs_check (ce_info (chain ! i)) \<and> justified E (position chain ps tr i) (fst (f_results f ! i)))" if "i < length chain"
    using list_all2_nthD [OF l, of i] that by (auto simp: backed_def split: if_splits)
qed

text \<open>The parts of a judged response.\<close>

lemma judge_response:
  assumes "judge E isAdmin chain ps tr w = Some (Inr resp, w')"
  obtains f w1 w2 v where
    "check_chain E chain ps tr [0..<length chain] \<lparr>f_results = [], f_crls = [], f_ocsps = []\<rparr> w = Some (Inr f, w1)"
    "ctx_Err E w1 = (None, w2)" "conclude E chain ps tr f w2 = Some (v, w')"
    "resp = \<lparr>r_Chain = chain_json E (w_store w') chain f, r_Verify = v, r_Warnings = w_warn w', r_IsAdmin = isAdmin\<rparr>"
  using assms unfolding judge_def by (fastforce split: option.splits sum.splits prod.splits)

lemma chain_json_nth:
  "i < length chain \<Longrightarrow> c_info (chain_json E s chain f ! i) = ce_info (chain ! i)
     \<and> c_Source (chain_json E s chain f ! i) = ce_source (chain ! i)
     \<and> c_Revocation (chain_json E s chain f ! i)
         = (if rr_status (fst (f_results f ! i)) \<noteq> '''' then Some (fst (f_results f ! i)) else None)"
  by (simp add: chain_json_def certToJSON_def Let_def)

lemma chain_json_length [simp]: "length (chain_json E s chain f) = length chain"
  by (simp add: chain_json_def)

definition chain_of :: "response \<Rightarrow> chainEntry list" where
  "chain_of resp = map (\<lambda>j. \<lparr>ce_info = c_info j, ce_source = c_Source j\<rparr>) (r_Chain resp)"

lemma chain_of_json: "r_Chain resp = chain_json E s chain f \<Longrightarrow> chain_of resp = chain"
  by (rule nth_equalityI) (simp_all add: chain_of_def chain_json_nth)

lemma judge_evidence:
  assumes "judge E isAdmin chain ps tr w = Some (Inr resp, w')" and i: "i < length (r_Chain resp)"
    and res: "c_Revocation (r_Chain resp ! i) = Some res"
  shows "needs_check (c_info (r_Chain resp ! i)) \<and> justified E (position (chain_of resp) ps tr i) res"
proof -
  from assms(1) obtain f w1 w2 v where
    c: "check_chain E chain ps tr [0..<length chain] \<lparr>f_results = [], f_crls = [], f_ocsps = []\<rparr> w = Some (Inr f, w1)" and
    r: "resp = \<lparr>r_Chain = chain_json E (w_store w') chain f, r_Verify = v, r_Warnings = w_warn w', r_IsAdmin = isAdmin\<rparr>"
    by (rule judge_response)
  have ch: "chain_of resp = chain" by (rule chain_of_json) (simp add: r)
  have i': "i < length chain" using i by (simp add: r)
  have "res = fst (f_results f ! i)" "rr_status res \<noteq> ''''"
    using res chain_json_nth [OF i', of E "w_store w'" f] by (auto simp: r split: if_splits)
  with check_chain_backed(2) [OF c i'] chain_json_nth [OF i', of E "w_store w'" f] ch show ?thesis
    by (auto simp: r no_result_def)
qed

text \<open>
  Property C2. A certificate is shown with a revocation status only on evidence: a parsed CRL that a
  CA of the chain which may sign CRLs verifies, that is current and was asked about this very
  certificate - and, to show it unrevoked, covers it - or a verified OCSP response of the CA above
  it. An unverified, stale or foreign CRL or response never decides.
\<close>

lemma no_status_without_evidence:
  assumes a: "analyzeData E isAdmin input bag link w = Some (Inr resp, w')" and i: "i < length (r_Chain resp)"
    and res: "c_Revocation (r_Chain resp ! i) = Some res"
  shows "\<exists>ps tr. justified E (position (chain_of resp) ps tr i) res"
  using a
proof (cases rule: analyzeData_cases)
  case (crl l w1 der resp')
  then have "resp = resp'" by simp
  with crl(3) have "r_Chain resp ! i = hd (r_Chain resp) \<and> c_Revocation (hd (r_Chain resp)) = None"
    using i by (auto simp: doAnalyzeCRL_def Let_def upload_response_def missing_json_def upload_ca_json_def certToJSON_def
      split: prod.splits option.splits crl_verdict.splits)
  with res show ?thesis by simp
next
  case refused
  with i show ?thesis by (auto simp: verdict_only_def)
next
  case cut
  then show ?thesis by simp
next
  case (judged leaf w1 chain ps w2)
  from judge_evidence [OF judged(4) i res] show ?thesis by blast
qed

end
