(* ===== verification/Verdict.thy ===== *)
theory Verdict
  imports Analysis_Props
begin

text \<open>
  What the verdict says: exactly when it is \<open>ok\<close>, what trusted means, and that an analysis always
  comes to an end.
\<close>

section \<open>The verdict\<close>

text \<open>A chain that was built starts at the leaf.\<close>

lemma build_chain_starts:
  assumes "build_chain E leaf src bag w = (Inr (chain, current, bag'), w')"
  shows "chain \<noteq> [] \<and> ce_info (hd chain) = leaf"
proof -
  have "chain_inv (e_hash E) leaf [\<lparr>ce_info = leaf, ce_source = src\<rparr>] leaf [SHA256Hex (e_hash E) (DER leaf)]"
    by (simp add: chain_inv_def)
  from chain_loop_inv [OF assms [unfolded build_chain_def] this] show ?thesis by (auto simp: chain_inv_def)
qed

lemma analyze_chain_starts:
  assumes "analyze_chain E leaf bag link w = (Inr (chain, ps), w')"
  shows "chain \<noteq> [] \<and> ce_info (hd chain) = leaf"
  using assms by (auto simp: analyze_chain_def Let_def dest: build_chain_starts split: prod.splits sum.splits)

lemma revocation_verdict_ok:
  "v_Status (revocation_verdict chain f v) = ''ok'' \<longleftrightarrow>
     v_Status v = ''ok'' \<and> (\<forall>(c, r, reasons) \<in> set (checked_of chain f). \<not> rr_revoked r \<and> rr_status r \<noteq> '''')"
proof (cases "\<exists>(c, r, reasons) \<in> set (checked_of chain f). rr_revoked r")
  case True
  then have "v_Status (revocation_verdict chain f v) \<noteq> ''ok''" by (simp add: revocation_verdict_def Let_def)
  moreover have "\<not> (\<forall>(c, r, reasons) \<in> set (checked_of chain f). \<not> rr_revoked r \<and> rr_status r \<noteq> '''')"
    using True by fast
  ultimately show ?thesis by blast
next
  case False
  let ?cs = "checked_of chain f"
  have "filter (\<lambda>(c, r, _). rr_status r = '''') ?cs = [] \<longleftrightarrow> (\<forall>(c, r, reasons) \<in> set ?cs. rr_status r \<noteq> '''')"
    by (auto simp: filter_empty_conv)
  with False show ?thesis by (auto simp: revocation_verdict_def Let_def split: if_splits)
qed

lemma conclude_status:
  assumes "conclude E chain ps tr f w = Some (v, w')"
  shows "v_Status v = ''ok'' \<longleftrightarrow>
     (\<exists>vr. chain_Verify (e_mp E) (e_num E) (DER (ce_info (hd chain))) (p_roots ps) (p_ints ps) = Some (Inr vr)
         \<and> ChainStatus vr = ''ok'')
     \<and> (\<forall>(c, r, reasons) \<in> set (checked_of chain f). \<not> rr_revoked r \<and> rr_status r \<noteq> '''')"
proof (cases "chain_Verify (e_mp E) (e_num E) (DER (ce_info (hd chain))) (p_roots ps) (p_ints ps)")
  case None
  with assms show ?thesis by (simp add: conclude_def)
next
  case (Some x)
  show ?thesis
  proof (cases x)
    case (Inl e)
    with assms Some show ?thesis by (auto simp: conclude_def verdict_def)
  next
    case (Inr vr)
    let ?v = "revocation_verdict chain f (verdict (ChainStatus vr) (chain_message vr))"
    have "v_Status v = v_Status ?v"
      using assms Some Inr by (auto simp: conclude_def Let_def split: if_splits option.splits)
    with Some Inr show ?thesis by (simp add: revocation_verdict_ok verdict_def)
  qed
qed

lemma checked_of_all:
  assumes "length (f_results f) = length chain"
  shows "(\<forall>(c, r, reasons) \<in> set (checked_of chain f). P r) \<longleftrightarrow>
    (\<forall>i < length chain. needs_check (ce_info (chain ! i)) \<longrightarrow> P (fst (f_results f ! i)))"
proof -
  have "(\<forall>(c, r, reasons) \<in> set (checked_of chain f). P r) \<longleftrightarrow>
      (\<forall>x \<in> set (zip (map ce_info chain) (f_results f)). needs_check (fst x) \<longrightarrow> P (fst (snd x)))"
    unfolding checked_of_def split_beta set_filter by blast
  also have "\<dots> \<longleftrightarrow> (\<forall>i < length chain. needs_check (ce_info (chain ! i)) \<longrightarrow> P (fst (f_results f ! i)))"
    using assms by (simp add: all_set_conv_all_nth)
  finally show ?thesis .
qed

text \<open>
  Property C3. A chain's verdict is ok exactly when the verifier accepts the leaf with the collected
  roots and intermediates, and every certificate that can be checked is shown not revoked: one
  revoked or undetermined certificate, and it is not ok.
\<close>

lemma ok_exactly_when:
  assumes j: "judge E isAdmin chain ps tr w = Some (Inr resp, w')"
  shows "v_Status (r_Verify resp) = ''ok'' \<longleftrightarrow>
     (\<exists>vr. chain_Verify (e_mp E) (e_num E) (DER (ce_info (hd chain))) (p_roots ps) (p_ints ps) = Some (Inr vr)
         \<and> ChainStatus vr = ''ok'')
     \<and> (\<forall>i < length chain. needs_check (ce_info (chain ! i)) \<longrightarrow>
          (\<exists>res. c_Revocation (r_Chain resp ! i) = Some res \<and> rr_status res = ''not_revoked''))"
proof -
  from j obtain f w1 w2 v where
    c: "check_chain E chain ps tr [0..<length chain] \<lparr>f_results = [], f_crls = [], f_ocsps = []\<rparr> w = Some (Inr f, w1)" and
    v: "conclude E chain ps tr f w2 = Some (v, w')" and
    r: "resp = \<lparr>r_Chain = chain_json E (w_store w') chain f, r_Verify = v, r_Warnings = w_warn w', r_IsAdmin = isAdmin\<rparr>"
    by (rule judge_response)
  have "(\<not> rr_revoked (fst (f_results f ! i)) \<and> rr_status (fst (f_results f ! i)) \<noteq> '''') \<longleftrightarrow>
      (\<exists>res. c_Revocation (r_Chain resp ! i) = Some res \<and> rr_status res = ''not_revoked'')" if i: "i < length chain" for i
    using check_chain_backed(2) [OF c i] chain_json_nth [OF i, of E "w_store w'" f]
    by (auto simp: r no_result_def justified_def)
  then have "(\<forall>(c, r, reasons) \<in> set (checked_of chain f). \<not> rr_revoked r \<and> rr_status r \<noteq> '''') \<longleftrightarrow>
      (\<forall>i < length chain. needs_check (ce_info (chain ! i)) \<longrightarrow>
          (\<exists>res. c_Revocation (r_Chain resp ! i) = Some res \<and> rr_status res = ''not_revoked''))"
    unfolding checked_of_all [OF check_chain_backed(1) [OF c], where P = "\<lambda>r. \<not> rr_revoked r \<and> rr_status r \<noteq> ''''"] by blast
  with conclude_status [OF v] show ?thesis by (simp add: r)
qed

text \<open>What stands behind a trusted verdict.\<close>

lemma conclude_trusted:
  assumes v: "conclude E chain ps tr f w = Some (v, w')" and t: "v_Trusted v"
  obtains vr where
    "chain_Verify (e_mp E) (e_num E) (DER (ce_info (hd chain))) (anchors_of E (w_store w) (p_roots ps)) (p_ints ps) = Some (Inr vr)"
    "ChainStatus vr = ''ok''" "vr_Chain vr \<noteq> []" "v_TrustVia v = Subject (last (vr_Chain vr))"
    "anchors_of E (w_store w) (p_roots ps) \<noteq> []"
proof -
  obtain via w5 where tp: "trustedPath E (DER (ce_info (hd chain))) (p_roots ps) (p_ints ps) tr w5 = Some (Some via, w')"
    and w5: "w_store w5 = w_store w" and via: "v_TrustVia v = via"
    using v t by (auto simp: conclude_def Let_def verdict_def revocation_verdict_def split: if_splits option.splits sum.splits)
  obtain vr where "chain_Verify (e_mp E) (e_num E) (DER (ce_info (hd chain))) (anchors_of E (w_store w5) (p_roots ps)) (p_ints ps)
      = Some (Inr vr)" "ChainStatus vr = ''ok''" "vr_Chain vr \<noteq> []" "via = Subject (last (vr_Chain vr))"
    "anchors_of E (w_store w5) (p_roots ps) \<noteq> []"
    using tp by (auto simp: trustedPath_def Let_def split: if_splits option.splits sum.splits)
  with w5 via show thesis by (intro that [of vr]) simp_all
qed

text \<open>
  Property C1. A leaf is reported trusted only when the verifier accepts it with no other anchors
  than certificates the store trusted before the analysis began, and then the last certificate of
  the path it found is the one named.
\<close>

lemma trusted_only_by_the_store:
  assumes a: "analyzeData E isAdmin input bag link w = Some (Inr resp, w')" and t: "v_Trusted (r_Verify resp)"
  shows "\<exists>anchors ints vr. r_Chain resp \<noteq> [] \<and> anchors \<noteq> [] \<and> vr_Chain vr \<noteq> []
     \<and> (\<forall>d \<in> set anchors. IsCertTrusted (SHA256Hex (e_hash E) d) (w_store w))
     \<and> chain_Verify (e_mp E) (e_num E) (DER (c_info (hd (r_Chain resp)))) anchors ints = Some (Inr vr)
     \<and> ChainStatus vr = ''ok'' \<and> v_TrustVia (r_Verify resp) = Subject (last (vr_Chain vr))"
  using a
proof (cases rule: analyzeData_cases)
  case (crl l w1 der resp')
  then have "\<not> v_Trusted (r_Verify resp)"
    by (auto simp: doAnalyzeCRL_def Let_def upload_response_def verdict_def split: prod.splits option.splits crl_verdict.splits)
  with t show ?thesis by simp
next
  case refused
  with t show ?thesis by (auto simp: verdict_only_def verdict_def)
next
  case cut
  then show ?thesis by simp
next
  case (judged leaf w1 chain ps w2)
  let ?tr = "transients link leaf bag"
  from judged(4) obtain f w3 w4 v where
    c: "check_chain E chain ps ?tr [0..<length chain] \<lparr>f_results = [], f_crls = [], f_ocsps = []\<rparr> w2 = Some (Inr f, w3)" and
    e: "ctx_Err E w3 = (None, w4)" and v: "conclude E chain ps ?tr f w4 = Some (v, w')" and
    r: "resp = \<lparr>r_Chain = chain_json E (w_store w') chain f, r_Verify = v, r_Warnings = w_warn w', r_IsAdmin = isAdmin\<rparr>"
    by (rule judge_response)
  have chain: "chain \<noteq> []" using analyze_chain_starts [OF judged(3)] by simp
  have "v_Trusted v" using t r by simp
  from conclude_trusted [OF v this] obtain vr where
    vr: "chain_Verify (e_mp E) (e_num E) (DER (ce_info (hd chain))) (anchors_of E (w_store w4) (p_roots ps)) (p_ints ps)
      = Some (Inr vr)" "ChainStatus vr = ''ok''" "vr_Chain vr \<noteq> []" "v_TrustVia v = Subject (last (vr_Chain vr))"
      "anchors_of E (w_store w4) (p_roots ps) \<noteq> []" .
  have "analysed (e_hash E) (w_store w1) (w_store w2)"
    using writes.analyze_chain_R [OF judged(3) refl sources_in_any] by (simp add: analysed_SaveCert)
  also have "analysed (e_hash E) (w_store w2) (w_store w3)"
    using writes.check_chain_keeps [OF TrueI c] by simp
  finally have "IsCertTrusted h (w_store w4) = IsCertTrusted h (w_store w)" for h
    using analysed_trust outside_store(2) [OF e] judged(1) by metis
  then have "\<forall>d \<in> set (anchors_of E (w_store w4) (p_roots ps)). IsCertTrusted (SHA256Hex (e_hash E) d) (w_store w)"
    by (simp add: anchors_of_set)
  moreover have "r_Chain resp \<noteq> [] \<and> c_info (hd (r_Chain resp)) = ce_info (hd chain)"
    using chain chain_json_nth [of 0 chain E "w_store w'" f] by (cases chain) (auto simp: r hd_conv_nth chain_json_def)
  moreover have "v_TrustVia (r_Verify resp) = Subject (last (vr_Chain vr))" using vr(4) r by simp
  ultimately show ?thesis using vr(1-3,5) by metis
qed

end
