(* ===== verification/Total.thy ===== *)
theory Total
  imports Verdict
begin

text \<open>
  An analysis never panics: the only panic in its way, indexing an empty certificate given to the
  verifier, cannot happen, because every certificate an analysis collects has an encoding.
\<close>

section \<open>The verifier\<close>

lemma add_all_total: "[] \<notin> set rs \<Longrightarrow> add_all what f add i st rs \<noteq> None"
proof (induction rs arbitrary: i st)
  case (Cons r rs)
  then have "add_all what f add (Suc i) st' rs \<noteq> None" for st' by auto
  with Cons.prems show ?case by (auto split: sum.split)
qed simp

lemma chain_Verify_total: "[] \<notin> set roots \<Longrightarrow> [] \<notin> set ints \<Longrightarrow> chain_Verify mp num der roots ints \<noteq> None"
  by (auto simp: chain_Verify_def add_all_total split: sum.splits option.splits)

lemma trustedPath_total: "[] \<notin> set roots \<Longrightarrow> [] \<notin> set ints \<Longrightarrow> trustedPath E der roots ints tr w \<noteq> None"
  using chain_Verify_total [of "anchors_of E (w_store w) roots" ints "e_mp E" "e_num E" der]
  by (auto simp: trustedPath_def Let_def anchors_of_set split: option.splits sum.splits)

lemma ParseCertInfo_nonempty: "ParseCertInfo mp d = Inr i \<Longrightarrow> d \<noteq> []"
  by (auto simp: ParseCertInfo_def)

lemma split_issuers_nonempty:
  "split_issuers E ds (roots, ints, names) = (roots', ints', names') \<Longrightarrow> [] \<notin> set roots \<union> set ints
     \<Longrightarrow> [] \<notin> set roots' \<union> set ints'"
proof (induction ds arbitrary: roots ints names)
  case (Cons d ds)
  show ?case
  proof (cases "ParseCertInfo (e_mp E) d")
    case (Inl e)
    with Cons show ?thesis by auto
  next
    case (Inr i)
    from ParseCertInfo_nonempty [OF Inr] have d: "d \<noteq> []" .
    show ?thesis
    proof (cases "IsSelfSigned i")
      case True
      with Inr Cons.prems(1) have "split_issuers E ds (roots @ [d], ints, names) = (roots', ints', names')" by simp
      from Cons.IH [OF this] d Cons.prems(2) show ?thesis by auto
    next
      case False
      with Inr Cons.prems(1) have "split_issuers E ds (roots, ints @ [d], names @ [IssuerNameDER i]) = (roots', ints', names')" by simp
      from Cons.IH [OF this] d Cons.prems(2) show ?thesis by auto
    qed
  qed
qed simp

lemma trust_loop_nonempty:
  "trust_loop E s n names seen roots ints = (roots', ints') \<Longrightarrow> [] \<notin> set roots \<union> set ints
     \<Longrightarrow> [] \<notin> set roots' \<union> set ints'"
proof (induction E s n names seen roots ints rule: trust_loop.induct)
  case (3 E s depth name names seen roots ints)
  obtain r i ns where sp: "split_issuers E (poolIssuers name s) (roots, ints, names) = (r, i, ns)"
    by (cases "split_issuers E (poolIssuers name s) (roots, ints, names)")
  show ?case
  proof (cases "name \<in> set seen")
    case True
    with 3 show ?thesis by auto
  next
    case False
    with 3 sp split_issuers_nonempty [OF sp] show ?thesis by auto
  qed
qed auto

lemma chainsToTrust_total: "chainsToTrust E ca w \<noteq> None"
proof -
  obtain roots ints where l: "trust_loop E (w_store w) maxChainDepth [IssuerNameDER ca] [] [] [] = (roots, ints)" by fastforce
  from trust_loop_nonempty [OF l] have "trustedPath E (DER ca) roots ints [] w \<noteq> None" by (simp add: trustedPath_total)
  with l show ?thesis by (auto simp: chainsToTrust_def)
qed

lemma doAnalyzeCRL_total: "doAnalyzeCRL E isAdmin crl w \<noteq> None"
proof -
  have "save_upload E ca crl now w' \<noteq> None" for ca now w'
    using chainsToTrust_total [of E ca w'] by (auto simp: save_upload_def Let_def split: prod.splits)
  then show ?thesis by (auto simp: doAnalyzeCRL_def Let_def split: prod.splits option.splits crl_verdict.splits)
qed

section \<open>The revocation check\<close>

definition encoded :: "parts \<Rightarrow> bool" where
  "encoded ps \<longleftrightarrow> [] \<notin> set (p_roots ps) \<union> set (p_ints ps)"

lemma path_total: "encoded (ck_parts k) \<Longrightarrow> trustedPath E der (p_roots (ck_parts k)) (p_ints (ck_parts k)) tr w \<noteq> None"
  by (simp add: encoded_def trustedPath_total)

lemma keep_crl_total: "encoded (ck_parts k) \<Longrightarrow> keep_crl E k ca crl url w \<noteq> None"
  by (auto simp: keep_crl_def path_total split: option.splits prod.splits)

lemma processCRL_total: "encoded (ck_parts k) \<Longrightarrow> processCRL E k crl src url r w \<noteq> None"
  by (auto simp del: not_None_eq simp: processCRL_def Let_def keep_crl_total split: prod.splits option.splits)

lemma cached_pass_total: "encoded (ck_parts k) \<Longrightarrow> cached_pass E k us ok r w \<noteq> None"
proof (induction us arbitrary: ok r w)
  case (Cons u us)
  then show ?case by (auto simp: processCRL_total split: prod.splits option.splits)
qed simp

lemma fetch_pass_total: "encoded (ck_parts k) \<Longrightarrow> fetch_pass E k ok us errs r w \<noteq> None"
proof (induction us arbitrary: errs r w)
  case (Cons u us)
  then show ?case by (auto simp: processCRL_total split: prod.splits option.splits sum.splits)
qed simp

lemma store_crl_total: "encoded (ck_parts k) \<Longrightarrow> store_crl E k errs r w \<noteq> None"
  by (auto simp del: not_None_eq simp: store_crl_def processCRL_total split: prod.splits option.splits sum.splits)

lemma keep_ocsp_total: "encoded (ck_parts k) \<Longrightarrow> keep_ocsp E k issuer res src url w \<noteq> None"
  by (auto simp: keep_ocsp_def path_total split: option.splits prod.splits)

lemma ocsp_step_total: "encoded (ck_parts k) \<Longrightarrow> ocsp_step E k errs r w \<noteq> None"
  by (auto simp del: not_None_eq simp: ocsp_step_def Let_def keep_ocsp_total split: prod.splits option.splits sum.splits)

lemma check_cert_total: "encoded (ck_parts k) \<Longrightarrow> check_cert E k r w \<noteq> None"
  by (auto simp: check_cert_def Let_def cached_pass_total fetch_pass_total store_crl_total ocsp_step_total
      split: prod.splits option.splits)

lemma check_chain_total: "encoded ps \<Longrightarrow> check_chain E chain ps tr is f w \<noteq> None"
proof (induction "is" arbitrary: f w)
  case (Cons i "is")
  then show ?case by (auto simp: check_cert_total split: prod.splits option.splits sum.splits)
qed simp

lemma conclude_total: "encoded ps \<Longrightarrow> conclude E chain ps tr f w \<noteq> None"
  by (auto simp: conclude_def Let_def encoded_def trustedPath_total chain_Verify_total split: option.splits sum.splits)

lemma judge_total: "encoded ps \<Longrightarrow> judge E isAdmin chain ps tr w \<noteq> None"
  by (auto simp: judge_def check_chain_total conclude_total split: option.splits sum.splits prod.splits)

section \<open>What an analysis collects\<close>

text \<open>Every certificate the library parses has an encoding.\<close>

definition encodes :: "('c, 'l, 'o, 's) minipki \<Rightarrow> bool" where
  "encodes mp \<longleftrightarrow> (\<forall>d i. ParseCertInfo mp d = Inr i \<longrightarrow> DER i \<noteq> [])"

definition bag_encoded :: "bagCert list \<Rightarrow> bool" where
  "bag_encoded bag \<longleftrightarrow> (\<forall>c \<in> set bag. DER (bc_info c) \<noteq> [])"

lemma chain_loop_encoded:
  assumes mp: "encodes (e_mp E)" and bag: "bag_encoded bag" and chain: "\<forall>e \<in> set chain. DER (ce_info e) \<noteq> []"
    and run: "chain_loop E room current chain seen bag w = (Inr (chain', current', bag'), w')"
  shows "bag_encoded bag' \<and> (\<forall>e \<in> set chain'. DER (ce_info e) \<noteq> [])"
proof -
  have "DER i \<noteq> []" if "supplied E i src" for i src using that mp by (auto simp: supplied_def encodes_def)
  with chain_loop_adds [OF run] bag chain show ?thesis by (fastforce simp: bag_encoded_def all_supplied_def)
qed

lemma partition_encoded:
  assumes "[] \<notin> snd ` set items"
  shows "encoded (partition_certs items)"
  using assms parts_ok_fold [of "[]" "\<lparr>p_roots = [], p_ints = [], p_seen = []\<rparr>" items]
  by (auto simp: parts_ok_def partition_certs_def encoded_def)

lemma analyze_chain_encoded:
  assumes mp: "encodes (e_mp E)" and leaf: "DER leaf \<noteq> []" and bag: "bag_encoded bag"
    and a: "analyze_chain E leaf bag link w = (Inr (chain, ps), w')"
  shows "encoded ps"
proof -
  obtain x w2 where x: "build_chain E leaf (if link then ''link'' else ''upload'') bag
      (if link then w else archive E leaf '''' w) = (x, w2)" by fastforce
  obtain ch current bag' where y: "x = Inr (ch, current, bag')"
    using a x by (cases x) (auto simp: analyze_chain_def Let_def)
  let ?s = "w_store w'"
  have ps: "ps = partition_certs (part_items E ?s ch bag')" and ch: "chain = ch"
    using a unfolding analyze_chain_def Let_def x y by auto
  have enc: "bag_encoded bag' \<and> (\<forall>e \<in> set ch. DER (ce_info e) \<noteq> [])"
    by (rule chain_loop_encoded [OF mp bag _ x [unfolded y build_chain_def]]) (simp add: leaf)
  have ne: "ch \<noteq> []" using analyze_chain_starts [OF a] ch by simp
  have pool: "\<forall>p \<in> set (pool_items E ?s c). snd p \<noteq> []" for c
    by (auto simp: pool_items_def List.map_filter_def split: sum.splits dest: ParseCertInfo_nonempty)
  have "DER (ce_info (hd ch)) \<noteq> []" "\<forall>e \<in> set (tl ch). DER (ce_info e) \<noteq> []"
    using enc ne by (auto dest: list.set_sel)
  then have "\<forall>p \<in> set (part_items E ?s ch bag'). snd p \<noteq> []"
    using enc pool unfolding part_items_def bag_encoded_def set_append ball_Un set_map set_concat
    by (intro conjI) (simp, auto)
  then have "[] \<notin> snd ` set (part_items E ?s ch bag')" by auto
  then show ?thesis by (simp add: ps partition_encoded)
qed

lemma analyzeData_total:
  assumes mp: "encodes (e_mp E)" and bag: "bag_encoded bag"
  shows "\<exists>r w'. analyzeData E isAdmin input bag link w = Some (r, w')"
proof -
  have "encoded ps" if "ParseCertInfo (e_mp E) input = Inr leaf" "analyze_chain E leaf bag link v = (Inr (chain, ps), v')" for leaf chain ps v v'
    using analyze_chain_encoded [OF mp _ _ that(2)] that(1) mp bag by (auto simp: encodes_def)
  then have "analyzeData E isAdmin input bag link w \<noteq> None"
    by (auto simp del: not_None_eq simp: analyzeData_def doAnalyzeCRL_total judge_total
        split: prod.splits sum.splits option.splits if_splits)
  then show ?thesis by auto
qed

text \<open>
  Property C11. An analysis always ends with a response or an error, whatever it was given, downloaded
  and found in the store: it never indexes an empty certificate. Of the library it relies on one
  thing: a certificate that parses has an encoding.
\<close>

lemma analysis_never_panics:
  assumes "\<And>d i. ParseCertInfo (e_mp E) d = Inr i \<Longrightarrow> DER i \<noteq> []"
    and "\<forall>c \<in> set bag. DER (bc_info c) \<noteq> []"
  shows "\<exists>r w'. analyzeData E isAdmin input bag link w = Some (r, w')"
  by (rule analyzeData_total) (use assms in \<open>auto simp: encodes_def bag_encoded_def\<close>)

end
