(* ===== verification/Analysis_Sample.thy ===== *)
theory Analysis_Sample
  imports Total Chain_Sample
begin

text \<open>
  The properties of whole analyses applied to the sample of the theory Chain_Sample: a leaf whose
  distribution point serves a CRL that lists it, and that CRL uploaded on its own.
\<close>

text \<open>The size is compared as an integer, which evaluates in its binary form.\<close>

lemma inlineDERMax_code [code_unfold]: "length xs \<le> inlineDERMax \<longleftrightarrow> int (length xs) \<le> 262144"
  by (simp add: inlineDERMax_def)

lemma sample_not_crl: "d \<in> {1, 2, 3} \<Longrightarrow> openCRL sample_env [d] w = (Inl (rcError ''mp_crl_parse'' MP_ERR_PARSE), w)"
  by (auto simp: openCRL_def acquire_def sample_env_def ParseCRL_def sample_mp_def)

lemma sample_parsed: "d \<in> {1, 2, 3} \<Longrightarrow> ParseCertInfo (e_mp sample_env) [d] = Inr (sample_info [d])"
  by (simp add: ParseCertInfo_def sample_env_def sample_mp_def sample_info_def)

lemma sample_enter:
  assumes "d \<in> {1, 2, 3}"
  shows "analyzeData sample_env adm [d] bag link w = (case analyze_chain sample_env (sample_info [d]) bag link w of
     (Inl e, w3) \<Rightarrow> Some (Inl e, w3)
   | (Inr (chain, ps), w3) \<Rightarrow> judge sample_env adm chain ps (transients link (sample_info [d]) bag) w3)"
proof -
  have "ctx_Err sample_env w = (None, w)" by (simp add: ctx_Err_def sample_env_def)
  moreover have "DER (sample_info [d]) = [d]" by (simp add: sample_info_def sample_DER)
  ultimately show ?thesis
    using assms by (simp add: analyzeData_def CertSize_def sample_not_crl sample_parsed)
qed

text \<open>The leaf 2: shown revoked, and yet through a trusted root.\<close>

lemma sample_leaf_run:
  "map_option (\<lambda>(x, w). map_sum (\<lambda>e. ()) (\<lambda>r. (map c_Revocation (r_Chain r), v_Status (r_Verify r), v_Trusted (r_Verify r))) x)
     (analyzeData sample_env False [2] [] False sample_world)
   = Some (Inr ([Some (no_result\<lparr>rr_status := ''revoked'', rr_revoked := True, rr_via := ''CRL''\<rparr>), None], ''error'', True))"
  unfolding sample_enter [of 2, simplified] by code_simp

lemma sample_leaf:
  obtains resp w' where "analyzeData sample_env False [2] [] False sample_world = Some (Inr resp, w')"
    "map c_Revocation (r_Chain resp) = [Some (no_result\<lparr>rr_status := ''revoked'', rr_revoked := True, rr_via := ''CRL''\<rparr>), None]"
    "v_Status (r_Verify resp) = ''error''" "v_Trusted (r_Verify resp)"
proof -
  from sample_leaf_run obtain x w' where x: "analyzeData sample_env False [2] [] False sample_world = Some (x, w')"
    by auto
  with sample_leaf_run that show ?thesis by (cases x) auto
qed

lemma analysis_keeps_trust_witness:
  "\<exists>x w'. analyzeData sample_env False [2] [] False sample_world = Some (x, w')
     \<and> IsCertTrusted (SHA256Hex sample_hashes [3]) (w_store w') = IsCertTrusted (SHA256Hex sample_hashes [3]) (w_store sample_world)"
proof -
  from sample_leaf obtain resp w' where r: "analyzeData sample_env False [2] [] False sample_world = Some (Inr resp, w')" .
  from r analysis_keeps_trust [OF r, of "SHA256Hex sample_hashes [3]"] show ?thesis by blast
qed

lemma no_status_without_evidence_witness:
  "\<exists>resp ps tr res. justified sample_env (position (chain_of resp) ps tr 0) res \<and> rr_status res = ''revoked''"
proof -
  from sample_leaf obtain resp w' where r: "analyzeData sample_env False [2] [] False sample_world = Some (Inr resp, w')"
    "map c_Revocation (r_Chain resp) = [Some (no_result\<lparr>rr_status := ''revoked'', rr_revoked := True, rr_via := ''CRL''\<rparr>), None]" .
  then have "0 < length (r_Chain resp)"
    "c_Revocation (r_Chain resp ! 0) = Some (no_result\<lparr>rr_status := ''revoked'', rr_revoked := True, rr_via := ''CRL''\<rparr>)"
    by (auto simp: map_eq_Cons_conv)
  from no_status_without_evidence [OF r(1) this] show ?thesis by fastforce
qed

lemma trusted_only_by_the_store_witness:
  "\<exists>anchors (vr :: VerifyResult). anchors \<noteq> [] \<and> ChainStatus vr = ''ok''
     \<and> (\<forall>d \<in> set anchors. IsCertTrusted (SHA256Hex (e_hash sample_env) d) (w_store sample_world))"
proof -
  from sample_leaf obtain resp w' where r: "analyzeData sample_env False [2] [] False sample_world = Some (Inr resp, w')"
    "v_Trusted (r_Verify resp)" .
  from trusted_only_by_the_store [OF r] show ?thesis by - (elim exE conjE, intro exI conjI, assumption+)
qed

definition sample_chain2 :: "chainEntry list" where
  "sample_chain2 = [\<lparr>ce_info = sample_info [2], ce_source = ''upload''\<rparr>, \<lparr>ce_info = sample_info [1], ce_source = ''cache''\<rparr>]"

definition sample_parts :: parts where
  "sample_parts = \<lparr>p_roots = [[1]], p_ints = [], p_seen = [[1]]\<rparr>"

lemma sample_judge_run:
  "map_option (\<lambda>(x, w). map_sum (\<lambda>e. ()) (\<lambda>r. map c_Revocation (r_Chain r)) x)
     (judge sample_env False sample_chain2 sample_parts [] sample_world)
   = Some (Inr [Some (no_result\<lparr>rr_status := ''revoked'', rr_revoked := True, rr_via := ''CRL''\<rparr>), None])"
  by code_simp

lemma ok_exactly_when_witness:
  "\<exists>resp w. judge sample_env False sample_chain2 sample_parts [] sample_world = Some (Inr resp, w)
     \<and> v_Status (r_Verify resp) \<noteq> ''ok''"
proof -
  from sample_judge_run obtain x w where x: "judge sample_env False sample_chain2 sample_parts [] sample_world = Some (x, w)"
    by auto
  with sample_judge_run obtain resp where r: "x = Inr resp"
    "map c_Revocation (r_Chain resp) = [Some (no_result\<lparr>rr_status := ''revoked'', rr_revoked := True, rr_via := ''CRL''\<rparr>), None]"
    by (cases x) auto
  then have "c_Revocation (r_Chain resp ! 0) = Some (no_result\<lparr>rr_status := ''revoked'', rr_revoked := True, rr_via := ''CRL''\<rparr>)"
    by (auto simp: map_eq_Cons_conv)
  moreover have "0 < length sample_chain2 \<and> needs_check (ce_info (sample_chain2 ! 0))" by code_simp
  ultimately have "v_Status (r_Verify resp) \<noteq> ''ok''"
    using ok_exactly_when [OF x [unfolded r]] by fastforce
  with x r show ?thesis by blast
qed

text \<open>The CRL 8 uploaded: its issuer is the trusted root 1, so it is kept.\<close>

lemma sample_upload_run:
  "map_option (\<lambda>(x, w). map k_der (crls (w_store w))) (analyzeData sample_env False [8] [] False sample_world) = Some [[8]]"
  by code_simp

lemma only_vouched_crls_enter_witness:
  "\<exists>crl ca. crl_DER crl = [8] \<and> CanSignCRL ca \<and> crl_Verify sample_mp crl (DER ca) = Verified
     \<and> reaches_trust sample_env (DER ca) (w_store sample_world)"
proof -
  from sample_upload_run obtain x w' where x: "analyzeData sample_env False [8] [] False sample_world = Some (x, w')"
    and k: "map k_der (crls (w_store w')) = [[8]]" by auto
  from k obtain row where row: "row \<in> set (crls (w_store w'))" "k_der row = [8]" by (auto simp: map_eq_Cons_conv)
  have "crls (w_store sample_world) = []" by code_simp
  moreover have "e_mp sample_env = sample_mp" by (simp add: sample_env_def)
  ultimately show ?thesis using only_vouched_crls_enter [OF x row(1)] row(2) by fastforce
qed

lemma sample_encodes: "encodes sample_mp"
  by (auto simp: encodes_def ParseCertInfo_def sample_mp_def sample_DER split: if_splits)

lemma link_certificates_not_stored_witness:
  "\<exists>x w'. analyzeData sample_env False [2] sample_bag True sample_world = Some (x, w') \<and> [2] \<notin> ders (w_store w')"
proof -
  have b: "bag_encoded sample_bag" by (simp add: bag_encoded_def sample_bag_def sample_info_def sample_DER)
  have "encodes (e_mp sample_env)" by (simp add: sample_env_def sample_encodes)
  from analyzeData_total [OF this b] obtain x w' where
    x: "analyzeData sample_env False [2] sample_bag True sample_world = Some (x, w')" by fast
  have "[2] \<notin> ders (w_store sample_world)" by code_simp
  moreover have "DER (sample_info [2]) = [2]" by (simp add: sample_info_def sample_DER)
  ultimately have "[2] \<notin> ders (w_store w')"
    using link_certificates_not_stored [OF x _ sample_parsed, of "[2]"] by (auto simp: sample_not_crl sample_bag_def)
  with x show ?thesis by blast
qed

lemma analysis_never_panics_witness:
  "\<exists>r w'. analyzeData sample_env True [3] sample_bag False sample_world = Some (r, w')"
  by (rule analysis_never_panics)
     (use sample_encodes in \<open>auto simp: sample_env_def encodes_def sample_bag_def sample_info_def sample_DER\<close>)

end
