(* ===== verification/Link.thy ===== *)
theory Link
  imports Analyze
begin

text \<open>
  Certificates that come in a link (cmd/certview/link.go): \<open>encoding/base64\<close>'s raw URL decoder as the
  source uses it, \<open>parseLink\<close>, the cache key of a link and \<open>doAnalyzeLink\<close>. Admission and the response
  cache are in the theories Gate and RespCache; the request's JSON is an argument.
\<close>

section \<open>base64url\<close>

text \<open>The value of a character of the URL alphabet.\<close>

definition b64_value :: "char \<Rightarrow> nat option" where
  "b64_value c =
     (let n = of_char c :: nat in
      if 65 \<le> n \<and> n \<le> 90 then Some (n - 65)
      else if 97 \<le> n \<and> n \<le> 122 then Some (n - 71)
      else if 48 \<le> n \<and> n \<le> 57 then Some (n + 4)
      else if n = 45 then Some 62
      else if n = 95 then Some 63
      else None)"

text \<open>
  \<open>RawURLEncoding.DecodeString\<close> after line breaks are skipped: quanta of four characters, the last of
  two or three; the unused bits of the last one are not looked at.
\<close>

fun b64_quanta :: "nat list \<Rightarrow> bytes option" where
  "b64_quanta [] = Some []"
| "b64_quanta [a] = None"
| "b64_quanta [a, b] = Some [of_nat (a * 4 + b div 16)]"
| "b64_quanta [a, b, c] = Some [of_nat (a * 4 + b div 16), of_nat ((b mod 16) * 16 + c div 4)]"
| "b64_quanta (a # b # c # d # rest) =
     map_option (\<lambda>bs. of_nat (a * 4 + b div 16) # of_nat ((b mod 16) * 16 + c div 4) # of_nat ((c mod 4) * 64 + d) # bs)
       (b64_quanta rest)"

definition line_break :: "char \<Rightarrow> bool" where
  "line_break c \<longleftrightarrow> c = CHR 0x0A \<or> c = CHR 0x0D"

definition b64_decode :: "string \<Rightarrow> bytes option" where
  "b64_decode s =
     (let vs = map b64_value (filter (\<lambda>c. \<not> line_break c) s) in
      if None \<in> set vs then None else b64_quanta (map the vs))"

text \<open>\<open>strings.TrimRight(v, "=")\<close>.\<close>

definition trim_padding :: "string \<Rightarrow> string" where
  "trim_padding s = rev (dropWhile (\<lambda>c. c = CHR ''='') (rev s))"

section \<open>parseLink\<close>

fun parse_values :: "('c, 'l, 'o, 's) minipki \<Rightarrow> nat \<Rightarrow> string list \<Rightarrow> goerr + CertInfo list" where
  "parse_values mp i [] = Inr []"
| "parse_values mp i (v # vs) =
     (case b64_decode (trim_padding v) of
        Some (b # bs) \<Rightarrow>
          if b \<noteq> 0x30 then Inl (text_error (''certificate '' @ digits_of (i + 1) @ '' is not base64url DER''))
          else if length (b # bs) > CertSize
          then Inl (text_error (''certificate '' @ digits_of (i + 1) @ '' too large: '' @ digits_of (length (b # bs))
                 @ '' bytes, limit '' @ digits_of CertSize))
          else (case ParseCertInfo mp (b # bs) of
                  Inl e \<Rightarrow> Inl (text_error (''certificate '' @ digits_of (i + 1) @ '' is not a certificate''))
                | Inr info \<Rightarrow> map_sum id ((#) info) (parse_values mp (i + 1) vs))
      | _ \<Rightarrow> Inl (text_error (''certificate '' @ digits_of (i + 1) @ '' is not base64url DER'')))"

definition parseLink :: "('c, 'l, 'o, 's) minipki \<Rightarrow> string list \<Rightarrow> goerr + CertInfo list" where
  "parseLink mp values =
     (if values = [] then Inl (text_error ''no certificate'')
      else if length values > maxChainDepth
      then Inl (text_error (digits_of (length values) @ '' certificates, limit '' @ digits_of maxChainDepth))
      else parse_values mp 0 values)"

text \<open>The key the response of a link is cached under.\<close>

definition link_key :: "hashes \<Rightarrow> CertInfo list \<Rightarrow> string" where
  "link_key H cs = ''link'' @ concat (map (\<lambda>c. '' '' @ SHA256Hex H (DER c)) cs)"

definition link_bag :: "CertInfo list \<Rightarrow> bagCert list" where
  "link_bag cs = map (\<lambda>c. \<lparr>bc_info = c, bc_source = ''link''\<rparr>) (tl cs)"

text \<open>\<open>doAnalyzeLink\<close> inside the admission of \<open>guardAnalysis\<close>, on the certificates \<open>parseLink\<close> gave.\<close>

definition doAnalyzeLink :: "('c, 'l, 'o, 's, 'n) env \<Rightarrow> bool \<Rightarrow> CertInfo list \<Rightarrow> 'n world
    \<Rightarrow> ((goerr + response) \<times> 'n world) option" where
  "doAnalyzeLink E isAdmin cs w = analyzeData E isAdmin (DER (hd cs)) (link_bag cs) True w"

end
