(* ===== verification/Link_Laws.thy ===== *)
theory Link_Laws
  imports Link
begin

text \<open>
  The round trip of base64url and what \<open>parseLink\<close> accepts.
\<close>

section \<open>The round trip\<close>

text \<open>The encoder of the link's other end: \<open>RawURLEncoding.EncodeToString\<close>.\<close>

definition b64_char :: "nat \<Rightarrow> char" where
  "b64_char n = (if n < 26 then char_of (n + 65) else if n < 52 then char_of (n + 71)
     else if n < 62 then char_of (n - 4) else if n = 62 then CHR ''-'' else CHR ''_'')"

fun b64_sextets :: "bytes \<Rightarrow> nat list" where
  "b64_sextets [] = []"
| "b64_sextets [a] = [unat a div 4, (unat a mod 4) * 16]"
| "b64_sextets [a, b] = [unat a div 4, (unat a mod 4) * 16 + unat b div 16, (unat b mod 16) * 4]"
| "b64_sextets (a # b # c # rest) =
     [unat a div 4, (unat a mod 4) * 16 + unat b div 16, (unat b mod 16) * 4 + unat c div 64, unat c mod 64] @ b64_sextets rest"

definition b64_encode :: "bytes \<Rightarrow> string" where
  "b64_encode bs = map b64_char (b64_sextets bs)"

lemma byte_lt: "unat (a :: byte) < 256"
  by (rule unsigned_less [where ?'b = 8, simplified])

lemma sextets_lt: "v \<in> set (b64_sextets bs) \<Longrightarrow> v < 64"
proof (induction bs rule: b64_sextets.induct)
  case (2 a)
  with byte_lt [of a] show ?case by auto
next
  case (3 a b)
  with byte_lt [of a] byte_lt [of b] show ?case by auto
next
  case (4 a b c rest)
  have "unat a div 4 < 64" "(unat a mod 4) * 16 + unat b div 16 < 64" "(unat b mod 16) * 4 + unat c div 64 < 64"
    using byte_lt [of a] byte_lt [of b] byte_lt [of c] by linarith+
  with 4 show ?case by auto
qed simp

lemma of_char_b64_char: "n < 64 \<Longrightarrow> (of_char (b64_char n) :: nat)
    = (if n < 26 then n + 65 else if n < 52 then n + 71 else if n < 62 then n - 4 else if n = 62 then 45 else 95)"
  by (simp add: b64_char_def)

lemma b64_value_char: "n < 64 \<Longrightarrow> b64_value (b64_char n) = Some n"
  by (auto simp: b64_value_def of_char_b64_char Let_def)

lemma b64_char_plain:
  assumes "n < 64"
  shows "\<not> line_break (b64_char n)" and "b64_char n \<noteq> CHR ''=''"
proof -
  have "(of_char (b64_char n) :: nat) \<notin> {10, 13, 61}" using assms by (auto simp: of_char_b64_char)
  then show "\<not> line_break (b64_char n)" and "b64_char n \<noteq> CHR ''=''"
    by (auto simp: line_break_def)
qed

lemma quantum_nats:
  fixes x y z :: nat
  assumes "x < 256" "y < 256" "z < 256"
  shows "(x div 4) * 4 + ((x mod 4) * 16) div 16 = x"
    and "(x div 4) * 4 + ((x mod 4) * 16 + y div 16) div 16 = x"
    and "(((x mod 4) * 16 + y div 16) mod 16) * 16 + ((y mod 16) * 4) div 4 = y"
    and "(((x mod 4) * 16 + y div 16) mod 16) * 16 + ((y mod 16) * 4 + z div 64) div 4 = y"
    and "(((y mod 16) * 4 + z div 64) mod 4) * 64 + z mod 64 = z"
proof -
  have small: "y div 16 < 16" "z div 64 < 4" using assms by simp_all
  have low: "(x mod 4 * 16 + y div 16) div 16 = x mod 4" "(x mod 4 * 16 + y div 16) mod 16 = y div 16"
    "(y mod 16 * 4 + z div 64) div 4 = y mod 16" "(y mod 16 * 4 + z div 64) mod 4 = z div 64"
    using small by simp_all
  show "(x div 4) * 4 + ((x mod 4) * 16) div 16 = x" by simp
  show "(x div 4) * 4 + ((x mod 4) * 16 + y div 16) div 16 = x" by (simp only: low) simp
  show "(((x mod 4) * 16 + y div 16) mod 16) * 16 + ((y mod 16) * 4) div 4 = y" by (simp only: low) simp
  show "(((x mod 4) * 16 + y div 16) mod 16) * 16 + ((y mod 16) * 4 + z div 64) div 4 = y" by (simp only: low) simp
  show "(((y mod 16) * 4 + z div 64) mod 4) * 64 + z mod 64 = z" by (simp only: low) simp
qed

lemmas quantum_bytes = quantum_nats [OF byte_lt byte_lt byte_lt]

lemma byte_back: "of_nat (unat (a :: byte)) = a"
  by simp

lemma quanta_sextets: "b64_quanta (b64_sextets bs) = Some bs"
  by (induction bs rule: b64_sextets.induct)
    (simp_all only: b64_sextets.simps b64_quanta.simps append.simps quantum_bytes byte_back option.map list.inject)

lemma encoded_chars: "c \<in> set (b64_encode bs) \<Longrightarrow> \<exists>n < 64. c = b64_char n"
  using sextets_lt by (auto simp: b64_encode_def)

lemma decode_encode: "b64_decode (b64_encode bs) = Some bs"
proof -
  have keep: "filter (\<lambda>c. \<not> line_break c) (b64_encode bs) = b64_encode bs"
    by (rule filter_True) (use encoded_chars b64_char_plain in blast)
  have read: "map b64_value (b64_encode bs) = map Some (b64_sextets bs)"
    using sextets_lt by (auto simp: b64_encode_def b64_value_char)
  show ?thesis
    by (simp add: b64_decode_def keep read quanta_sextets o_def)
qed

lemma trim_encoded: "trim_padding (b64_encode bs @ replicate n CHR ''='') = b64_encode bs"
proof -
  have "dropWhile (\<lambda>c. c = CHR ''='') (rev (b64_encode bs)) = rev (b64_encode bs)"
    using encoded_chars [of "last (b64_encode bs)" bs] b64_char_plain(2)
    by (cases "b64_encode bs" rule: rev_cases) auto
  moreover have "dropWhile (\<lambda>c. c = CHR ''='') (replicate n CHR ''='' @ cs) = dropWhile (\<lambda>c. c = CHR ''='') cs" for cs
    by (induction n) auto
  ultimately show ?thesis by (simp add: trim_padding_def)
qed

section \<open>What the decoder accepts\<close>

text \<open>A list of digits as a number, the first digit the most significant.\<close>

fun number :: "nat \<Rightarrow> nat list \<Rightarrow> nat" where
  "number B [] = 0"
| "number B (d # ds) = d * B ^ length ds + number B ds"

lemma number_less: "\<forall>d \<in> set ds. d < B \<Longrightarrow> number B ds < B ^ length ds"
proof (induction ds)
  case (Cons d ds)
  then have lt: "number B ds < B ^ length ds" and d: "d + 1 \<le> B" by auto
  have "d * B ^ length ds + number B ds < (d + 1) * B ^ length ds" using lt by simp
  also have "\<dots> \<le> B * B ^ length ds" using d by (rule mult_le_mono1)
  finally show ?case by (simp only: number.simps list.size(4) add_Suc_right add_0_right power_Suc)
qed simp

lemma number_inj:
  "\<lbrakk>\<forall>d \<in> set ds. d < B; \<forall>d \<in> set es. d < B; length ds = length es; number B ds = number B es\<rbrakk> \<Longrightarrow> ds = es"
proof (induction ds arbitrary: es)
  case (Cons d ds)
  obtain e es' where es: "es = e # es'" "length ds = length es'"
    using Cons.prems(3) by (metis length_Suc_conv list.size(4) add_Suc_right add_0_right Suc_inject)
  have lt: "number B ds < B ^ length ds" "number B es' < B ^ length ds"
    using number_less [of ds B] number_less [of es' B] Cons.prems(1,2) es by auto
  have eq: "d * B ^ length ds + number B ds = e * B ^ length ds + number B es'" using Cons.prems(4) es by simp
  have top: "(x * p + y) div p = x" if "y < p" for x y p :: nat
    using that by (subst div_mult_self3) simp_all
  have "d = e" using top [OF lt(1), of d] top [OF lt(2), of e] eq by simp
  with eq Cons.IH [of es'] Cons.prems es show ?case by simp
qed simp

abbreviation bytes_number :: "bytes \<Rightarrow> nat" where
  "bytes_number bs \<equiv> number 256 (map unat bs)"

lemma bytes_number_inj: "length bs = length cs \<Longrightarrow> bytes_number bs = bytes_number cs \<Longrightarrow> bs = cs"
proof -
  assume "length bs = length cs" "bytes_number bs = bytes_number cs"
  then have "map unat bs = map unat cs" using byte_lt by (intro number_inj [of _ 256]) auto
  then show "bs = cs" by (rule list.inj_map_strong [rotated]) (simp add: word_unat_eq_iff)
qed

text \<open>Quanta of sextets: the bytes are the leading bits of the number the sextets make, whole bytes of them.\<close>

lemma byte_of_nat: "n < 256 \<Longrightarrow> unat (of_nat n :: byte) = n"
  by (simp add: unat_of_nat take_bit_nat_eq_self)

lemma quantum_number:
  fixes a b c d :: nat
  assumes "a < 64" "b < 64" "c < 64" "d < 64"
  shows "unat (of_nat (a * 4 + b div 16) :: byte) = a * 4 + b div 16"
    and "unat (of_nat ((b mod 16) * 16 + c div 4) :: byte) = (b mod 16) * 16 + c div 4"
    and "unat (of_nat ((c mod 4) * 64 + d) :: byte) = (c mod 4) * 64 + d"
    and "(a * 64 + b) div 16 = a * 4 + b div 16"
    and "((a * 64 + b) * 64 + c) div 4 = (a * 4 + b div 16) * 256 + ((b mod 16) * 16 + c div 4)"
    and "((a * 64 + b) * 64 + c) * 64 + d
      = ((a * 4 + b div 16) * 256 + ((b mod 16) * 16 + c div 4)) * 256 + ((c mod 4) * 64 + d)"
proof -
  have "b div 16 < 4" "b mod 16 < 16" "c div 4 < 16" "c mod 4 < 4" using assms by simp_all
  then have "a * 4 + b div 16 < 256" "(b mod 16) * 16 + c div 4 < 256" "(c mod 4) * 64 + d < 256"
    using assms by linarith+
  then show "unat (of_nat (a * 4 + b div 16) :: byte) = a * 4 + b div 16"
    "unat (of_nat ((b mod 16) * 16 + c div 4) :: byte) = (b mod 16) * 16 + c div 4"
    "unat (of_nat ((c mod 4) * 64 + d) :: byte) = (c mod 4) * 64 + d"
    by (simp_all only: byte_of_nat)
  obtain q r where b: "b = q * 16 + r" "b div 16 = q" "b mod 16 = r" by (metis div_mult_mod_eq)
  obtain s t where c: "c = s * 4 + t" "c div 4 = s" "c mod 4 = t" by (metis div_mult_mod_eq)
  have rt: "r < 16" "t < 4" using b(3) c(3) by auto
  show "(a * 64 + b) div 16 = a * 4 + b div 16" unfolding b(2) using b(1) rt by linarith
  show "((a * 64 + b) * 64 + c) div 4 = (a * 4 + b div 16) * 256 + ((b mod 16) * 16 + c div 4)"
  proof -
    have "((a * 64 + b) * 64 + c) = ((a * 64 + b) * 16 + s) * 4 + t" using c(1) by simp
    then have "((a * 64 + b) * 64 + c) div 4 = (a * 64 + b) * 16 + s" using rt(2) by simp
    then show ?thesis unfolding b(2,3) c(2) by (simp add: b(1))
  qed
  show "((a * 64 + b) * 64 + c) * 64 + d
      = ((a * 4 + b div 16) * 256 + ((b mod 16) * 16 + c div 4)) * 256 + ((c mod 4) * 64 + d)"
    unfolding b(2,3) c(2,3) by (simp add: b(1) c(1))
qed

lemma quanta_number:
  assumes "\<forall>v \<in> set vs. v < 64"
  shows "b64_quanta vs = Some bs \<Longrightarrow> length vs mod 4 \<noteq> 1 \<and> length bs = length vs * 6 div 8
     \<and> bytes_number bs = number 64 vs div 2 ^ (length vs * 6 mod 8)"
  using assms
proof (induction vs arbitrary: bs rule: b64_quanta.induct)
  case (3 a b)
  with quantum_number [of a b 0 0] show ?case by auto
next
  case (4 a b c)
  with quantum_number [of a b c 0] show ?case by (auto simp: algebra_simps)
next
  case (5 a b c d rest)
  then obtain bs' where bs: "b64_quanta rest = Some bs'"
    "bs = of_nat (a * 4 + b div 16) # of_nat ((b mod 16) * 16 + c div 4) # of_nat ((c mod 4) * 64 + d) # bs'" by auto
  define n where "n = length rest"
  let ?r = "n * 6 mod 8" let ?k = "n * 6 div 8" let ?x = "((a * 64 + b) * 64 + c) * 64 + d"
  have IH: "n mod 4 \<noteq> 1" "length bs' = ?k" "bytes_number bs' = number 64 rest div 2 ^ ?r"
    using "5.IH" [OF bs(1)] "5.prems"(2) by (simp_all add: n_def)
  have len: "length (a # b # c # d # rest) * 6 mod 8 = ?r" "length (a # b # c # d # rest) * 6 div 8 = 3 + ?k"
    "length (a # b # c # d # rest) mod 4 = n mod 4"
    unfolding n_def length_Cons by presburger+
  have "(64 :: nat) ^ n = 2 ^ (n * 6)" by (simp add: power_mult mult.commute [of n 6])
  also have "\<dots> = 2 ^ (?r + 8 * ?k)" by (simp only: mod_mult_div_eq)
  also have "\<dots> = 2 ^ ?r * 256 ^ ?k" by (simp add: power_add power_mult)
  finally have pow: "(64 :: nat) ^ n = 2 ^ ?r * 256 ^ ?k" .
  have "number 64 (a # b # c # d # rest) = ?x * 64 ^ n + number 64 rest" by (simp add: n_def algebra_simps)
  also have "\<dots> div 2 ^ ?r = ?x * 256 ^ ?k + number 64 rest div 2 ^ ?r"
  proof -
    have "?x * (2 ^ ?r * 256 ^ ?k) + number 64 rest = number 64 rest + ?x * 256 ^ ?k * 2 ^ ?r" by (simp only: ac_simps)
    then show ?thesis unfolding pow by (simp only: div_mult_self1 power_not_zero zero_neq_numeral not_False_eq_True)
  qed
  also have "\<dots> = bytes_number bs"
  proof -
    have lt: "a < 64" "b < 64" "c < 64" "d < 64" using "5.prems"(2) by auto
    note q = quantum_number [OF lt]
    have "bytes_number bs = (a * 4 + b div 16) * 256 ^ (2 + ?k) + ((b mod 16) * 16 + c div 4) * 256 ^ (1 + ?k)
        + ((c mod 4) * 64 + d) * 256 ^ ?k + number 64 rest div 2 ^ ?r"
      unfolding bs(2) list.map number.simps length_map list.size q(1-3) IH(2,3) by simp
    also have "\<dots> = ?x * 256 ^ ?k + number 64 rest div 2 ^ ?r"
      unfolding q(6) power_add by (simp only: distrib_right mult.assoc power2_eq_square power_one_right)
    finally show ?thesis by simp
  qed
  finally have num: "number 64 (a # b # c # d # rest) div 2 ^ ?r = bytes_number bs" .
  have "length bs = 3 + ?k" using IH(2) by (simp add: bs(2))
  with num IH(1) show ?case unfolding len by (simp del: number.simps)
qed simp_all

lemma quanta_total: "length vs mod 4 \<noteq> 1 \<Longrightarrow> \<exists>bs. b64_quanta vs = Some bs"
proof (induction vs rule: b64_quanta.induct)
  case (5 a b c d rest)
  have "length (a # b # c # d # rest) mod 4 = length rest mod 4"
    unfolding length_Cons by presburger
  with 5 show ?case by auto
qed auto

lemma quanta_iff:
  assumes "\<forall>v \<in> set vs. v < 64"
  shows "b64_quanta vs = Some bs \<longleftrightarrow> length vs mod 4 \<noteq> 1 \<and> length bs = length vs * 6 div 8
     \<and> bytes_number bs = number 64 vs div 2 ^ (length vs * 6 mod 8)"
proof
  assume a: "length vs mod 4 \<noteq> 1 \<and> length bs = length vs * 6 div 8 \<and> bytes_number bs = number 64 vs div 2 ^ (length vs * 6 mod 8)"
  then obtain cs where cs: "b64_quanta vs = Some cs" using quanta_total by blast
  from quanta_number [OF assms this] a have "cs = bs" by (intro bytes_number_inj) simp_all
  with cs show "b64_quanta vs = Some bs" by simp
qed (rule quanta_number [OF assms])

text \<open>The URL alphabet, each character at its value.\<close>

definition url_alphabet :: string where
  "url_alphabet = ''ABCDEFGHIJKLMNOPQRSTUVWXYZabcdefghijklmnopqrstuvwxyz0123456789-_''"

lemma alphabet_values: "map b64_value url_alphabet = map Some [0..<64]" "length url_alphabet = 64"
  by code_simp+

lemma b64_value_lt: "b64_value c = Some v \<Longrightarrow> v < 64"
  by (auto simp: b64_value_def Let_def split: if_splits)

lemma b64_value_back: "b64_value c = Some v \<Longrightarrow> (of_char (b64_char v) :: nat) = of_char c"
proof -
  assume v: "b64_value c = Some v"
  define n :: nat where "n = of_char c"
  have "(if v < 26 then v + 65 else if v < 52 then v + 71 else if v < 62 then v - 4 else if v = 62 then 45 else 95) = n"
    using v unfolding b64_value_def n_def [symmetric] Let_def by (auto split: if_splits)
  with b64_value_lt [OF v] show ?thesis by (simp add: of_char_b64_char n_def)
qed

lemma b64_value_inj: "b64_value c = Some v \<Longrightarrow> b64_value d = Some v \<Longrightarrow> c = d"
  using b64_value_back [of c v] b64_value_back [of d v] by simp

lemma b64_value_alphabet: "b64_value c = Some v \<longleftrightarrow> v < 64 \<and> url_alphabet ! v = c"
proof -
  have at: "b64_value (url_alphabet ! v) = Some v" if "v < 64" for v
  proof -
    have "map b64_value url_alphabet ! v = Some v" using that by (simp only: alphabet_values(1)) simp
    then show ?thesis using that alphabet_values(2) by simp
  qed
  show ?thesis using at b64_value_inj b64_value_lt by metis
qed

text \<open>
  What a text of the link stands for: without the signs \<open>=\<close> at its end and then without line breaks it is written in the
  alphabet, its last quantum does not have one character only, and the bytes are the leading bits of its digits; the two
  or four bits left over are not looked at.
\<close>

definition reads_as :: "string \<Rightarrow> bytes \<Rightarrow> bool" where
  "reads_as v der \<longleftrightarrow>
     (\<exists>u n vs. v = u @ replicate n CHR ''='' \<and> (u = [] \<or> last u \<noteq> CHR ''='')
        \<and> filter (\<lambda>c. c \<noteq> CHR 0x0A \<and> c \<noteq> CHR 0x0D) u = map (\<lambda>d. url_alphabet ! d) vs \<and> (\<forall>d \<in> set vs. d < 64)
        \<and> length vs mod 4 \<noteq> 1 \<and> length der = length vs * 6 div 8
        \<and> bytes_number der = number 64 vs div 2 ^ (length vs * 6 mod 8))"

lemma trim_padding_iff: "trim_padding v = u \<longleftrightarrow> (\<exists>n. v = u @ replicate n CHR ''='') \<and> (u = [] \<or> last u \<noteq> CHR ''='')"
proof
  assume u: "trim_padding v = u"
  have "takeWhile (\<lambda>c. c = CHR ''='') (rev v) = replicate (length (takeWhile (\<lambda>c. c = CHR ''='') (rev v))) CHR ''=''"
    by (rule replicate_eqI) (auto dest: set_takeWhileD)
  then obtain n where n: "takeWhile (\<lambda>c. c = CHR ''='') (rev v) = replicate n CHR ''=''" by blast
  have "rev v = replicate n CHR ''='' @ rev u"
    using takeWhile_dropWhile_id [of "\<lambda>c. c = CHR ''=''" "rev v"] u n by (auto simp: trim_padding_def)
  then have "v = u @ replicate n CHR ''=''" by (metis rev_append rev_replicate rev_rev_ident)
  moreover have "u = [] \<or> last u \<noteq> CHR ''=''"
  proof (cases "dropWhile (\<lambda>c. c = CHR ''='') (rev v) = []")
    case False
    from hd_dropWhile [OF this] False have "last (rev (dropWhile (\<lambda>c. c = CHR ''='') (rev v))) \<noteq> CHR ''=''"
      by (simp only: last_rev) simp
    then show ?thesis using u by (simp only: trim_padding_def) simp
  next
    case True
    with u show ?thesis by (simp only: trim_padding_def rev.simps) simp
  qed
  ultimately show "(\<exists>n. v = u @ replicate n CHR ''='') \<and> (u = [] \<or> last u \<noteq> CHR ''='')" by blast
next
  assume "(\<exists>n. v = u @ replicate n CHR ''='') \<and> (u = [] \<or> last u \<noteq> CHR ''='')"
  then obtain n where v: "v = u @ replicate n CHR ''=''" and u: "u = [] \<or> last u \<noteq> CHR ''=''" by blast
  have "dropWhile (\<lambda>c. c = CHR ''='') (replicate n CHR ''='' @ rev u) = rev u"
    using u by (induction n) (cases u rule: rev_cases; auto)+
  then show "trim_padding v = u" by (simp add: trim_padding_def v)
qed

lemma decode_iff:
  "b64_decode u = Some der \<longleftrightarrow>
     (\<exists>vs. filter (\<lambda>c. \<not> line_break c) u = map (\<lambda>d. url_alphabet ! d) vs \<and> (\<forall>d \<in> set vs. d < 64) \<and> b64_quanta vs = Some der)"
proof -
  let ?t = "filter (\<lambda>c. \<not> line_break c) u"
  have read: "map b64_value t = map Some vs \<longleftrightarrow> t = map (\<lambda>d. url_alphabet ! d) vs \<and> (\<forall>d \<in> set vs. d < 64)" for t vs
  proof (induction t arbitrary: vs)
    case (Cons c t)
    then show ?case by (cases vs) (auto simp: b64_value_alphabet)
  qed auto
  have some: "None \<notin> set (map b64_value t) \<longleftrightarrow> (\<exists>vs. map b64_value t = map Some vs)" for t
    by (induction t) (auto simp: Cons_eq_map_conv)
  have "b64_decode u = Some der \<longleftrightarrow> (\<exists>vs. map b64_value ?t = map Some vs \<and> b64_quanta vs = Some der)"
  proof (cases "None \<in> set (map b64_value ?t)")
    case True
    with some [of ?t] show ?thesis by (simp add: b64_decode_def Let_def)
  next
    case False
    then obtain vs where vs: "map b64_value ?t = map Some vs" using some by blast
    then show ?thesis by (auto simp: b64_decode_def Let_def o_def inj_map_eq_map)
  qed
  then show ?thesis by (simp only: read conj_assoc)
qed

lemma reads_as_iff: "b64_decode (trim_padding v) = Some der \<longleftrightarrow> reads_as v der"
proof -
  have "reads_as v der \<longleftrightarrow> (\<exists>u. trim_padding v = u \<and> (\<exists>vs. filter (\<lambda>c. \<not> line_break c) u = map (\<lambda>d. url_alphabet ! d) vs
      \<and> (\<forall>d \<in> set vs. d < 64) \<and> b64_quanta vs = Some der))"
  proof
    assume "reads_as v der"
    then show "\<exists>u. trim_padding v = u \<and> (\<exists>vs. filter (\<lambda>c. \<not> line_break c) u = map (\<lambda>d. url_alphabet ! d) vs
      \<and> (\<forall>d \<in> set vs. d < 64) \<and> b64_quanta vs = Some der)"
      unfolding trim_padding_iff reads_as_def line_break_def de_Morgan_disj by (fastforce simp: quanta_iff)
  next
    assume "\<exists>u. trim_padding v = u \<and> (\<exists>vs. filter (\<lambda>c. \<not> line_break c) u = map (\<lambda>d. url_alphabet ! d) vs
      \<and> (\<forall>d \<in> set vs. d < 64) \<and> b64_quanta vs = Some der)"
    then obtain u vs n where u: "v = u @ replicate n CHR ''=''" "u = [] \<or> last u \<noteq> CHR ''=''"
      and vs: "filter (\<lambda>c. \<not> line_break c) u = map (\<lambda>d. url_alphabet ! d) vs" "\<forall>d \<in> set vs. d < 64" "b64_quanta vs = Some der"
      unfolding trim_padding_iff by blast
    from vs(3) u vs(1,2) show "reads_as v der"
      unfolding quanta_iff [OF vs(2)] reads_as_def line_break_def de_Morgan_disj by blast
  qed
  then show ?thesis by (simp add: decode_iff)
qed

section \<open>What parseLink accepts\<close>

text \<open>The values of a link made from certificates: base64url, with any padding.\<close>

definition link_values :: "(bytes \<times> nat) list \<Rightarrow> string list" where
  "link_values links = map (\<lambda>(der, n). b64_encode der @ replicate n CHR ''='') links"

definition link_accepts :: "('c, 'l, 'o, 's) minipki \<Rightarrow> bytes \<times> nat \<Rightarrow> CertInfo \<Rightarrow> bool" where
  "link_accepts mp = (\<lambda>(der, n) c. der \<noteq> [] \<and> hd der = 0x30 \<and> length der \<le> CertSize \<and> ParseCertInfo mp der = Inr c)"

lemma parse_values_encoded:
  "parse_values mp i (link_values links) = Inr cs \<longleftrightarrow> list_all2 (link_accepts mp) links cs"
proof (induction links arbitrary: i cs)
  case Nil
  then show ?case by (auto simp: link_values_def)
next
  case (Cons l links)
  obtain der n where l: "l = (der, n)" by force
  have this_one: "b64_decode (trim_padding (b64_encode der @ replicate n CHR ''='')) = Some der"
    by (simp add: trim_encoded decode_encode)
  have one: "parse_values mp i (link_values (l # links)) = Inr cs \<longleftrightarrow>
      (\<exists>c cs'. link_accepts mp l c \<and> parse_values mp (i + 1) (link_values links) = Inr cs' \<and> cs = c # cs')"
    unfolding l link_values_def list.map prod.case parse_values.simps this_one link_accepts_def
    by (auto simp del: b64_decode_def split: list.split sum.split if_split simp: map_sum_def)
  show ?case by (simp add: one Cons list_all2_Cons1) blast
qed

lemma parse_values_reads:
  "parse_values mp i vals = Inr cs \<longleftrightarrow>
     list_all2 (\<lambda>v c. \<exists>der. reads_as v der \<and> der \<noteq> [] \<and> hd der = 0x30 \<and> length der \<le> CertSize \<and> ParseCertInfo mp der = Inr c)
       vals cs"
proof (induction vals arbitrary: i cs)
  case (Cons v vs)
  have one: "parse_values mp i (v # vs) = Inr cs \<longleftrightarrow>
      (\<exists>der c cs'. reads_as v der \<and> der \<noteq> [] \<and> hd der = 0x30 \<and> length der \<le> CertSize \<and> ParseCertInfo mp der = Inr c
         \<and> parse_values mp (i + 1) vs = Inr cs' \<and> cs = c # cs')"
    unfolding reads_as_iff [symmetric] parse_values.simps
    by (auto simp: map_sum_def split: option.split list.split sum.split if_split)
  show ?case unfolding one Cons by (auto simp: list_all2_Cons1)
qed auto

text \<open>
  Property C26. \<open>parseLink\<close> gives certificates exactly for one to ten values that each read as a DER object which begins
  like a sequence, is within the size limit and parses, and then their certificates in the link's order. What a value
  reads as is said by its digits alone: padding at the end and line breaks are skipped, the bits left over are ignored,
  any other character, the standard alphabet's \<open>+\<close> and \<open>/\<close> among them, and a lone last character are refused. In
  particular base64url of any DER objects, padded or not, reads back.
\<close>

theorem link_round_trip:
  "(parseLink mp vals = Inr cs \<longleftrightarrow>
      1 \<le> length vals \<and> length vals \<le> 10 \<and>
      list_all2 (\<lambda>v c. \<exists>der. reads_as v der \<and> der \<noteq> [] \<and> hd der = 0x30 \<and> length der \<le> CertSize
        \<and> ParseCertInfo mp der = Inr c) vals cs)
   \<and> (parseLink mp (link_values links) = Inr cs \<longleftrightarrow>
      1 \<le> length links \<and> length links \<le> 10 \<and>
      list_all2 (\<lambda>(der, n) c. der \<noteq> [] \<and> hd der = 0x30 \<and> length der \<le> CertSize \<and> ParseCertInfo mp der = Inr c) links cs)"
proof -
  have parse: "parseLink mp vs = Inr cs \<longleftrightarrow> 1 \<le> length vs \<and> length vs \<le> 10 \<and> parse_values mp 0 vs = Inr cs" for vs
    by (auto simp: parseLink_def maxChainDepth_def Suc_le_eq)
  show ?thesis
    using parse_values_encoded [of mp 0 links cs] by (simp add: parse parse_values_reads [of mp 0 vals] link_values_def link_accepts_def)
qed

end
