(* ===== verification/Hosts.thy ===== *)
theory Hosts
  imports Ssrf Pki Flight
begin

text \<open>
  Names and ports given by a client: \<open>strings.TrimSpace\<close>, \<open>strconv.Atoi\<close> and \<open>net.SplitHostPort\<close> as the
  sources use them, internal/dnshost/dnshost.go, \<open>normalizeSiteURL\<close> and \<open>splitHostPort\<close> of cmd/certview/site.go,
  \<open>normalizeURL\<close> and \<open>resolveAndGuard\<close> of cmd/certget/handler.go, and \<open>localOnly\<close> of cmd/certview/guard.go.
  What needs tables or the network is an argument: the record \<open>names\<close>.
\<close>

section \<open>Strings\<close>

text \<open>The white space of Unicode in UTF-8, which \<open>strings.TrimSpace\<close> cuts from both ends.\<close>

definition utf8 :: "nat list \<Rightarrow> string" where
  "utf8 ns = map char_of ns"

definition spaces :: "string list" where
  "spaces = map utf8 ([[9], [10], [11], [12], [13], [32], [0xC2, 0x85], [0xC2, 0xA0], [0xE1, 0x9A, 0x80]]
     @ map (\<lambda>n. [0xE2, 0x80, n]) [0x80..<0x8B] @ [[0xE2, 0x80, 0xA8], [0xE2, 0x80, 0xA9], [0xE2, 0x80, 0xAF],
        [0xE2, 0x81, 0x9F], [0xE3, 0x80, 0x80]])"

text \<open>Cuts the words of a list from the front of a string; each word cut makes it shorter.\<close>

fun trim_words :: "nat \<Rightarrow> string list \<Rightarrow> string \<Rightarrow> string" where
  "trim_words 0 ws s = s"
| "trim_words (Suc k) ws s =
     (case find (has_prefix s) ws of Some w \<Rightarrow> trim_words k ws (drop (length w) s) | None \<Rightarrow> s)"

definition trim_space :: "string \<Rightarrow> string" where
  "trim_space s =
     (let t = trim_words (length s) spaces s in rev (trim_words (length t) (map rev spaces) (rev t)))"

text \<open>\<open>strings.Trim\<close> with a set of ASCII characters, \<open>strings.LastIndex\<close> of one.\<close>

definition trim_set :: "string \<Rightarrow> string \<Rightarrow> string" where
  "trim_set cs s = rev (dropWhile (\<lambda>c. c \<in> set cs) (rev (dropWhile (\<lambda>c. c \<in> set cs) s)))"

fun last_index :: "char \<Rightarrow> string \<Rightarrow> nat option" where
  "last_index c [] = None"
| "last_index c (d # s) =
     (case last_index c s of Some i \<Rightarrow> Some (Suc i) | None \<Rightarrow> if d = c then Some 0 else None)"

subsection \<open>Numbers\<close>

text \<open>\<open>strconv.Atoi\<close>: an optional sign, then decimal digits only, within the 64 bits of an \<open>int\<close>.\<close>

definition digit :: "char \<Rightarrow> int option" where
  "digit c = (let n = of_char c :: nat in if 48 \<le> n \<and> n \<le> 57 then Some (int (n - 48)) else None)"

fun decimal :: "int \<Rightarrow> string \<Rightarrow> int option" where
  "decimal n [] = Some n"
| "decimal n (c # s) = (case digit c of Some d \<Rightarrow> decimal (10 * n + d) s | None \<Rightarrow> None)"

definition unsigned_digits :: "string \<Rightarrow> int option" where
  "unsigned_digits s = (if s = '''' then None else decimal 0 s)"

definition Atoi :: "string \<Rightarrow> int option" where
  "Atoi s =
     (let v = (if has_prefix s ''-'' then map_option uminus (unsigned_digits (tl s))
               else if has_prefix s ''+'' then unsigned_digits (tl s)
               else unsigned_digits s)
      in case v of
           None \<Rightarrow> None
         | Some n \<Rightarrow> if - (2 ^ 63) \<le> n \<and> n < 2 ^ 63 then Some n else None)"

text \<open>\<open>v, err := strconv.Atoi(p)\<close> and the check that follows it at each of its uses.\<close>

definition port_number :: "(string \<Rightarrow> string) \<Rightarrow> string \<Rightarrow> goerr + int" where
  "port_number quote p =
     (case Atoi p of
        Some v \<Rightarrow> if v < 1 \<or> v > 65535 then Inl (text_error (''bad port '' @ quote p)) else Inr v
      | None \<Rightarrow> Inl (text_error (''bad port '' @ quote p)))"

section \<open>Host names\<close>

text \<open>
  \<open>n_lower\<close> is \<open>strings.ToLower\<close>, \<open>n_addr\<close> and \<open>n_text\<close> are \<open>netip.ParseAddr\<close> and \<open>String\<close>,
  \<open>n_idna\<close> is \<open>idna.Lookup.ToASCII\<close>, \<open>n_url\<close> is \<open>url.Parse\<close> with its \<open>Hostname\<close> and \<open>Port\<close>,
  \<open>n_lookup\<close> the resolver and \<open>n_quote\<close> the verb \<open>%q\<close>.
\<close>

record names =
  n_lower :: "string \<Rightarrow> string"
  n_addr :: "string \<Rightarrow> addr option"
  n_text :: "addr \<Rightarrow> string"
  n_idna :: "string \<Rightarrow> goerr + string"
  n_url :: "string \<Rightarrow> goerr + string \<times> string"
  n_lookup :: "string \<Rightarrow> goerr + addr list"
  n_quote :: "string \<Rightarrow> string"

definition Normalize :: "names \<Rightarrow> string \<Rightarrow> goerr + string" where
  "Normalize N host0 =
     (let host = trim_space (n_lower N host0) in
      if host = '''' then Inl (text_error ''empty host'')
      else case n_addr N host of
        Some a \<Rightarrow> Inr (n_text N a)
      | None \<Rightarrow>
          (case n_idna N host of
             Inl e \<Rightarrow> Inl (Wrapped (''idna host '' @ n_quote N host @ '': '') e)
           | Inr ascii \<Rightarrow> Inr ascii))"

definition with_scheme :: "string \<Rightarrow> string" where
  "with_scheme input = (if index_of ''://'' input = None then ''https://'' @ input else input)"

definition normalizeSiteURL :: "names \<Rightarrow> string \<Rightarrow> goerr + string \<times> int" where
  "normalizeSiteURL N input0 =
     (let input = trim_space input0 in
      if input = '''' then Inl (text_error ''empty url'')
      else case n_url N (with_scheme input) of
        Inl e \<Rightarrow> Inl (Wrapped ''parse url: '' e)
      | Inr (hostname, p) \<Rightarrow>
          (case Normalize N hostname of
             Inl e \<Rightarrow> Inl e
           | Inr host \<Rightarrow>
               if p = '''' then Inr (host, 443)
               else map_sum id (\<lambda>v. (host, v)) (port_number (n_quote N) p)))"

text \<open>The same code in certget, where the error of an empty input is made with \<open>fmt.Errorf\<close>.\<close>

definition normalizeURL :: "names \<Rightarrow> string \<Rightarrow> goerr + string \<times> int" where
  "normalizeURL N input0 =
     (let input = trim_space input0 in
      if input = '''' then Inl (text_error ''empty url'')
      else case n_url N (with_scheme input) of
        Inl e \<Rightarrow> Inl (Wrapped ''parse url: '' e)
      | Inr (hostname, p) \<Rightarrow>
          (case Normalize N hostname of
             Inl e \<Rightarrow> Inl e
           | Inr host \<Rightarrow>
               if p = '''' then Inr (host, 443)
               else map_sum id (\<lambda>v. (host, v)) (port_number (n_quote N) p)))"

fun Is6 :: "addr \<Rightarrow> bool" where
  "Is6 (V6 a z) = True"
| "Is6 _ = False"

text \<open>An IPv6 literal in brackets: \<open>hp[1:end]\<close> and what follows the last bracket.\<close>

definition split_literal :: "names \<Rightarrow> string \<Rightarrow> goerr + string \<times> int" where
  "split_literal N hp =
     (case last_index (CHR '']'') hp of
        None \<Rightarrow> Inl (text_error ''malformed IPv6 literal'')
      | Some end_ \<Rightarrow>
          (case n_addr N (take (end_ - 1) (drop 1 hp)) of
             None \<Rightarrow> Inl (text_error ''malformed IPv6 literal'')
           | Some a \<Rightarrow>
               if \<not> Is6 a then Inl (text_error ''malformed IPv6 literal'')
               else if end_ + 1 < length hp
               then (if hp ! (end_ + 1) \<noteq> CHR '':'' then Inl (text_error (''expected '' @ [char_of (39::nat)] @ '':'' @ [char_of (39::nat)]
                       @ '' after '' @ [char_of (39::nat)] @ '']'' @ [char_of (39::nat)]))
                     else map_sum id (\<lambda>v. (n_text N a, v)) (port_number (n_quote N) (drop (end_ + 2) hp)))
               else Inr (n_text N a, 443)))"

definition splitHostPort :: "names \<Rightarrow> string \<Rightarrow> goerr + string \<times> int" where
  "splitHostPort N hp =
     (if hp = '''' then Inl (text_error ''empty hostport'')
      else if has_prefix hp ''['' then split_literal N hp
      else case (case last_index (CHR '':'') hp of
                   None \<Rightarrow> Inr (hp, 443)
                 | Some i \<Rightarrow> map_sum id (\<lambda>v. (take i hp, v)) (port_number (n_quote N) (drop (i + 1) hp))) of
        Inl e \<Rightarrow> Inl e
      | Inr (h, port) \<Rightarrow> map_sum id (\<lambda>host. (host, port)) (Normalize N h))"

section \<open>certget's guard\<close>

text \<open>\<open>ssrfguard.Check\<close> with the addresses and the resolver of \<open>names\<close>.\<close>

definition check_host :: "names \<Rightarrow> string \<Rightarrow> goerr option" where
  "check_host N host = Check (n_text N) host (n_addr N host) (n_lookup N host)"

fun check_each :: "names \<Rightarrow> addr list \<Rightarrow> goerr option" where
  "check_each N [] = None"
| "check_each N (a # as) = (case check_host N (n_text N a) of Some e \<Rightarrow> Some e | None \<Rightarrow> check_each N as)"

definition resolveAndGuard :: "names \<Rightarrow> string \<Rightarrow> goerr + string" where
  "resolveAndGuard N host =
     (case n_addr N host of
        Some a \<Rightarrow> (case check_host N host of Some e \<Rightarrow> Inl e | None \<Rightarrow> Inr (n_text N a))
      | None \<Rightarrow>
          (case n_lookup N host of
             Inl e \<Rightarrow> Inl (Wrapped (''resolve '' @ host @ '': '') e)
           | Inr as \<Rightarrow>
               if as = [] then Inl (text_error (''resolve '' @ host @ '': no addresses''))
               else (case check_each N as of Some e \<Rightarrow> Inl e | None \<Rightarrow> Inr (n_text N (hd as)))))"

section \<open>Answers\<close>

text \<open>What a handler answers: an error with its status, a body, or nothing to a client that is gone.\<close>

datatype 'a answer = HttpError int string | Answer 'a | NoAnswer

section \<open>The admin listener\<close>

text \<open>\<open>net.SplitHostPort\<close>; the texts of its errors are not used.\<close>

definition SplitHostPort :: "string \<Rightarrow> (string \<times> string) option" where
  "SplitHostPort hp =
     (case last_index (CHR '':'') hp of
        None \<Rightarrow> None
      | Some i \<Rightarrow>
          if hd hp = CHR ''[''
          then (case index_of [CHR '']''] hp of
                  None \<Rightarrow> None
                | Some e \<Rightarrow>
                    if e + 1 \<noteq> i \<or> CHR ''['' \<in> set (drop 1 hp) \<or> CHR '']'' \<in> set (drop (e + 1) hp) then None
                    else Some (take (e - 1) (drop 1 hp), drop (i + 1) hp))
          else if CHR '':'' \<in> set (take i hp) \<or> CHR ''['' \<in> set hp \<or> CHR '']'' \<in> set hp then None
          else Some (take i hp, drop (i + 1) hp))"

text \<open>\<open>localOnly\<close>: \<open>None\<close> when the request is served, or the status and the text of the refusal.\<close>

definition localOnly :: "string \<Rightarrow> (int \<times> string) option" where
  "localOnly host0 =
     (let host = (case SplitHostPort host0 of Some (h, _) \<Rightarrow> h | None \<Rightarrow> host0) in
      if trim_set ''[]'' host \<in> {''localhost'', ''127.0.0.1'', ''::1''} then None
      else Some (403, ''admin is served on localhost only''))"

end
