(* ===== verification/Hosts_Laws.thy ===== *)
theory Hosts_Laws
  imports Hosts Ssrf_Laws
begin

text \<open>
  Numbers are read back as they were printed; a host and a port survive \<open>net.JoinHostPort\<close> and
  \<open>splitHostPort\<close>; the ports of all targets are in range; what certget's guard returns is an address
  the guard lets through; which requests the admin listener serves.
\<close>

section \<open>Numbers\<close>

lemma digit_char [simp]: "n < 10 \<Longrightarrow> digit (char_of (48 + n)) = Some (int n)"
  by (simp add: digit_def Let_def)

lemma decimal_append: "decimal m (s @ [c]) = Option.bind (decimal m s) (\<lambda>k. map_option (\<lambda>d. 10 * k + d) (digit c))"
  by (induction s arbitrary: m) (auto split: option.split)

lemma decimal_digits_of: "decimal 0 (digits_of n) = Some (int n)"
proof (induction n rule: digits_of.induct)
  case (1 n)
  show ?case
  proof (cases "n < 10")
    case True
    then show ?thesis by (subst digits_of.simps) simp
  next
    case False
    then have "digits_of n = digits_of (n div 10) @ [char_of (48 + n mod 10)]" by (subst digits_of.simps) simp
    moreover have "10 * int (n div 10) + int (n mod 10) = int n" by (simp add: zdiv_int zmod_int)
    ultimately show ?thesis using 1 [OF False] by (simp add: decimal_append)
  qed
qed

lemma digits_of_chars: "c \<in> set (digits_of n) \<Longrightarrow> \<exists>d < 10. c = char_of (48 + d :: nat)"
proof (induction n rule: digits_of.induct)
  case (1 n)
  then show ?case
    by (cases "n < 10") (subst (asm) (2) digits_of.simps, auto intro: exI [of _ "n mod 10"])+
qed

lemma digits_of_not_empty [simp]: "digits_of n \<noteq> []"
  by (subst digits_of.simps) simp

lemma digit_char_neq:
  assumes "c \<in> set (digits_of n)"
  shows "48 \<le> (of_char c :: nat) \<and> (of_char c :: nat) \<le> 57"
  using digits_of_chars [OF assms] by auto

lemma not_a_digit: "(of_char c :: nat) < 48 \<or> 57 < (of_char c :: nat) \<Longrightarrow> c \<notin> set (digits_of n)"
  using digit_char_neq by fastforce

lemma Atoi_digits_of:
  assumes "int n < 2 ^ 63"
  shows "Atoi (digits_of n) = Some (int n)"
proof -
  have "CHR ''-'' \<notin> set (digits_of n)" "CHR ''+'' \<notin> set (digits_of n)" by (simp_all add: not_a_digit)
  then have "\<not> has_prefix (digits_of n) ''-''" "\<not> has_prefix (digits_of n) ''+''"
    by (auto simp: has_prefix_iff)
  then show ?thesis using assms by (simp add: Atoi_def unsigned_digits_def decimal_digits_of)
qed

lemma port_number_digits_of: "1 \<le> n \<Longrightarrow> n \<le> 65535 \<Longrightarrow> port_number q (digits_of n) = Inr (int n)"
  by (simp add: port_number_def Atoi_digits_of)

lemma port_number_range: "port_number q p = Inr v \<Longrightarrow> 1 \<le> v \<and> v \<le> 65535"
  by (auto simp: port_number_def split: option.splits if_splits)

section \<open>White space\<close>

lemma trim_words_none: "\<forall>w \<in> set ws. \<not> has_prefix s w \<Longrightarrow> trim_words k ws s = s"
  by (cases k) (auto simp: find_None_iff split: option.split dest: find_SomeD)

definition printable :: "char \<Rightarrow> bool" where
  "printable c \<longleftrightarrow> (let n = of_char c :: nat in 33 \<le> n \<and> n \<le> 126)"

lemma spaces_ends: "w \<in> set spaces \<Longrightarrow> w \<noteq> [] \<and> \<not> printable (hd w) \<and> \<not> printable (last w)"
  by (auto simp: spaces_def utf8_def printable_def)

lemma trim_space_printable:
  assumes "s \<noteq> []" and "printable (hd s)" and "printable (last s)"
  shows "trim_space s = s"
proof -
  have "\<not> has_prefix s w" if "w \<in> set spaces" for w
    using assms spaces_ends [OF that] by (cases w; cases s) (auto simp: has_prefix_iff)
  moreover have "\<not> has_prefix (rev s) (rev w)" if "w \<in> set spaces" for w
    using assms spaces_ends [OF that] by (cases w rule: rev_cases; cases s rule: rev_cases) (auto simp: has_prefix_iff)
  ultimately show ?thesis by (simp add: trim_space_def trim_words_none)
qed

section \<open>Positions\<close>

lemma last_index_None: "last_index c s = None \<longleftrightarrow> c \<notin> set s"
  by (induction s) (auto split: option.split)

lemma last_index_last: "c \<notin> set t \<Longrightarrow> last_index c (s @ c # t) = Some (length s)"
  by (induction s) (auto simp: last_index_None split: option.split)

lemma index_of_first: "c \<notin> set s \<Longrightarrow> index_of [c] (s @ c # t) = Some (length s)"
  by (induction s) (auto simp: has_prefix_def)

section \<open>Hosts and ports\<close>

lemma Is6_iff: "Is6 a \<longleftrightarrow> (\<exists>x z. a = V6 x z)"
  by (cases a) auto

text \<open>
  A host and a port written by \<open>net.JoinHostPort\<close> are read back by \<open>splitHostPort\<close>: the same port
  and the normalised host, or, for a host with a colon, the canonical form of its IPv6 address.
\<close>

theorem host_port_round_trip:
  assumes "1 \<le> port" and "port \<le> 65535" and "\<not> has_prefix host ''[''"
  shows "splitHostPort N (join_host_port host (digits_of port)) =
     (if CHR '':'' \<in> set host
      then (case n_addr N host of
              Some (V6 a z) \<Rightarrow> Inr (n_text N (V6 a z), int port)
            | _ \<Rightarrow> Inl (text_error ''malformed IPv6 literal''))
      else map_sum id (\<lambda>h. (h, int port)) (Normalize N host))"
proof (cases "CHR '':'' \<in> set host")
  case True
  have "CHR '']'' \<notin> set (CHR '':'' # digits_of port)" by (simp add: not_a_digit)
  from last_index_last [OF this, of "''['' @ host"]
  have last: "last_index (CHR '']'') (''['' @ host @ '']:'' @ digits_of port) = Some (Suc (length host))" by simp
  have "split_literal N (''['' @ host @ '']:'' @ digits_of port) =
      (case n_addr N host of Some (V6 a z) \<Rightarrow> Inr (n_text N (V6 a z), int port)
       | _ \<Rightarrow> Inl (text_error ''malformed IPv6 literal''))"
    unfolding split_literal_def last
    using port_number_digits_of [OF assms(1,2)]
    by (auto simp: nth_append split: option.split addr.split)
  with True show ?thesis by (simp add: splitHostPort_def join_host_port_def has_prefix_def)
next
  case False
  have "CHR '':'' \<notin> set (digits_of port)" by (simp add: not_a_digit)
  from last_index_last [OF this, of host]
  have last: "last_index (CHR '':'') (host @ CHR '':'' # digits_of port) = Some (length host)" .
  have "\<not> has_prefix (host @ CHR '':'' # digits_of port) ''[''"
    using assms(3) by (cases host) (auto simp: has_prefix_def)
  with False port_number_digits_of [OF assms(1,2)] show ?thesis
    by (simp add: splitHostPort_def join_host_port_def last)
qed

text \<open>
  Whatever a client sends, a site's host is the outcome of \<open>Normalize\<close> or the canonical text of an IPv6
  address, and its port is between 1 and 65535; certget reads its targets the same way.
\<close>

theorem targets_in_range:
  assumes "normalizeSiteURL N input = Inr (host, port) \<or> splitHostPort N input = Inr (host, port)
     \<or> normalizeURL N input = Inr (host, port)"
  shows "1 \<le> port \<and> port \<le> 65535 \<and> ((\<exists>name. Normalize N name = Inr host) \<or> (\<exists>a z. host = n_text N (V6 a z)))"
proof -
  have url: "1 \<le> port \<and> port \<le> 65535 \<and> (\<exists>name. Normalize N name = Inr host)" if "normalizeSiteURL N input = Inr (host, port)"
    using that port_number_range
    by (auto simp: normalizeSiteURL_def Let_def map_sum_def split: if_splits sum.splits)
  have get: "1 \<le> port \<and> port \<le> 65535 \<and> (\<exists>name. Normalize N name = Inr host)" if "normalizeURL N input = Inr (host, port)"
    using that port_number_range
    by (auto simp: normalizeURL_def Let_def map_sum_def split: if_splits sum.splits)
  have literal: "1 \<le> port \<and> port \<le> 65535 \<and> (\<exists>a z. host = n_text N (V6 a z))" if "split_literal N input = Inr (host, port)"
    using that port_number_range
    by (auto simp: split_literal_def map_sum_def Is6_iff split: if_splits sum.splits option.splits)
  have "1 \<le> port \<and> port \<le> 65535 \<and> ((\<exists>name. Normalize N name = Inr host) \<or> (\<exists>a z. host = n_text N (V6 a z)))"
    if "splitHostPort N input = Inr (host, port)"
    using that literal port_number_range
    by (auto simp: splitHostPort_def map_sum_def split: if_splits sum.splits option.splits)
  then show ?thesis using assms url get by blast
qed

section \<open>certget's guard\<close>

lemma check_each_None:
  assumes "check_each N as = None" and "\<And>a. IsValid a \<Longrightarrow> n_addr N (n_text N a) = Some a" and "\<forall>a \<in> set as. IsValid a"
  shows "\<forall>a \<in> set as. checkAddr a = None"
  using assms by (induction as) (auto simp: check_host_def Check_def split: option.splits)

lemma check_each_ok:
  assumes "\<And>a. IsValid a \<Longrightarrow> n_addr N (n_text N a) = Some a" and "\<forall>a \<in> set as. IsValid a" and "\<forall>a \<in> set as. checkAddr a = None"
  shows "check_each N as = None"
  using assms by (induction as) (auto simp: check_host_def Check_def split: option.splits)

text \<open>
  Property C21. certget connects to one address only, the text of one the guard lets through: the literal itself, or the
  first of the host's addresses when the guard lets all of them through. Of \<open>net/netip\<close> and the resolver it relies on
  two documented things: an address is parsed back from its text, and only valid addresses are resolved.
\<close>

theorem certget_pins_checked_address:
  assumes "\<And>a. IsValid a \<Longrightarrow> n_addr N (n_text N a) = Some a"
    and "\<And>as. n_lookup N host = Inr as \<Longrightarrow> list_all IsValid as"
  shows "resolveAndGuard N host = Inr ip \<longleftrightarrow>
     (case n_addr N host of
        Some a \<Rightarrow> checkAddr a = None \<and> ip = n_text N a
      | None \<Rightarrow> \<exists>a as. n_lookup N host = Inr (a # as) \<and> list_all (\<lambda>b. checkAddr b = None) (a # as) \<and> ip = n_text N a)"
proof (cases "n_addr N host")
  case (Some a)
  then show ?thesis
    by (auto simp: resolveAndGuard_def check_host_def Check_def split: option.split)
next
  case None
  show ?thesis
  proof (cases "n_lookup N host")
    case (Inl e)
    with None show ?thesis by (simp add: resolveAndGuard_def)
  next
    case (Inr as)
    with assms(2) have "\<forall>a \<in> set as. IsValid a" by (simp add: list_all_iff)
    then have each: "check_each N as = None \<longleftrightarrow> (\<forall>a \<in> set as. checkAddr a = None)"
      using check_each_None check_each_ok assms(1) by metis
    then show ?thesis
      by (cases as; cases "check_each N as") (auto simp: resolveAndGuard_def None Inr list_all_iff)
  qed
qed

section \<open>The admin listener\<close>

lemma trim_set_none: "set s \<inter> set cs = {} \<Longrightarrow> trim_set cs s = s"
proof -
  assume no: "set s \<inter> set cs = {}"
  have id: "set t \<subseteq> set s \<Longrightarrow> dropWhile (\<lambda>c. c \<in> set cs) t = t" for t using no by (cases t) auto
  show ?thesis by (simp add: trim_set_def id)
qed

lemma SplitHostPort_plain:
  assumes "set ''[]:'' \<inter> set name = {}" and "set ''[]:'' \<inter> set port = {}"
  shows "SplitHostPort (name @ CHR '':'' # port) = Some (name, port)" and "SplitHostPort name = None"
proof -
  have "hd (name @ CHR '':'' # port) \<noteq> CHR ''[''" using assms(1) by (cases name) auto
  with assms show "SplitHostPort (name @ CHR '':'' # port) = Some (name, port)"
    by (auto simp: SplitHostPort_def last_index_last)
  have "last_index (CHR '':'') name = None" using assms(1) by (simp add: last_index_None)
  then show "SplitHostPort name = None" by (simp add: SplitHostPort_def)
qed

text \<open>
  A request to the admin listener whose \<open>Host\<close> is a name, with or without a port, is served exactly when
  the name is \<open>localhost\<close> or \<open>127.0.0.1\<close>: a page of another origin does not reach it by rebinding its own name.
\<close>

theorem admin_served_on_localhost_only:
  assumes "list_all (\<lambda>c. c \<notin> set ''[]:'') (name @ port)"
  shows "(localOnly name = None \<longleftrightarrow> name = ''localhost'' \<or> name = ''127.0.0.1'')
     \<and> (localOnly (name @ '':'' @ port) = None \<longleftrightarrow> name = ''localhost'' \<or> name = ''127.0.0.1'')"
proof -
  have plain: "set ''[]:'' \<inter> set name = {}" "set ''[]:'' \<inter> set port = {}"
    using assms by (auto simp: list_all_iff)
  then have "trim_set ''[]'' name = name" by (intro trim_set_none) auto
  moreover have "name \<noteq> ''::1''" using plain(1) by auto
  ultimately show ?thesis
    using SplitHostPort_plain [OF plain] by (auto simp: localOnly_def Let_def)
qed

section \<open>Samples\<close>

text \<open>Names over addresses written as numbers, \<open>4n\<close> and \<open>6n%zone\<close>.\<close>

fun sample_text :: "addr \<Rightarrow> string" where
  "sample_text NoAddr = ''invalid''"
| "sample_text (V4 w) = CHR ''4'' # digits_of (unat w)"
| "sample_text (V6 w z) = CHR ''6'' # digits_of (unat w) @ CHR ''%'' # z"

definition sample_addr :: "string \<Rightarrow> addr option" where
  "sample_addr s =
     (if has_prefix s ''4'' then map_option (\<lambda>n. V4 (of_int n)) (decimal 0 (tl s))
      else if has_prefix s ''6''
      then (case index_of ''%'' (tl s) of
              None \<Rightarrow> None
            | Some i \<Rightarrow> map_option (\<lambda>n. V6 (of_int n) (drop (i + 1) (tl s))) (decimal 0 (take i (tl s))))
      else None)"

lemma sample_addr_text: "IsValid a \<Longrightarrow> sample_addr (sample_text a) = Some a"
proof (cases a)
  case (V6 w z)
  have "index_of ''%'' (digits_of (unat w) @ CHR ''%'' # z) = Some (length (digits_of (unat w)))"
    by (rule index_of_first) (simp add: not_a_digit)
  with V6 show ?thesis by (simp add: sample_addr_def has_prefix_def decimal_digits_of)
qed (auto simp: IsValid_def sample_addr_def has_prefix_def decimal_digits_of)

definition sample_names :: names where
  "sample_names =
     \<lparr>n_lower = to_lower, n_addr = sample_addr, n_text = sample_text, n_idna = Inr,
      n_url = (\<lambda>u. Inr (drop 8 u, '''')),
      n_lookup = (\<lambda>h. if h = ''a.org'' then Inr [V4 (ip4 8 8 8 8)] else Inl (text_error ''no such host'')),
      n_quote = (\<lambda>s. s)\<rparr>"

lemma trim_sample: "trim_space ''a.org'' = ''a.org''"
  by (rule trim_space_printable) (simp_all add: printable_def)

lemma sample_lower: "to_lower ''a.org'' = ''a.org''"
  by (simp add: to_lower_def lower_char_def Let_def)

lemma sample_normalized: "Normalize sample_names ''a.org'' = Inr ''a.org''"
  by (simp add: Normalize_def sample_names_def sample_lower trim_sample sample_addr_def has_prefix_def)

lemma host_port_round_trip_witness:
  "splitHostPort sample_names (join_host_port ''a.org'' (digits_of 443)) = Inr (''a.org'', 443)"
  using host_port_round_trip [of 443 "''a.org''" sample_names]
  by (simp add: has_prefix_def sample_normalized)

lemma targets_in_range_witness: "(1::int) \<le> 443 \<and> (443::int) \<le> 65535
   \<and> ((\<exists>name. Normalize sample_names name = Inr ''a.org'') \<or> (\<exists>a z. ''a.org'' = n_text sample_names (V6 a z)))"
proof (rule targets_in_range)
  have url: "n_url sample_names (with_scheme ''a.org'') = Inr (''a.org'', '''')"
    by (simp add: sample_names_def with_scheme_def has_prefix_def)
  have "normalizeSiteURL sample_names ''a.org'' = Inr (''a.org'', 443)"
    by (simp add: normalizeSiteURL_def trim_sample url sample_normalized)
  then show "normalizeSiteURL sample_names ''a.org'' = Inr (''a.org'', 443)
     \<or> splitHostPort sample_names ''a.org'' = Inr (''a.org'', 443) \<or> normalizeURL sample_names ''a.org'' = Inr (''a.org'', 443)" ..
qed

lemma certget_pins_checked_address_witness:
  "resolveAndGuard sample_names ''a.org'' = Inr (sample_text (V4 (ip4 8 8 8 8)))"
proof -
  have "resolveAndGuard sample_names ''a.org'' = Inr (sample_text (V4 (ip4 8 8 8 8))) \<longleftrightarrow>
     (case n_addr sample_names ''a.org'' of
        Some a \<Rightarrow> checkAddr a = None \<and> sample_text (V4 (ip4 8 8 8 8)) = n_text sample_names a
      | None \<Rightarrow> \<exists>a as. n_lookup sample_names ''a.org'' = Inr (a # as) \<and> list_all (\<lambda>b. checkAddr b = None) (a # as)
          \<and> sample_text (V4 (ip4 8 8 8 8)) = n_text sample_names a)"
    by (rule certget_pins_checked_address)
      (auto simp: sample_names_def sample_addr_text IsValid_def split: if_splits)
  moreover have "checkAddr (V4 (ip4 8 8 8 8)) = None" by (simp add: checkAddr_V4 public4_iff ip4_def)
  ultimately show ?thesis by (simp add: sample_names_def sample_addr_def has_prefix_def)
qed

lemma admin_served_on_localhost_only_witness:
  "localOnly ''evil.org'' \<noteq> None \<and> localOnly (''evil.org'' @ '':'' @ ''8081'') \<noteq> None"
  using admin_served_on_localhost_only [of "''evil.org''" "''8081''"] by simp

end
