(* ===== verification/Trust.thy ===== *)
theory Trust
  imports Chain RespCache
begin

text \<open>
  Who decides what is trusted: the bundles imported at every start (internal/trustbundle/trustbundle.go) and the
  administrator (\<open>toggleTrust\<close> of cmd/certview/handler.go). Logging is left out; the clock is a function from the
  position of a block in its bundle.
\<close>

section \<open>Bundles\<close>

definition pem_begin :: bytes where "pem_begin = bytes_of ''-----BEGIN CERTIFICATE-----''"
definition pem_end :: bytes where "pem_end = bytes_of ''-----END CERTIFICATE-----''"

text \<open>\<open>splitPEM\<close>: the blocks from a first line to the next last line, each with both.\<close>

function splitPEM :: "bytes \<Rightarrow> bytes list" where
  "splitPEM data =
     (case index_of pem_begin data of
        None \<Rightarrow> []
      | Some i \<Rightarrow>
          (case index_of pem_end (drop i data) of
             None \<Rightarrow> []
           | Some j \<Rightarrow> take (j + length pem_end) (drop i data) # splitPEM (drop (i + j + length pem_end) data)))"
  by pat_completeness auto

termination
proof (relation "measure length")
  fix data :: bytes and i j
  assume "index_of pem_begin data = Some i"
  from index_of_Some [OF this] have "data \<noteq> []" by (auto simp: pem_begin_def bytes_of_def)
  then show "(drop (i + j + length pem_end) data, data) \<in> measure length" by (simp add: pem_end_def)
qed simp

declare splitPEM.simps [simp del]

text \<open>What the loop of \<open>importBundle\<close> carries: the digests of the roots, how many became trusted, the store.\<close>

record bundle_run =
  b_roots :: "string list"
  b_trusted :: nat
  b_store :: store

definition import_root :: "hashes \<Rightarrow> gotime \<Rightarrow> string \<Rightarrow> CertInfo \<Rightarrow> bundle_run \<Rightarrow> bundle_run" where
  "import_root H now source info b =
     (case ImportTrustedCert H now (args_of info source) (b_store b) of
        (s, res) \<Rightarrow>
          b\<lparr>b_roots := b_roots b @ [SHA256Hex H (DER info)], b_store := s,
            b_trusted := b_trusted b + (if res = Inr True then 1 else 0)\<rparr>)"

definition import_other :: "hashes \<Rightarrow> gotime \<Rightarrow> string \<Rightarrow> CertInfo \<Rightarrow> bundle_run \<Rightarrow> bundle_run" where
  "import_other H now source info b = b\<lparr>b_store := fst (SavePoolCert H now (args_of info source) (b_store b))\<rparr>"

fun import_blocks :: "('c, 'l, 'o, 's) minipki \<Rightarrow> hashes \<Rightarrow> (nat \<Rightarrow> gotime) \<Rightarrow> string \<Rightarrow> nat \<Rightarrow> bytes list
    \<Rightarrow> bundle_run \<Rightarrow> bundle_run" where
  "import_blocks mp H clock source i [] b = b"
| "import_blocks mp H clock source i (block # blocks) b =
     import_blocks mp H clock source (i + 1) blocks
       (case ParseCertInfo mp block of
          Inl e \<Rightarrow> b
        | Inr info \<Rightarrow>
            if IsSelfSigned info then import_root H (clock i) source info b
            else import_other H (clock i) source info b)"

definition importBundle :: "('c, 'l, 'o, 's) minipki \<Rightarrow> hashes \<Rightarrow> (nat \<Rightarrow> gotime) \<Rightarrow> bytes \<Rightarrow> string \<Rightarrow> store \<Rightarrow> store" where
  "importBundle mp H clock data source s =
     (let b = import_blocks mp H clock source 0 (splitPEM data) \<lparr>b_roots = [], b_trusted = 0, b_store = s\<rparr> in
      if b_roots b = [] then b_store b
      else fst (WithdrawBundleRoots source (b_roots b) (b_store b)))"

text \<open>\<open>ImportDefaults\<close>, with the contents of the two embedded files.\<close>

definition ImportDefaults :: "('c, 'l, 'o, 's) minipki \<Rightarrow> hashes \<Rightarrow> (nat \<Rightarrow> gotime) \<Rightarrow> (nat \<Rightarrow> gotime) \<Rightarrow> bytes \<Rightarrow> bytes
    \<Rightarrow> store \<Rightarrow> store" where
  "ImportDefaults mp H clock1 clock2 mozillaPEM russianPEM s =
     importBundle mp H clock2 russianPEM ''ru-gov'' (importBundle mp H clock1 mozillaPEM ''mozilla'' s)"

section \<open>The administrator\<close>

text \<open>The text of an error of \<open>database/sql\<close>.\<close>

fun db_text :: "db_error \<Rightarrow> string" where
  "db_text (NotNull column) = ''NOT NULL constraint failed: '' @ column"
| "db_text NoRows = ''sql: no rows in result set''"

text \<open>The listener's own caches; the site cache exists when certget is configured.\<close>

record ('k, 'a, 'j, 'b) caches =
  analysisCache :: "('k, 'a) cache"
  siteCache :: "('j, 'b) cache option"

definition purge_all :: "('k, 'a, 'j, 'b) caches \<Rightarrow> ('k, 'a, 'j, 'b) caches" where
  "purge_all cs = \<lparr>analysisCache = purge (analysisCache cs), siteCache = map_option purge (siteCache cs)\<rparr>"

text \<open>
  \<open>toggleTrust\<close> on the \<open>Content-Type\<close> and the decoded body, \<open>None\<close> when it is too large or no JSON of the expected
  shape. The answer is the status and text of an error, or the new trust.
\<close>

definition toggleTrust :: "('c, 'l, 'o, 's) minipki \<Rightarrow> hashes \<Rightarrow> gotime \<Rightarrow> bool \<Rightarrow> string \<Rightarrow> (string \<times> bytes) option
    \<Rightarrow> store \<Rightarrow> ('k, 'a, 'j, 'b) caches \<Rightarrow> ((int \<times> string) + bool) \<times> store \<times> ('k, 'a, 'j, 'b) caches" where
  "toggleTrust mp H now on ctype body s cs =
     (if \<not> has_prefix ctype ''application/json'' then (Inl (415, ''JSON body required''), s, cs)
      else case body of
        None \<Rightarrow> (Inl (400, ''bad request''), s, cs)
      | Some (sha, der) \<Rightarrow>
          if sha = '''' then (Inl (400, ''bad request''), s, cs)
          else (case (if on \<and> der \<noteq> []
                      then (case ParseCertInfo mp der of
                              Inl e \<Rightarrow> Inl (400, ''certificate does not match sha256'')
                            | Inr info \<Rightarrow>
                                if \<not> equal_fold (SHA256Hex H (DER info)) sha then Inl (400, ''certificate does not match sha256'')
                                else Inr (SaveCert H now (args_of info ''admin'') s))
                      else Inr s) of
                  Inl answer \<Rightarrow> (Inl answer, s, cs)
                | Inr s1 \<Rightarrow>
                    (case SetTrusted sha on s1 of
                       (s2, Inl e) \<Rightarrow> (Inl (404, db_text e), s2, cs)
                     | (s2, Inr _) \<Rightarrow> (Inr on, s2, purge_all cs))))"

end
