(* ===== verification/Ledger.thy ===== *)
theory Ledger
  imports Store_Laws
begin

text \<open>
  What the table of certificates promises, without its rows: a map from digests to entries. Each operation of the
  store on certificates is one on the map; the lookups and the results of the operations read the map.
\<close>

section \<open>The abstract table\<close>

record ledger_entry =
  en_der :: bytes
  en_source :: "string option"
  en_self :: bool
  en_trusted :: bool
  en_pool :: bool

type_synonym ledger = "string \<rightharpoonup> ledger_entry"

definition entry_of :: "cert_row \<Rightarrow> ledger_entry" where
  "entry_of r = \<lparr>en_der = c_der r, en_source = c_source r, en_self = c_self_signed r, en_trusted = c_trusted r,
     en_pool = c_pool r\<rparr>"

definition ledger :: "store \<Rightarrow> ledger" where
  "ledger s = (\<lambda>h. map_option entry_of (find (has_sha h) (certs s)))"

definition new_ledger_entry :: "bool \<Rightarrow> bool \<Rightarrow> cert_args \<Rightarrow> ledger_entry" where
  "new_ledger_entry t p a = \<lparr>en_der = a_der a, en_source = Some (a_source a), en_self = a_self_signed a, en_trusted = t,
     en_pool = p\<rparr>"

text \<open>An upsert: a new entry, or \<open>f\<close> on the one there is. A certificate without content is refused.\<close>

definition upsert :: "hashes \<Rightarrow> bool \<Rightarrow> bool \<Rightarrow> (ledger_entry \<Rightarrow> ledger_entry) \<Rightarrow> cert_args \<Rightarrow> ledger \<Rightarrow> ledger" where
  "upsert H t p f a m =
     (if a_der a = [] then m
      else m(SHA256Hex H (a_der a) \<mapsto>
        (case m (SHA256Hex H (a_der a)) of None \<Rightarrow> new_ledger_entry t p a | Some e \<Rightarrow> f e)))"

definition mark_pool :: "string \<Rightarrow> ledger \<Rightarrow> ledger" where
  "mark_pool h m = (case m h of None \<Rightarrow> m | Some e \<Rightarrow> m(h \<mapsto> e\<lparr>en_pool := True\<rparr>))"

definition imported :: "string \<Rightarrow> ledger_entry \<Rightarrow> ledger_entry" where
  "imported source e =
     (if en_source e \<noteq> Some source then e\<lparr>en_trusted := True, en_source := Some source\<rparr> else e)"

definition withdraw_entry :: "string \<Rightarrow> string list \<Rightarrow> string \<Rightarrow> ledger_entry \<Rightarrow> ledger_entry" where
  "withdraw_entry source keep h e =
     (if en_source e = Some source \<and> en_self e \<and> (keep \<noteq> [] \<longrightarrow> h \<notin> set keep)
      then e\<lparr>en_trusted := False, en_source := Some (source @ '':removed'')\<rparr> else e)"

fun ledger_op :: "hashes \<Rightarrow> store_op \<Rightarrow> ledger \<Rightarrow> ledger" where
  "ledger_op H (Op_SaveCert t a) m = upsert H False False id a m"
| "ledger_op H (Op_SavePoolCert t a) m = upsert H False True (\<lambda>e. e\<lparr>en_pool := True\<rparr>) a m"
| "ledger_op H (Op_ImportTrustedCert t a) m = 
     upsert H True True (imported (a_source a)) a (mark_pool (SHA256Hex H (a_der a)) m)"
| "ledger_op H (Op_WithdrawBundleRoots source keep) m = (\<lambda>h. map_option (withdraw_entry source keep h) (m h))"
| "ledger_op H (Op_SetTrusted h t) m =
     (case m (to_upper h) of None \<Rightarrow> m | Some e \<Rightarrow> m(to_upper h \<mapsto> e\<lparr>en_trusted := t\<rparr>))"
| "ledger_op H op m = m"

definition ledger_trusts :: "ledger \<Rightarrow> string \<Rightarrow> bool" where
  "ledger_trusts m h = (case m (to_upper h) of None \<Rightarrow> False | Some e \<Rightarrow> en_trusted e)"

section \<open>The rows refine it\<close>

lemma ledger_Some: "ledger s h = Some e \<longleftrightarrow> (\<exists>r. find (has_sha h) (certs s) = Some r \<and> e = entry_of r)"
  by (auto simp: ledger_def)

lemma listed_iff: "list_ex (has_sha h) (certs s) \<longleftrightarrow> ledger s h \<noteq> None"
  by (simp add: list_ex_find ledger_def)

lemma ledger_empty [simp]: "ledger empty_store = Map.empty"
  by (simp add: ledger_def empty_store_def)

lemma ledger_insert:
  "ledger (s\<lparr>certs := certs s @ [cert_of_args H now t p a (certs s)]\<rparr>) =
     (case ledger s (SHA256Hex H (a_der a)) of
        None \<Rightarrow> (ledger s)(SHA256Hex H (a_der a) \<mapsto> new_ledger_entry t p a)
      | Some e \<Rightarrow> ledger s)"
  by (rule ext)
    (auto simp: ledger_def find_append cert_of_args_def has_sha_def entry_of_def new_ledger_entry_def split: option.splits)

lemma ledger_SaveCert: "ledger (SaveCert H now a s) = upsert H False False id a (ledger s)"
  using ledger_insert [of s H now False False a]
  by (auto simp: SaveCert_def upsert_def listed_iff fun_upd_idem split: option.splits)

text \<open>An \<open>UPDATE\<close> that keeps the digests is one on the entries.\<close>

lemma ledger_update:
  assumes "\<And>r. c_sha256 (f r) = c_sha256 r"
    and "\<And>r. entry_of (if P r then f r else r) = g (c_sha256 r) (entry_of r)"
  shows "ledger (s\<lparr>certs := update_where P f (certs s)\<rparr>) = (\<lambda>h. map_option (g h) (ledger s h))"
proof
  fix h
  have "find (has_sha h) (update_where P f (certs s)) = map_option (\<lambda>r. if P r then f r else r) (find (has_sha h) (certs s))"
    by (rule find_update_where) (simp add: has_sha_def assms(1))
  then show "ledger (s\<lparr>certs := update_where P f (certs s)\<rparr>) h = map_option (g h) (ledger s h)"
    using assms(2) by (cases "find (has_sha h) (certs s)") (auto simp: ledger_def has_sha_def dest!: find_SomeD)
qed

lemma map_at: "(\<lambda>h'. map_option (\<lambda>e. if h' = h then f e else e) (m h')) =
    (case m h of None \<Rightarrow> m | Some e \<Rightarrow> m(h \<mapsto> f e))"
  by (rule ext) (auto split: option.split simp: map_option_case)

text \<open>The same for a single digest.\<close>

lemma ledger_update_at:
  assumes "\<And>r. c_sha256 (f r) = c_sha256 r" and "\<And>r. entry_of (f r) = g (entry_of r)"
  shows "ledger (s\<lparr>certs := update_where (has_sha h) f (certs s)\<rparr>) =
    (case ledger s h of None \<Rightarrow> ledger s | Some e \<Rightarrow> (ledger s)(h \<mapsto> g e))"
  using ledger_update [of f "has_sha h" "\<lambda>h' e. if h' = h then g e else e" s] assms
  by (simp add: has_sha_def map_at)

lemma ledger_pool_mark:
  "ledger (s\<lparr>certs := update_where (has_sha h) (\<lambda>r. r\<lparr>c_pool := True\<rparr>) (certs s)\<rparr>) =
     (case ledger s h of None \<Rightarrow> ledger s | Some e \<Rightarrow> (ledger s)(h \<mapsto> e\<lparr>en_pool := True\<rparr>))"
  by (rule ledger_update_at) (simp_all add: entry_of_def)

lemma ledger_SavePoolCert:
  "ledger (fst (SavePoolCert H now a s)) = upsert H False True (\<lambda>e. e\<lparr>en_pool := True\<rparr>) a (ledger s)"
  using ledger_insert [of s H now False True a]
  by (auto simp: SavePoolCert_def upsert_def Let_def listed_iff ledger_pool_mark split: option.splits)

lemma ledger_ImportTrustedCert:
  "ledger (fst (ImportTrustedCert H now a s)) =
     upsert H True True (imported (a_source a)) a (mark_pool (SHA256Hex H (a_der a)) (ledger s))"
proof -
  let ?h = "SHA256Hex H (a_der a)"
  let ?s1 = "s\<lparr>certs := update_where (has_sha ?h) (\<lambda>r. r\<lparr>c_pool := True\<rparr>) (certs s)\<rparr>"
  have s1: "ledger ?s1 = mark_pool ?h (ledger s)" by (simp add: ledger_pool_mark mark_pool_def)
  have trust: "ledger (?s1\<lparr>certs := update_where (has_sha ?h)
        (\<lambda>r. r\<lparr>c_trusted := True, c_source := Some (a_source a)\<rparr>) (certs ?s1)\<rparr>) =
      (case ledger ?s1 ?h of None \<Rightarrow> ledger ?s1
       | Some e \<Rightarrow> (ledger ?s1)(?h \<mapsto> e\<lparr>en_trusted := True, en_source := Some (a_source a)\<rparr>))"
    by (rule ledger_update_at) (simp_all add: entry_of_def)
  show ?thesis
  proof (cases "find (has_sha ?h) (certs ?s1)")
    case None
    then have "ledger ?s1 ?h = None" by (simp add: ledger_def)
    with None ledger_insert [of ?s1 H now True True a] show ?thesis
      by (simp add: ImportTrustedCert_def Let_def upsert_def s1 [symmetric])
  next
    case (Some r)
    then have "ledger ?s1 ?h = Some (entry_of r)" by (simp add: ledger_def)
    moreover from this have "(ledger ?s1)(?h \<mapsto> entry_of r) = ledger ?s1" by (simp add: fun_upd_idem)
    ultimately show ?thesis using Some trust
      by (auto simp: ImportTrustedCert_def Let_def upsert_def imported_def entry_of_def s1 [symmetric])
  qed
qed

lemma ledger_WithdrawBundleRoots:
  "ledger (fst (WithdrawBundleRoots source keep s)) = (\<lambda>h. map_option (withdraw_entry source keep h) (ledger s h))"
  unfolding WithdrawBundleRoots_def fst_conv
  by (rule ledger_update) (auto simp: withdrawn_def withdraw_entry_def entry_of_def)

lemma ledger_SetTrusted:
  "ledger (fst (SetTrusted h t s)) =
     (case ledger s (to_upper h) of None \<Rightarrow> ledger s | Some e \<Rightarrow> (ledger s)(to_upper h \<mapsto> e\<lparr>en_trusted := t\<rparr>))"
proof -
  have "fst (SetTrusted h t s) = s\<lparr>certs := update_where (has_sha (to_upper h)) (\<lambda>r. r\<lparr>c_trusted := t\<rparr>) (certs s)\<rparr>"
    by (simp add: SetTrusted_def Let_def)
  then show ?thesis using ledger_update_at [of "\<lambda>r. r\<lparr>c_trusted := t\<rparr>" "\<lambda>e. e\<lparr>en_trusted := t\<rparr>" "to_upper h" s]
    by (simp add: entry_of_def)
qed

lemma ledger_certs: "certs t = certs s \<Longrightarrow> ledger t = ledger s"
  by (simp add: ledger_def)

lemmas ledger_ops = ledger_SaveCert ledger_SavePoolCert ledger_ImportTrustedCert ledger_WithdrawBundleRoots ledger_SetTrusted

lemma ledger_apply_op: "ledger (apply_op H op s) = ledger_op H op (ledger s)"
  by (cases op) (simp_all add: ledger_ops, simp_all add: ledger_def)

lemma ledger_run: "ledger (fold (apply_op H) ops s) = fold (ledger_op H) ops (ledger s)"
  by (induction ops arbitrary: s) (simp_all add: ledger_apply_op)

lemma trust_in_ledger: "IsCertTrusted h s = ledger_trusts (ledger s) h"
  by (auto simp: IsCertTrusted_def ledger_trusts_def ledger_def entry_of_def split: option.split)

text \<open>
  Property C12. The table of certificates refines a map from digests to entries: after any sequence of operations of the
  store, the map of its rows is what the operations on the map give; what \<open>IsCertTrusted\<close> answers, whether
  \<open>SetTrusted\<close> finds its certificate and whether an import trusted its root are read off the map.
\<close>

theorem certs_refine_ledger:
  "ledger (fold (apply_op H) ops s) = fold (ledger_op H) ops (ledger s)
   \<and> IsCertTrusted h (fold (apply_op H) ops s) = ledger_trusts (fold (ledger_op H) ops (ledger s)) h
   \<and> (snd (SetTrusted h t s) = Inr () \<longleftrightarrow> ledger s (to_upper h) \<noteq> None)
   \<and> (snd (ImportTrustedCert H now a s) = Inr True \<longleftrightarrow>
        a_der a \<noteq> [] \<and> map_option en_source (ledger s (SHA256Hex H (a_der a))) \<noteq> Some (Some (a_source a)))"
proof -
  have "snd (SetTrusted h t s) = Inr () \<longleftrightarrow> ledger s (to_upper h) \<noteq> None"
    by (auto simp: SetTrusted_def Let_def listed_iff)
  moreover have "snd (ImportTrustedCert H now a s) = Inr True \<longleftrightarrow>
        a_der a \<noteq> [] \<and> map_option en_source (ledger s (SHA256Hex H (a_der a))) \<noteq> Some (Some (a_source a))"
  proof -
    have "find (has_sha x) (update_where (has_sha x) (\<lambda>r. r\<lparr>c_pool := True\<rparr>) rs) =
        map_option (\<lambda>r. if has_sha x r then r\<lparr>c_pool := True\<rparr> else r) (find (has_sha x) rs)" for x rs
      by (rule find_update_where) (simp add: has_sha_def)
    then show ?thesis
      by (cases "find (has_sha (SHA256Hex H (a_der a))) (certs s)")
        (auto simp: ImportTrustedCert_def Let_def ledger_def entry_of_def)
  qed
  ultimately show ?thesis by (simp add: ledger_run trust_in_ledger)
qed

end
