(* ===== verification/Trust_Laws.thy ===== *)
theory Trust_Laws
  imports Trust Ledger
begin

text \<open>
  \<open>splitPEM\<close> finds the blocks of a bundle; after the import of a bundle exactly the certificates it should make
  trusted are trusted, and an administrator's untrust survives every restart; what \<open>toggleTrust\<close> changes.
\<close>

section \<open>The blocks of a bundle\<close>

lemma index_of_skip:
  assumes "c \<notin> set junk"
  shows "index_of (c # p) (junk @ s) = map_option (\<lambda>i. length junk + i) (index_of (c # p) s)"
  using assms by (cases "index_of (c # p) s"; induction junk) (auto simp: has_prefix_def)

lemma index_of_here: "index_of p (p @ s) = Some 0"
  by (cases p; cases s) (auto simp: has_prefix_def)

lemma index_of_empty: "p \<noteq> [] \<Longrightarrow> index_of p [] = None"
  by simp

definition dash :: byte where "dash = 45"

lemma pem_begin_dash: "pem_begin = dash # tl pem_begin"
  by (simp add: pem_begin_def bytes_of_def dash_def)

lemma pem_end_dash: "pem_end = dash # tl pem_end"
  by (simp add: pem_end_def bytes_of_def dash_def)

lemma pem_not_empty [simp]: "pem_begin \<noteq> []" "pem_end \<noteq> []"
  by (simp_all add: pem_begin_def pem_end_def bytes_of_def)

text \<open>No last line begins inside a first line that a line break follows.\<close>

lemma end_after_begin:
  "index_of pem_end (pem_begin @ 10 # s) = map_option (\<lambda>i. length pem_begin + 1 + i) (index_of pem_end s)"
  by (simp add: pem_begin_def pem_end_def bytes_of_def has_prefix_def option.map_comp o_def)

text \<open>A block: its lines, and the bytes before it.\<close>

definition pem_text :: "bytes \<times> bytes \<Rightarrow> bytes" where
  "pem_text = (\<lambda>(before, body). before @ pem_begin @ 10 # body @ pem_end)"

lemma splitPEM_block:
  assumes "dash \<notin> set before" and "dash \<notin> set body"
  shows "splitPEM (pem_text (before, body) @ rest) = (pem_begin @ 10 # body @ pem_end) # splitPEM rest"
proof -
  let ?data = "pem_text (before, body) @ rest"
  have i: "index_of pem_begin ?data = Some (length before)"
    using index_of_skip [OF assms(1), of "tl pem_begin"]
    by (simp add: pem_text_def pem_begin_dash [symmetric] index_of_here)
  have "index_of pem_end (pem_begin @ 10 # body @ pem_end @ rest) = Some (length pem_begin + 1 + length body)"
    using index_of_skip [OF assms(2), of "tl pem_end"]
    by (simp add: end_after_begin pem_end_dash [symmetric] index_of_here)
  then have j: "index_of pem_end (drop (length before) ?data) = Some (length pem_begin + 1 + length body)"
    by (simp add: pem_text_def)
  show ?thesis
    by (subst splitPEM.simps) (simp only: i j option.case, simp add: pem_text_def)
qed

lemma splitPEM_blocks:
  assumes "list_all (\<lambda>(before, body). dash \<notin> set before \<and> dash \<notin> set body) blocks" and "dash \<notin> set tail"
  shows "splitPEM (concat (map pem_text blocks) @ tail) = map (\<lambda>(before, body). pem_begin @ 10 # body @ pem_end) blocks"
  using assms(1)
proof (induction blocks)
  case Nil
  have "index_of pem_begin tail = None"
    using index_of_skip [OF assms(2), of "tl pem_begin" "[]"] by (simp add: pem_begin_dash [symmetric])
  then show ?case by (subst splitPEM.simps) simp
next
  case (Cons b blocks)
  obtain before body where "b = (before, body)" by force
  with Cons show ?case by (simp add: splitPEM_block)
qed

text \<open>
  \<open>splitPEM\<close> finds every block of a bundle, in order and byte for byte, whatever stands between the
  blocks, as long as no dash occurs there or in a block's body.
\<close>

theorem splitPEM_round_trip:
  assumes "list_all (\<lambda>(before, body). dash \<notin> set before \<and> dash \<notin> set body) blocks" and "dash \<notin> set tail"
  shows "splitPEM (concat (map pem_text blocks) @ tail) = map (\<lambda>(before, body). pem_begin @ 10 # body @ pem_end) blocks"
  using assms by (rule splitPEM_blocks)

lemma splitPEM_round_trip_witness:
  "splitPEM (concat (map pem_text [([35, 10], [77, 73]), ([], [])]) @ [10]) =
     [pem_begin @ [10, 77, 73] @ pem_end, pem_begin @ [10] @ pem_end]"
  using splitPEM_round_trip [of "[([35, 10], [77, 73]), ([], [])]" "[10]"] by (simp add: dash_def)

section \<open>The import of a bundle\<close>

definition bundle_certs :: "('c, 'l, 'o, 's) minipki \<Rightarrow> bytes list \<Rightarrow> CertInfo list" where
  "bundle_certs mp blocks = List.map_filter (\<lambda>b. case ParseCertInfo mp b of Inl e \<Rightarrow> None | Inr c \<Rightarrow> Some c) blocks"

definition bundle_roots :: "hashes \<Rightarrow> CertInfo list \<Rightarrow> string list" where
  "bundle_roots H cs = map (\<lambda>c. SHA256Hex H (DER c)) (filter IsSelfSigned cs)"

text \<open>One certificate of a bundle on the ledger.\<close>

definition bundle_op :: "hashes \<Rightarrow> string \<Rightarrow> CertInfo \<Rightarrow> ledger \<Rightarrow> ledger" where
  "bundle_op H source c m =
     (if IsSelfSigned c then ledger_op H (Op_ImportTrustedCert 0 (args_of c source)) m
      else ledger_op H (Op_SavePoolCert 0 (args_of c source)) m)"

lemma import_blocks_ledger:
  "ledger (b_store (import_blocks mp H clock source i blocks b)) =
     fold (bundle_op H source) (bundle_certs mp blocks) (ledger (b_store b))
   \<and> b_roots (import_blocks mp H clock source i blocks b) = b_roots b @ bundle_roots H (bundle_certs mp blocks)"
proof (induction blocks arbitrary: i b)
  case Nil
  then show ?case by (simp add: bundle_certs_def bundle_roots_def map_filter_simps)
next
  case (Cons block blocks)
  have root: "ledger (b_store (import_root H now source c b)) = bundle_op H source c (ledger (b_store b))
      \<and> b_roots (import_root H now source c b) = b_roots b @ [SHA256Hex H (DER c)]" if "IsSelfSigned c" for c now
    using that ledger_ImportTrustedCert [of H now "args_of c source" "b_store b"]
    by (auto simp: import_root_def bundle_op_def split: prod.split)
  have other: "ledger (b_store (import_other H now source c b)) = bundle_op H source c (ledger (b_store b))
      \<and> b_roots (import_other H now source c b) = b_roots b" if "\<not> IsSelfSigned c" for c now
    using that by (simp add: import_other_def bundle_op_def ledger_SavePoolCert)
  show ?case
  proof (cases "ParseCertInfo mp block")
    case (Inl e)
    with Cons show ?thesis by (simp add: bundle_certs_def map_filter_simps)
  next
    case (Inr c)
    then have cs: "bundle_certs mp (block # blocks) = c # bundle_certs mp blocks"
      by (simp add: bundle_certs_def map_filter_simps)
    show ?thesis
      by (cases "IsSelfSigned c") (simp_all add: Inr cs Cons root other bundle_roots_def)
  qed
qed

text \<open>What decides on trust in an entry.\<close>

definition trust_view :: "ledger \<Rightarrow> string \<Rightarrow> (string option \<times> bool \<times> bool) option" where
  "trust_view m h = map_option (\<lambda>e. (en_source e, en_self e, en_trusted e)) (m h)"

fun import_view :: "string \<Rightarrow> (string option \<times> bool \<times> bool) option \<Rightarrow> (string option \<times> bool \<times> bool) option" where
  "import_view source None = Some (Some source, True, True)"
| "import_view source (Some (s, self, t)) = (if s \<noteq> Some source then Some (Some source, self, True) else Some (s, self, t))"

lemma import_view_idem [simp]: "import_view source (import_view source v) = import_view source v"
  by (cases v) auto

lemma trust_view_root:
  assumes "IsSelfSigned c" and "DER c \<noteq> []"
  shows "trust_view (bundle_op H source c m) h =
    (if h = SHA256Hex H (DER c) then import_view source (trust_view m h) else trust_view m h)"
  using assms
  by (auto simp: bundle_op_def trust_view_def upsert_def mark_pool_def args_of_def imported_def new_ledger_entry_def
      split: option.split)

lemma trust_view_other:
  assumes "\<not> IsSelfSigned c" and "DER c \<noteq> []"
  shows "trust_view (bundle_op H source c m) h =
    (if h = SHA256Hex H (DER c) \<and> trust_view m h = None then Some (Some source, False, False) else trust_view m h)"
  using assms by (auto simp: bundle_op_def trust_view_def upsert_def args_of_def new_ledger_entry_def split: option.split)

lemma trust_view_import_root:
  assumes "list_all (\<lambda>c. DER c \<noteq> [] \<and> (\<not> IsSelfSigned c \<longrightarrow> SHA256Hex H (DER c) \<noteq> h)) cs"
  shows "trust_view (fold (bundle_op H source) cs m) h =
    (if h \<in> set (bundle_roots H cs) then import_view source (trust_view m h) else trust_view m h)"
  using assms
proof (induction cs arbitrary: m)
  case (Cons c cs)
  then show ?case
    by (cases "IsSelfSigned c") (auto simp: trust_view_root trust_view_other bundle_roots_def)
qed (simp add: bundle_roots_def)

lemma trust_view_import_other:
  assumes "list_all (\<lambda>c. DER c \<noteq> []) cs" and "h \<notin> set (bundle_roots H cs)"
  shows "trust_view (fold (bundle_op H source) cs m) h = trust_view m h
    \<or> trust_view m h = None \<and> trust_view (fold (bundle_op H source) cs m) h = Some (Some source, False, False)"
  using assms
proof (induction cs arbitrary: m)
  case (Cons c cs)
  from Cons.prems have rest: "list_all (\<lambda>c. DER c \<noteq> []) cs" "h \<notin> set (bundle_roots H cs)"
    by (auto simp: bundle_roots_def)
  show ?case
    using Cons.IH [OF rest, of "bundle_op H source c m"] Cons.prems
    by (cases "IsSelfSigned c") (auto simp: trust_view_root trust_view_other bundle_roots_def split: if_splits)
qed simp

text \<open>What the import of one bundle leaves of an entry.\<close>

fun withdraw_view :: "string \<Rightarrow> (string option \<times> bool \<times> bool) option \<Rightarrow> (string option \<times> bool \<times> bool) option" where
  "withdraw_view source None = None"
| "withdraw_view source (Some (s, self, t)) =
     (if s = Some source \<and> self then Some (Some (source @ '':removed''), self, False) else Some (s, self, t))"

definition good_bundle :: "hashes \<Rightarrow> CertInfo list \<Rightarrow> bool" where
  "good_bundle H cs \<longleftrightarrow>
     list_all (\<lambda>c. DER c \<noteq> [] \<and> (\<not> IsSelfSigned c \<longrightarrow> SHA256Hex H (DER c) \<notin> set (bundle_roots H cs))) cs"

lemma importBundle_ledger:
  assumes "cs = bundle_certs mp (splitPEM data)" and "bundle_roots H cs \<noteq> []"
  shows "ledger (importBundle mp H clock data source s) =
     (\<lambda>h. map_option (withdraw_entry source (bundle_roots H cs) h) (fold (bundle_op H source) cs (ledger s) h))"
  using import_blocks_ledger [of mp H clock source 0 "splitPEM data" "\<lparr>b_roots = [], b_trusted = 0, b_store = s\<rparr>"] assms
  by (simp add: importBundle_def ledger_WithdrawBundleRoots)

lemma importBundle_view:
  assumes "cs = bundle_certs mp (splitPEM data)" and "bundle_roots H cs \<noteq> []" and "good_bundle H cs"
  shows "trust_view (ledger (importBundle mp H clock data source s)) h =
     (if h \<in> set (bundle_roots H cs) then import_view source (trust_view (ledger s) h)
      else withdraw_view source (trust_view (ledger s) h))
   \<or> h \<notin> set (bundle_roots H cs) \<and> trust_view (ledger s) h = None
     \<and> trust_view (ledger (importBundle mp H clock data source s)) h = Some (Some source, False, False)"
proof -
  let ?roots = "bundle_roots H cs" and ?m = "fold (bundle_op H source) cs (ledger s)"
  have ders: "list_all (\<lambda>c. DER c \<noteq> []) cs" using assms(3) by (auto simp: good_bundle_def list_all_iff)
  have view: "trust_view (ledger (importBundle mp H clock data source s)) h =
      (if h \<in> set ?roots then trust_view ?m h else withdraw_view source (trust_view ?m h))"
    using assms(2) unfolding importBundle_ledger [OF assms(1,2)]
    by (cases "?m h") (auto simp: trust_view_def withdraw_entry_def)
  show ?thesis
  proof (cases "h \<in> set ?roots")
    case True
    then have "list_all (\<lambda>c. DER c \<noteq> [] \<and> (\<not> IsSelfSigned c \<longrightarrow> SHA256Hex H (DER c) \<noteq> h)) cs"
      using assms(3) by (auto simp: good_bundle_def list_all_iff)
    from trust_view_import_root [OF this, of source "ledger s"] True show ?thesis by (simp add: view)
  next
    case False
    from trust_view_import_other [OF ders False, of source "ledger s"] False show ?thesis by (auto simp: view)
  qed
qed

lemma trusted_view: "IsCertTrusted h s = (case trust_view (ledger s) (to_upper h) of Some (_, _, t) \<Rightarrow> t | None \<Rightarrow> False)"
  by (simp add: trust_in_ledger ledger_trusts_def trust_view_def split: option.split)

text \<open>
  Property C13. After the import of a bundle with a root, on any store: a root of the bundle is trusted unless the
  same bundle brought it before and it was untrusted since; a root the bundle brought before and has no longer is not
  trusted; the trust of every other certificate is what it was.
\<close>

theorem import_trusts_exactly:
  assumes "cs = bundle_certs mp (splitPEM data)" and "bundle_roots H cs \<noteq> []" and "good_bundle H cs"
  shows "IsCertTrusted h (importBundle mp H clock data source s) =
     (case ledger s (to_upper h) of
        None \<Rightarrow> to_upper h \<in> set (bundle_roots H cs)
      | Some e \<Rightarrow>
          if to_upper h \<in> set (bundle_roots H cs) then en_source e \<noteq> Some source \<or> en_trusted e
          else en_trusted e \<and> \<not> (en_source e = Some source \<and> en_self e))"
  using importBundle_view [OF assms, of clock source s "to_upper h"] unfolding trusted_view
  by (cases "ledger s (to_upper h)") (auto simp: trust_view_def split: if_splits)

lemma known_root_kept:
  assumes "cs = bundle_certs mp (splitPEM data)" and "bundle_roots H cs \<noteq> []" and "good_bundle H cs"
    and "trust_view (ledger s) h = Some (Some src, self, t)" and "src = source \<longleftrightarrow> h \<in> set (bundle_roots H cs)"
  shows "trust_view (ledger (importBundle mp H clock data source s)) h = Some (Some src, self, t)"
  using importBundle_view [OF assms(1-3), of clock source s h] assms(4,5) by (auto split: if_splits)

text \<open>
  What the administrator decided on a root that is filed under the bundle it is in, or on a certificate of
  no bundle, holds over any number of restarts with the same bundles.
\<close>

theorem restarts_keep_decision:
  assumes "cs1 = bundle_certs mp (splitPEM mozilla)" and "bundle_roots H cs1 \<noteq> []" and "good_bundle H cs1"
    and "cs2 = bundle_certs mp (splitPEM russian)" and "bundle_roots H cs2 \<noteq> []" and "good_bundle H cs2"
    and "map_option en_source (ledger s (to_upper h)) = Some (Some src)"
    and "src = ''mozilla'' \<longleftrightarrow> to_upper h \<in> set (bundle_roots H cs1)"
    and "src = ''ru-gov'' \<longleftrightarrow> to_upper h \<in> set (bundle_roots H cs2)"
  shows "IsCertTrusted h (fold (\<lambda>(clock1, clock2). ImportDefaults mp H clock1 clock2 mozilla russian) clocks s)
    = IsCertTrusted h s"
proof -
  obtain self t where v: "trust_view (ledger s) (to_upper h) = Some (Some src, self, t)"
    using assms(7) by (auto simp: trust_view_def)
  have "trust_view (ledger (fold (\<lambda>(clock1, clock2). ImportDefaults mp H clock1 clock2 mozilla russian) clocks s)) (to_upper h)
      = Some (Some src, self, t)"
    using v
  proof (induction clocks arbitrary: s)
    case (Cons c clocks)
    obtain clock1 clock2 where c: "c = (clock1, clock2)" by force
    note first = known_root_kept [OF assms(1-3) Cons.prems assms(8)]
    note both = known_root_kept [OF assms(4-6) first assms(9)]
    show ?case using Cons.IH [OF both] by (simp add: c ImportDefaults_def)
  qed simp
  with v show ?thesis by (simp add: trusted_view)
qed

section \<open>The administrator\<close>

lemma SetTrusted_effect:
  assumes "SetTrusted sha on s1 = (s2, r)"
  shows "crls s2 = crls s1 \<and> crl_urls s2 = crl_urls s1 \<and> ocsps s2 = ocsps s1"
    and "r = Inr u \<Longrightarrow> ledger s2 (to_upper sha) \<noteq> None
       \<and> IsCertTrusted h s2 = (if to_upper h = to_upper sha then on else IsCertTrusted h s1)"
    and "r = Inl e \<Longrightarrow> IsCertTrusted h s2 = IsCertTrusted h s1"
proof -
  show "crls s2 = crls s1 \<and> crl_urls s2 = crl_urls s1 \<and> ocsps s2 = ocsps s1"
    using assms by (auto simp: SetTrusted_def Let_def split: if_splits)
  have led: "ledger s2 = (case ledger s1 (to_upper sha) of None \<Rightarrow> ledger s1
      | Some e \<Rightarrow> (ledger s1)(to_upper sha \<mapsto> e\<lparr>en_trusted := on\<rparr>))"
    using ledger_SetTrusted [of sha on s1] assms by simp
  have hit: "ledger s1 (to_upper sha) \<noteq> None \<longleftrightarrow> (\<exists>u. r = Inr u)"
    using assms by (auto simp: SetTrusted_def Let_def listed_iff split: if_splits)
  show "ledger s2 (to_upper sha) \<noteq> None \<and> IsCertTrusted h s2 = (if to_upper h = to_upper sha then on else IsCertTrusted h s1)"
    if "r = Inr u"
    using led hit that by (auto simp: trust_in_ledger ledger_trusts_def)
  show "IsCertTrusted h s2 = IsCertTrusted h s1" if "r = Inl e"
    using led hit that by (auto simp: trust_in_ledger)
qed

lemma SaveCert_others:
  "crls (SaveCert H now a s) = crls s" "crl_urls (SaveCert H now a s) = crl_urls s" "ocsps (SaveCert H now a s) = ocsps s"
  by (simp_all add: SaveCert_def)

lemma toggleTrust_cases:
  assumes "toggleTrust mp H now on ctype body s cs = (answer, s', cs')"
  obtains (refused) e where "answer = Inl e" "s' = s" "cs' = cs"
  | (asked) sha der s1 r where "body = Some (sha, der)" "has_prefix ctype ''application/json''"
      "s1 = s \<or> (\<exists>c. on \<and> equal_fold (SHA256Hex H (DER c)) sha \<and> s1 = SaveCert H now (args_of c ''admin'') s)"
      "SetTrusted sha on s1 = (s', r)"
      "case r of Inl e \<Rightarrow> (\<exists>e. answer = Inl e) \<and> cs' = cs | Inr _ \<Rightarrow> answer = Inr on \<and> cs' = purge_all cs"
proof (cases "\<exists>e. answer = Inl e \<and> s' = s \<and> cs' = cs")
  case True
  then show ?thesis using refused by blast
next
  case False
  then have ctype: "has_prefix ctype ''application/json''" using assms by (auto simp: toggleTrust_def split: if_splits)
  with False assms obtain sha der where body: "body = Some (sha, der)" "sha \<noteq> ''''"
    by (auto simp: toggleTrust_def split: option.splits if_splits)
  with ctype assms have run: "(case (if on \<and> der \<noteq> []
        then (case ParseCertInfo mp der of
                Inl e \<Rightarrow> Inl (400, ''certificate does not match sha256'')
              | Inr info \<Rightarrow>
                  if \<not> equal_fold (SHA256Hex H (DER info)) sha then Inl (400, ''certificate does not match sha256'')
                  else Inr (SaveCert H now (args_of info ''admin'') s))
        else Inr s) of
      Inl answer \<Rightarrow> (Inl answer, s, cs)
    | Inr s1 \<Rightarrow> (case SetTrusted sha on s1 of
        (s2, Inl e) \<Rightarrow> (Inl (404, db_text e), s2, cs) | (s2, Inr _) \<Rightarrow> (Inr on, s2, purge_all cs))) = (answer, s', cs')"
    by (simp add: toggleTrust_def)
  obtain s1 where s1: "s1 = s \<or> (\<exists>c. on \<and> equal_fold (SHA256Hex H (DER c)) sha \<and> s1 = SaveCert H now (args_of c ''admin'') s)"
    and set: "(case SetTrusted sha on s1 of
        (s2, Inl e) \<Rightarrow> (Inl (404, db_text e), s2, cs) | (s2, Inr _) \<Rightarrow> (Inr on, s2, purge_all cs)) = (answer, s', cs')"
    using run False by (auto split: if_splits sum.splits)
  obtain s2 r where r: "SetTrusted sha on s1 = (s2, r)" by fastforce
  with set have "s2 = s'" by (auto split: sum.splits)
  moreover from r set have "case r of Inl e \<Rightarrow> (\<exists>e. answer = Inl e) \<and> cs' = cs | Inr _ \<Rightarrow> answer = Inr on \<and> cs' = purge_all cs"
    by (auto split: sum.splits)
  ultimately show ?thesis using asked body ctype s1 r by blast
qed

lemma equal_fold_upper: "equal_fold s t \<Longrightarrow> to_upper s = to_upper t"
proof -
  have "upper_char c = upper_char (lower_char c)" for c
    by (auto simp: upper_char_def lower_char_def Let_def)
  then show "equal_fold s t \<Longrightarrow> to_upper s = to_upper t"
    by (metis (no_types, lifting) equal_fold_def list.map_comp list.map_cong0 o_apply to_lower_def to_upper_def)
qed

lemma SetTrusted_refused: "SetTrusted sha on s1 = (s2, Inl e) \<Longrightarrow> s2 = s1 \<and> ledger s1 (to_upper sha) = None"
proof -
  assume a: "SetTrusted sha on s1 = (s2, Inl e)"
  then have none: "\<not> list_ex (has_sha (to_upper sha)) (certs s1)" by (auto simp: SetTrusted_def Let_def split: if_splits)
  then have "update_where (has_sha (to_upper sha)) f (certs s1) = certs s1" for f
    by (auto simp: update_where_def list_ex_iff intro!: map_idI)
  with a none show "s2 = s1 \<and> ledger s1 (to_upper sha) = None"
    by (auto simp: SetTrusted_def Let_def listed_iff)
qed

text \<open>A certificate given with the request is in the store once it was saved, under the digest of the request.\<close>

lemma saved_for_trust:
  assumes "equal_fold (SHA256Hex H (DER c)) sha"
  shows "ledger (SaveCert H now (args_of c ''admin'') s) (to_upper sha) = None \<Longrightarrow> SaveCert H now (args_of c ''admin'') s = s"
    and "h \<noteq> to_upper sha \<Longrightarrow> ledger (SaveCert H now (args_of c ''admin'') s) h = ledger s h"
    and "ledger s (to_upper sha) = Some e \<Longrightarrow> ledger (SaveCert H now (args_of c ''admin'') s) (to_upper sha) = Some e"
    and "ledger s (to_upper sha) = None \<Longrightarrow> ledger (SaveCert H now (args_of c ''admin'') s) (to_upper sha) = Some e
      \<Longrightarrow> SHA256Hex H (en_der e) = to_upper sha"
proof -
  have sha: "SHA256Hex H (DER c) = to_upper sha" using equal_fold_upper [OF assms] by simp
  show "ledger (SaveCert H now (args_of c ''admin'') s) (to_upper sha) = None \<Longrightarrow> SaveCert H now (args_of c ''admin'') s = s"
    by (simp add: ledger_SaveCert upsert_def sha args_of_def split: if_splits) (simp add: SaveCert_def)
  show "h \<noteq> to_upper sha \<Longrightarrow> ledger (SaveCert H now (args_of c ''admin'') s) h = ledger s h"
    "ledger s (to_upper sha) = Some e \<Longrightarrow> ledger (SaveCert H now (args_of c ''admin'') s) (to_upper sha) = Some e"
    "ledger s (to_upper sha) = None \<Longrightarrow> ledger (SaveCert H now (args_of c ''admin'') s) (to_upper sha) = Some e
      \<Longrightarrow> SHA256Hex H (en_der e) = to_upper sha"
    by (auto simp: ledger_SaveCert upsert_def sha args_of_def new_ledger_entry_def split: if_splits option.splits)
qed

text \<open>
  Property C15. A request to change trust that is answered with success sets exactly the trust of the certificate it
  names: its row keeps everything else, or is that of the certificate given with the request, which then has the digest
  named; every other certificate's row, every CRL and every OCSP response stays, and both caches of the listener, that
  of analyses and that of sites, are empty. Any other answer leaves the store and the caches as they were.
\<close>

theorem toggle_sets_one_trust:
  assumes "toggleTrust mp H now on ctype body s cs = (answer, s', cs')"
  shows "case answer of
      Inr t \<Rightarrow> \<exists>sha der e. body = Some (sha, der) \<and> t = on \<and> has_prefix ctype ''application/json''
         \<and> ledger s' (to_upper sha) = Some e \<and> en_trusted e = on
         \<and> (case ledger s (to_upper sha) of Some old \<Rightarrow> e = old\<lparr>en_trusted := on\<rparr>
            | None \<Rightarrow> on \<and> SHA256Hex H (en_der e) = to_upper sha)
         \<and> (\<forall>h. h \<noteq> to_upper sha \<longrightarrow> ledger s' h = ledger s h)
         \<and> (\<forall>h. IsCertTrusted h s' = (if to_upper h = to_upper sha then on else IsCertTrusted h s))
         \<and> crls s' = crls s \<and> crl_urls s' = crl_urls s \<and> ocsps s' = ocsps s
         \<and> c_entries (analysisCache cs') = []
         \<and> (siteCache cs' = None \<longleftrightarrow> siteCache cs = None) \<and> (\<forall>c. siteCache cs' = Some c \<longrightarrow> c_entries c = [])
    | Inl _ \<Rightarrow> s' = s \<and> cs' = cs"
  using assms
proof (cases rule: toggleTrust_cases)
  case (refused e)
  then show ?thesis by simp
next
  case (asked sha der s1 r)
  let ?u = "to_upper sha"
  have s1: "crls s1 = crls s \<and> crl_urls s1 = crl_urls s \<and> ocsps s1 = ocsps s" "IsCertTrusted h s1 = IsCertTrusted h s"
    "h \<noteq> ?u \<Longrightarrow> ledger s1 h = ledger s h" "ledger s ?u = Some e \<Longrightarrow> ledger s1 ?u = Some e"
    "ledger s ?u = None \<Longrightarrow> ledger s1 ?u = Some e \<Longrightarrow> on \<and> SHA256Hex H (en_der e) = ?u" "ledger s1 ?u = None \<Longrightarrow> s1 = s" for h e
    using asked(3) by (auto simp: SaveCert_others trust_simps saved_for_trust)
  show ?thesis
  proof (cases r)
    case (Inl e)
    with SetTrusted_refused [of sha on s1 s' e] asked(4,5) s1(6) show ?thesis by auto
  next
    case (Inr u)
    note effect = SetTrusted_effect [OF asked(4)]
    have "ledger s' = (case ledger s1 ?u of None \<Rightarrow> ledger s1 | Some e \<Rightarrow> (ledger s1)(?u \<mapsto> e\<lparr>en_trusted := on\<rparr>))"
      using ledger_SetTrusted [of sha on s1] asked(4) by simp
    then obtain e where e: "ledger s1 ?u = Some e" "ledger s' = (ledger s1)(?u \<mapsto> e\<lparr>en_trusted := on\<rparr>)"
      using effect(2) [OF Inr] by (cases "ledger s1 ?u") auto
    have old: "case ledger s ?u of Some old \<Rightarrow> e\<lparr>en_trusted := on\<rparr> = old\<lparr>en_trusted := on\<rparr>
        | None \<Rightarrow> on \<and> SHA256Hex H (en_der (e\<lparr>en_trusted := on\<rparr>)) = ?u"
      using s1(4,5) e(1) by (cases "ledger s ?u") auto
    have trust: "IsCertTrusted h s' = (if to_upper h = ?u then on else IsCertTrusted h s)" for h
      using effect(2) [OF Inr] s1(2) by simp
    have outcome: "answer = Inr on" "cs' = purge_all cs" using asked(5) Inr by simp_all
    have caches: "c_entries (analysisCache cs') = []" "siteCache cs' = None \<longleftrightarrow> siteCache cs = None"
      "\<forall>c. siteCache cs' = Some c \<longrightarrow> c_entries c = []"
      unfolding outcome(2) by (auto simp: purge_all_def purge_def)
    have others: "\<forall>h. h \<noteq> ?u \<longrightarrow> ledger s' h = ledger s h" using e(2) s1(3) by simp
    show ?thesis
      unfolding outcome(1) sum.case
      by (intro exI [of _ sha] exI [of _ der] exI [of _ "e\<lparr>en_trusted := on\<rparr>"] conjI caches others old allI trust asked(1,2) refl)
        (use e(2) s1(1) effect(1) in simp_all)
  qed
qed

end
