(* ===== verification/Trust_Sample.thy ===== *)
theory Trust_Sample
  imports Trust_Laws Chain_Sample
begin

text \<open>
  A bundle of one block in a library that reads every block as the certificate 1, and an administrator who
  untrusts it: the properties of Trust_Laws applied to them.
\<close>

definition bundle_mp :: "(bytes, bytes, bytes, bytes list) minipki" where
  "bundle_mp = sample_mp\<lparr>mp_cert_parse := (\<lambda>d. Inr (if length d = 55 then [1] else [3]))\<rparr>"

definition bundle_data :: "bytes \<Rightarrow> bytes" where
  "bundle_data body = concat (map pem_text [([], body)]) @ [10]"

definition sample_root :: string where
  "sample_root = SHA256Hex sample_hashes [1]"

lemma sample_info_simps: "IsSelfSigned (sample_info [1])" "IsSelfSigned (sample_info [3])"
  "DER (sample_info [1]) = [1]" "DER (sample_info [3]) = [3]"
  by (simp_all add: sample_info_def extractCertInfo_def sample_getters_def got_def)

lemma sample_bundle: "bundle_certs bundle_mp (splitPEM (bundle_data body)) = [sample_info (if length body = 2 then [1] else [3])]"
  if "dash \<notin> set body" for body
proof -
  have "splitPEM (bundle_data body) = [pem_begin @ 10 # body @ pem_end]"
    using splitPEM_blocks [of "[([], body)]" "[10]"] that by (simp add: bundle_data_def dash_def)
  then show ?thesis
    by (simp add: bundle_certs_def map_filter_simps ParseCertInfo_def bundle_mp_def sample_mp_def sample_info_def
        pem_begin_def pem_end_def)
qed

lemma sample_bundle_roots: "bundle_roots sample_hashes [sample_info [1]] = [sample_root]"
  "bundle_roots sample_hashes [sample_info [3]] = [SHA256Hex sample_hashes [3]]"
  by (simp_all add: bundle_roots_def sample_info_simps sample_root_def)

lemma sample_bundle_good: "good_bundle sample_hashes [sample_info [1]]" "good_bundle sample_hashes [sample_info [3]]"
  by (simp_all add: good_bundle_def sample_info_simps)

lemma import_trusts_exactly_witness:
  "IsCertTrusted sample_root (importBundle bundle_mp sample_hashes (\<lambda>_. 0) (bundle_data [77, 73]) ''mozilla'' empty_store)"
  using import_trusts_exactly [of "[sample_info [1]]" bundle_mp "bundle_data [77, 73]" sample_hashes sample_root
      "\<lambda>_. 0" "''mozilla''" empty_store]
  by (simp add: sample_bundle dash_def sample_bundle_roots sample_bundle_good)
    (simp add: sample_root_def)

text \<open>The store in which the administrator untrusted the root of the bundle.\<close>

definition root_store :: store where
  "root_store = fst (ImportTrustedCert sample_hashes 0 (args_of (sample_info [1]) ''mozilla'') empty_store)"

lemma root_ledger: "map_option en_source (ledger root_store sample_root) = Some (Some ''mozilla'')"
  "map_option en_source (ledger (fst (SetTrusted sample_root False root_store)) sample_root) = Some (Some ''mozilla'')"
  "to_upper sample_root = sample_root"
  by (auto simp: root_store_def ledger_ops upsert_def mark_pool_def args_of_def sample_info_simps sample_root_def
      new_ledger_entry_def)

lemma restarts_keep_decision_witness:
  "\<not> IsCertTrusted sample_root
     (fold (\<lambda>(clock1, clock2). ImportDefaults bundle_mp sample_hashes clock1 clock2 (bundle_data [77, 73]) (bundle_data []))
       [(\<lambda>_. 1, \<lambda>_. 2), (\<lambda>_. 3, \<lambda>_. 4)] (fst (SetTrusted sample_root False root_store)))"
proof -
  let ?s = "fst (SetTrusted sample_root False root_store)"
  have "sample_root \<noteq> SHA256Hex sample_hashes [3]"
    by (simp add: sample_root_def SHA256Hex_eq_iff sample_hashes_def)
  then have "IsCertTrusted sample_root
     (fold (\<lambda>(clock1, clock2). ImportDefaults bundle_mp sample_hashes clock1 clock2 (bundle_data [77, 73]) (bundle_data []))
       [(\<lambda>_. 1, \<lambda>_. 2), (\<lambda>_. 3, \<lambda>_. 4)] ?s) = IsCertTrusted sample_root ?s"
    by (intro restarts_keep_decision [of "[sample_info [1]]" _ _ _ "[sample_info [3]]" _ _ _ "''mozilla''"])
      (simp_all add: sample_bundle dash_def sample_bundle_roots sample_bundle_good root_ledger)
  moreover have "\<not> IsCertTrusted sample_root ?s"
    by (cases "ledger root_store sample_root")
      (auto simp: trust_in_ledger ledger_trusts_def ledger_SetTrusted root_ledger split: option.split)
  ultimately show ?thesis by simp
qed

lemma root_untrusted:
  "fst (toggleTrust bundle_mp sample_hashes 0 False ''application/json'' (Some (sample_root, [])) root_store cs) = Inr False"
proof -
  have "length sample_root > 0" by (simp add: sample_root_def length_SHA256Hex sample_hashes_def)
  then have "sample_root \<noteq> []" by blast
  moreover have "list_ex (has_sha (to_upper sample_root)) (certs root_store)"
    using root_ledger(1) by (auto simp: listed_iff root_ledger(3))
  ultimately show ?thesis by (simp add: toggleTrust_def has_prefix_def SetTrusted_def)
qed

lemma toggle_sets_one_trust_witness:
  "case toggleTrust bundle_mp sample_hashes 0 False ''application/json'' (Some (sample_root, [])) root_store
      \<lparr>analysisCache = newRespCache 60 :: (string, unit) cache, siteCache = None :: (string, unit) cache option\<rparr> of
     (answer, s', cs') \<Rightarrow> answer = Inr False \<and> \<not> IsCertTrusted sample_root s'"
proof -
  obtain answer s' cs' where run: "toggleTrust bundle_mp sample_hashes 0 False ''application/json'' (Some (sample_root, [])) root_store
      \<lparr>analysisCache = newRespCache 60 :: (string, unit) cache, siteCache = None :: (string, unit) cache option\<rparr>
      = (answer, s', cs')" using prod_cases3 by blast
  then have "answer = Inr False" using root_untrusted by (metis fst_conv)
  with toggle_sets_one_trust [OF run] show ?thesis by (auto simp: run)
qed

end
