(* ===== verification/Site.thy ===== *)
theory Site
  imports Analyze Hosts
begin

text \<open>
  The certificates of a site (cmd/certview/site.go): the call of certget, the decoding of the chains it returns,
  \<open>doAnalyzeSite\<close> after its admission, and the two endpoints up to the response cache. What is outside the source is
  the record \<open>siteenv\<close>: making and sending the request, decoding JSON and \<open>pem.Decode\<close>.
\<close>

section \<open>certget's answers\<close>

record certgetResult =
  cg_Client :: string
  cg_OK :: bool
  cg_Error :: string
  cg_Chain :: "string list"
  cg_TLSVersion :: string
  cg_CipherSuite :: string
  cg_DurationMs :: int

record certgetResponse =
  cg_FetchedAt :: string
  cg_Host :: string
  cg_IP :: string
  cg_Port :: int
  cg_SNI :: string
  cg_Results :: "certgetResult list"

text \<open>\<open>pem.Decode\<close>: the type and the content of the next block, and the rest of the text.\<close>

type_synonym pem_decoder = "string \<Rightarrow> (string \<times> bytes \<times> string) option"

record 'n siteenv =
  s_request :: "string \<Rightarrow> goerr option"
  s_do :: "string \<Rightarrow> string \<times> string \<Rightarrow> 'n \<Rightarrow> (goerr + int \<times> string \<times> goerr option) \<times> 'n"
  s_json :: "string \<Rightarrow> goerr option \<Rightarrow> goerr + certgetResponse"
  s_pem :: pem_decoder

definition maxErrorBody :: nat where "maxErrorBody = 8192"
definition maxCertgetBody :: nat where "maxCertgetBody = 4194304"

text \<open>
  A body is the text that can be read of it and the error that ends it, if one does. A limited reader stops at its limit,
  before such an error.
\<close>

definition limited_error :: "nat \<Rightarrow> string \<Rightarrow> goerr option \<Rightarrow> goerr option" where
  "limited_error n text err = (if length text < n then err else None)"

text \<open>\<open>callCertget\<close>: the JSON it sends has two fields, the target's URL and the name for SNI.\<close>

definition callCertget :: "'n siteenv \<Rightarrow> string \<Rightarrow> string \<Rightarrow> int \<Rightarrow> string \<Rightarrow> 'n \<Rightarrow> (goerr + certgetResponse) \<times> 'n" where
  "callCertget S certgetURL host port sni n =
     (let url = certgetURL @ ''/fetch'' in
      case s_request S url of
        Some e \<Rightarrow> (Inl e, n)
      | None \<Rightarrow>
          (case s_do S url (''https://'' @ join_host_port host (string_of_int port), sni) n of
             (Inl e, n1) \<Rightarrow> (Inl (Wrapped ''certget: '' e), n1)
           | (Inr (status, body, err), n1) \<Rightarrow>
               if status \<noteq> 200
               then (Inl (text_error (''certget HTTP '' @ string_of_int status @ '': '' @ trim_space (take maxErrorBody body))), n1)
               else (case s_json S (take maxCertgetBody body) (limited_error maxCertgetBody body err) of
                       Inl e \<Rightarrow> (Inl (Wrapped ''certget decode: '' e), n1)
                     | Inr cg \<Rightarrow> (Inr cg, n1))))"

text \<open>The loop of \<open>decodePEMBundle\<close> over one text; each block leaves a shorter rest, so its length is fuel enough.\<close>

fun pem_blocks :: "pem_decoder \<Rightarrow> nat \<Rightarrow> string \<Rightarrow> bytes list" where
  "pem_blocks pem 0 rest = []"
| "pem_blocks pem (Suc k) rest =
     (case pem rest of
        None \<Rightarrow> []
      | Some (type, content, r) \<Rightarrow>
          if type \<noteq> ''CERTIFICATE'' then pem_blocks pem k r else content # pem_blocks pem k r)"

definition decodePEMBundle :: "pem_decoder \<Rightarrow> string list \<Rightarrow> goerr + bytes list" where
  "decodePEMBundle pem blocks =
     (let out = concat (map (\<lambda>block. pem_blocks pem (Suc (length block)) block) blocks) in
      if out = [] then Inl (text_error ''no PEM CERTIFICATE blocks'') else Inr out)"

section \<open>doAnalyzeSite\<close>

record siteResult =
  sr_Client :: string
  sr_OK :: bool
  sr_Error :: string
  sr_TLSVersion :: string
  sr_CipherSuite :: string
  sr_DurationMs :: int
  sr_Analysis :: "response option"

record siteResponse =
  sp_Cached :: bool
  sp_FetchedAt :: string
  sp_Host :: string
  sp_IP :: string
  sp_Port :: int
  sp_SNI :: string
  sp_Results :: "siteResult list"

definition site_result :: "certgetResult \<Rightarrow> siteResult" where
  "site_result r = \<lparr>sr_Client = cg_Client r, sr_OK = cg_OK r, sr_Error = cg_Error r, sr_TLSVersion = cg_TLSVersion r,
     sr_CipherSuite = cg_CipherSuite r, sr_DurationMs = cg_DurationMs r, sr_Analysis = None\<rparr>"

definition site_bag :: "('c, 'l, 'o, 's) minipki \<Rightarrow> bytes list \<Rightarrow> bagCert list" where
  "site_bag mp ds = List.map_filter
     (\<lambda>der. case ParseCertInfo mp der of Inl e \<Rightarrow> None | Inr info \<Rightarrow> Some \<lparr>bc_info = info, bc_source = ''tls''\<rparr>) ds"

text \<open>The leaf came from TLS, not from an upload.\<close>

definition from_tls :: "response \<Rightarrow> response" where
  "from_tls resp = (case r_Chain resp of
     [] \<Rightarrow> resp
   | c # cs \<Rightarrow> resp\<lparr>r_Chain := c\<lparr>c_Source := ''tls''\<rparr> # cs\<rparr>)"

text \<open>The loop over certget's results; every analysis starts a response of its own, without warnings.\<close>

fun site_results :: "('c, 'l, 'o, 's, 'n) env \<Rightarrow> pem_decoder \<Rightarrow> bool \<Rightarrow> certgetResult list \<Rightarrow> 'n world
    \<Rightarrow> ((goerr + siteResult list) \<times> 'n world) option" where
  "site_results E pem isAdmin [] w = Some (Inr [], w)"
| "site_results E pem isAdmin (r # rs) w =
     (let go_on = (\<lambda>sr w1. map_option (\<lambda>(res, w2). (map_sum id ((#) sr) res, w2)) (site_results E pem isAdmin rs w1));
          sr = site_result r in
      if \<not> cg_OK r then go_on sr w
      else case decodePEMBundle pem (cg_Chain r) of
        Inl e \<Rightarrow> go_on (sr\<lparr>sr_OK := False, sr_Error := err_text e\<rparr>) w
      | Inr ds \<Rightarrow>
          if ds = [] then go_on (sr\<lparr>sr_OK := False, sr_Error := ''empty chain''\<rparr>) w
          else (case analyzeData E isAdmin (hd ds) (site_bag (e_mp E) (tl ds)) False (w\<lparr>w_warn := []\<rparr>) of
                  None \<Rightarrow> None
                | Some (Inl e, w1) \<Rightarrow> Some (Inl e, w1)
                | Some (Inr resp, w1) \<Rightarrow> go_on (sr\<lparr>sr_Analysis := Some (from_tls resp)\<rparr>) w1))"

definition doAnalyzeSite :: "('c, 'l, 'o, 's, 'n) env \<Rightarrow> 'n siteenv \<Rightarrow> bool \<Rightarrow> string \<Rightarrow> string \<Rightarrow> int \<Rightarrow> string \<Rightarrow> 'n world
    \<Rightarrow> ((goerr + siteResponse) \<times> 'n world) option" where
  "doAnalyzeSite E S isAdmin certgetURL host port sni w =
     (case callCertget S certgetURL host port sni (w_net w) of
        (Inl e, n) \<Rightarrow> Some (Inl e, w\<lparr>w_net := n\<rparr>)
      | (Inr cg, n) \<Rightarrow>
          map_option (\<lambda>(res, w1). (map_sum id (\<lambda>rs. \<lparr>sp_Cached = False, sp_FetchedAt = cg_FetchedAt cg, sp_Host = cg_Host cg,
              sp_IP = cg_IP cg, sp_Port = cg_Port cg, sp_SNI = cg_SNI cg, sp_Results = rs\<rparr>) res, w1))
            (site_results E (s_pem S) isAdmin (cg_Results cg) (w\<lparr>w_net := n\<rparr>)))"

section \<open>The endpoints\<close>

definition analysis_error :: "goerr \<Rightarrow> 'a answer" where
  "analysis_error e = (case writeAnalysisError e of Some (status, text) \<Rightarrow> HttpError status text | None \<Rightarrow> NoAnswer)"

definition site_key :: "string \<Rightarrow> int \<Rightarrow> string \<Rightarrow> string" where
  "site_key host port sni = host @ ''|'' @ string_of_int port @ ''|'' @ sni"

text \<open>\<open>respondSite\<close>; \<open>get\<close> is \<open>siteCache.get\<close> for the key, with whether the response was cached.\<close>

definition respondSite :: "names \<Rightarrow> string \<Rightarrow> (string \<Rightarrow> goerr + siteResponse \<times> bool) \<Rightarrow> string \<Rightarrow> int \<Rightarrow> string
    \<Rightarrow> siteResponse answer" where
  "respondSite N certgetURL get host port sni =
     (if certgetURL = '''' then HttpError 503 ''site fetch not configured (CERTGET_URL empty)''
      else case check_host N host of
        Some e \<Rightarrow> HttpError 403 (''blocked: '' @ publicError e)
      | None \<Rightarrow>
          (case get (site_key host port sni) of
             Inl e \<Rightarrow> analysis_error e
           | Inr (resp, hit) \<Rightarrow> Answer (if hit then resp\<lparr>sp_Cached := True\<rparr> else resp)))"

text \<open>\<open>analyzeSite\<close> on the decoded body and \<open>analyzeSiteByHostPort\<close> on the path.\<close>

definition analyzeSite :: "names \<Rightarrow> string \<Rightarrow> (string \<Rightarrow> goerr + siteResponse \<times> bool) \<Rightarrow> goerr + string \<Rightarrow> siteResponse answer" where
  "analyzeSite N certgetURL get body =
     (case body of
        Inl e \<Rightarrow> HttpError 400 (''bad request: '' @ err_text e)
      | Inr url \<Rightarrow>
          (case normalizeSiteURL N url of
             Inl e \<Rightarrow> HttpError 400 (err_text e)
           | Inr (host, port) \<Rightarrow> respondSite N certgetURL get host port host))"

definition analyzeSiteByHostPort :: "names \<Rightarrow> string \<Rightarrow> (string \<Rightarrow> goerr + siteResponse \<times> bool) \<Rightarrow> string \<Rightarrow> siteResponse answer" where
  "analyzeSiteByHostPort N certgetURL get hp =
     (if hp = '''' then HttpError 400 ''missing hostport''
      else case splitHostPort N hp of
        Inl e \<Rightarrow> HttpError 400 (err_text e)
      | Inr (host, port) \<Rightarrow> respondSite N certgetURL get host port host)"

end
