(* ===== verification/Site_Laws.thy ===== *)
theory Site_Laws
  imports Site Analysis_Props Total
begin

text \<open>
  What the analysis of a site does to the store, what it reports of every client of certget, that it always ends, and
  which hosts are never asked for.
\<close>

section \<open>PEM\<close>

text \<open>With a decoder whose blocks leave a shorter rest the length of the text is fuel enough: more changes nothing.\<close>

lemma pem_blocks_fuel:
  assumes "\<And>s t c r. pem s = Some (t, c, r) \<Longrightarrow> length r < length s" and "length s < k"
  shows "pem_blocks pem k s = pem_blocks pem (Suc (length s)) s"
  using assms(2)
proof (induction "length s" arbitrary: s k rule: less_induct)
  case less
  then obtain j where k: "k = Suc j" by (cases k) auto
  show ?case
  proof (cases "pem s")
    case (Some b)
    obtain t c r where b: "b = (t, c, r)" by (cases b)
    with Some assms(1) have r: "length r < length s" by blast
    have "pem_blocks pem j r = pem_blocks pem (length s) r"
      using less.hyps [OF r, of j] less.hyps [OF r, of "length s"] less.prems r k by simp
    then show ?thesis by (simp add: k Some b)
  qed (simp add: k)
qed

section \<open>The loop over the clients\<close>

text \<open>What is reported of one of certget's results; \<open>run\<close> is a successful analysis.\<close>

definition reported :: "pem_decoder \<Rightarrow> (bytes list \<Rightarrow> response \<Rightarrow> bool) \<Rightarrow> certgetResult \<Rightarrow> siteResult \<Rightarrow> bool" where
  "reported pem run r sr \<longleftrightarrow> sr_Client sr = cg_Client r \<and>
     (if \<not> cg_OK r then sr = site_result r
      else case decodePEMBundle pem (cg_Chain r) of
        Inl e \<Rightarrow> sr = (site_result r)\<lparr>sr_OK := False, sr_Error := err_text e\<rparr>
      | Inr ds \<Rightarrow> ds \<noteq> [] \<and> (\<exists>resp. run ds resp \<and> sr = (site_result r)\<lparr>sr_Analysis := Some (from_tls resp)\<rparr>))"

definition site_run :: "('c, 'l, 'o, 's, 'n) env \<Rightarrow> bool \<Rightarrow> bytes list \<Rightarrow> response \<Rightarrow> bool" where
  "site_run E isAdmin ds resp \<longleftrightarrow>
     (\<exists>w w'. analyzeData E isAdmin (hd ds) (site_bag (e_mp E) (tl ds)) False w = Some (Inr resp, w'))"

lemma decodePEMBundle_not_empty: "decodePEMBundle pem blocks \<noteq> Inr []"
  by (simp add: decodePEMBundle_def Let_def)

lemma site_resultsE:
  assumes "site_results E pem isAdmin (r # rs) w = Some (x, w')"
  obtains (failed) e ds where "decodePEMBundle pem (cg_Chain r) = Inr ds"
      "analyzeData E isAdmin (hd ds) (site_bag (e_mp E) (tl ds)) False (w\<lparr>w_warn := []\<rparr>) = Some (Inl e, w')" "x = Inl e"
  | (next_client) sr w1 res where "reported pem (site_run E isAdmin) r sr"
      "w1 = w \<or> (\<exists>ds y. analyzeData E isAdmin (hd ds) (site_bag (e_mp E) (tl ds)) False (w\<lparr>w_warn := []\<rparr>) = Some (y, w1))"
      "site_results E pem isAdmin rs w1 = Some (res, w')" "x = map_sum id ((#) sr) res"
proof (cases "cg_OK r")
  case False
  with assms show ?thesis
    by (auto simp: reported_def site_result_def intro: next_client [of "site_result r" w])
next
  case ok: True
  show ?thesis
  proof (cases "decodePEMBundle pem (cg_Chain r)")
    case (Inl e)
    with ok assms show ?thesis
      by (auto simp: reported_def site_result_def
          intro: next_client [of "(site_result r)\<lparr>sr_OK := False, sr_Error := err_text e\<rparr>" w])
  next
    case (Inr ds)
    then have ne: "ds \<noteq> []" using decodePEMBundle_not_empty by metis
    with ok Inr assms obtain y w1 where run: "analyzeData E isAdmin (hd ds) (site_bag (e_mp E) (tl ds)) False (w\<lparr>w_warn := []\<rparr>)
        = Some (y, w1)" by (auto split: option.splits)
    show ?thesis
    proof (cases y)
      case (Inl e)
      with run ok Inr ne assms show ?thesis by (auto intro: failed)
    next
      case (Inr resp)
      note resp = Inr
      let ?sr = "(site_result r)\<lparr>sr_Analysis := Some (from_tls resp)\<rparr>"
      have rep: "reported pem (site_run E isAdmin) r ?sr"
        using run resp ok \<open>decodePEMBundle pem (cg_Chain r) = Inr ds\<close> ne
        by (auto simp: reported_def site_result_def site_run_def)
      obtain res where res: "site_results E pem isAdmin rs w1 = Some (res, w')" "x = map_sum id ((#) ?sr) res"
        using run resp ok \<open>decodePEMBundle pem (cg_Chain r) = Inr ds\<close> ne assms by auto
      show ?thesis by (rule next_client [OF rep _ res]) (use run in blast)
    qed
  qed
qed

lemma site_results_analysed:
  "site_results E pem isAdmin rs w = Some (x, w') \<Longrightarrow> analysed (e_hash E) (w_store w) (w_store w')"
proof (induction rs arbitrary: w x)
  case Nil
  then show ?case by (simp add: analysed_refl)
next
  case (Cons r rs)
  from Cons.prems show ?case
  proof (cases rule: site_resultsE)
    case (failed e ds)
    from analyzeData_analysed [OF failed(2)] show ?thesis by simp
  next
    case (next_client sr w1 res)
    have "analysed (e_hash E) (w_store w) (w_store w1)"
      using next_client(2) by (auto simp: analysed_refl dest: analyzeData_analysed)
    with Cons.IH [OF next_client(3)] show ?thesis by (blast intro: analysed_trans)
  qed
qed

lemma site_results_reported:
  "site_results E pem isAdmin rs w = Some (Inr srs, w') \<Longrightarrow> list_all2 (reported pem (site_run E isAdmin)) rs srs"
proof (induction rs arbitrary: w srs)
  case Nil
  then show ?case by simp
next
  case (Cons r rs)
  from Cons.prems show ?case
  proof (cases rule: site_resultsE)
    case (next_client sr w1 res)
    then obtain srs' where "res = Inr srs'" "srs = sr # srs'" by (cases res) auto
    with next_client Cons.IH show ?thesis by auto
  qed simp
qed

lemma site_bag_encoded: "encodes mp \<Longrightarrow> bag_encoded (site_bag mp ds)"
  by (auto simp: bag_encoded_def site_bag_def encodes_def List.map_filter_def split: sum.splits)

lemma site_results_total:
  assumes "encodes (e_mp E)"
  shows "site_results E pem isAdmin rs w \<noteq> None"
proof (induction rs arbitrary: w)
  case (Cons r rs)
  have "analyzeData E isAdmin input (site_bag (e_mp E) ds) False v \<noteq> None" for input ds v
    using analyzeData_total [OF assms site_bag_encoded [OF assms]] by fastforce
  with Cons show ?case
    by (auto simp del: not_None_eq simp: Let_def split: sum.splits option.splits)
qed simp

section \<open>The analysis of a site\<close>

text \<open>
  The analysis of a site, whatever certget and the network answer, changes no certificate's trust and
  keeps the store well formed.
\<close>

theorem site_keeps_trust:
  assumes "doAnalyzeSite E S isAdmin certgetURL host port sni w = Some (x, w')"
  shows "IsCertTrusted h (w_store w') = IsCertTrusted h (w_store w)
       \<and> (store_ok (e_hash E) (w_store w) \<longrightarrow> store_ok (e_hash E) (w_store w'))"
proof -
  have "analysed (e_hash E) (w_store w) (w_store w')"
    using assms site_results_analysed
    by (fastforce simp: doAnalyzeSite_def analysed_refl split: prod.splits sum.splits)
  then show ?thesis by (auto simp: analysed_trust dest: analysed_ok)
qed

text \<open>
  Property C22. The response for a site has one result per client of certget, in certget's order: certget's own error,
  the decoder's error for a chain without a certificate, or else the analysis of the chain's first certificate with the
  others that parse as candidate issuers, its leaf labelled as coming from TLS.
\<close>

theorem site_reports_every_client:
  assumes "doAnalyzeSite E S isAdmin certgetURL host port sni w = Some (Inr resp, w')"
  shows "\<exists>cg n. callCertget S certgetURL host port sni (w_net w) = (Inr cg, n)
     \<and> list_all2 (\<lambda>r sr. sr_Client sr = cg_Client r
          \<and> (if \<not> cg_OK r then sr = site_result r
             else case decodePEMBundle (s_pem S) (cg_Chain r) of
               Inl e \<Rightarrow> sr = (site_result r)\<lparr>sr_OK := False, sr_Error := err_text e\<rparr>
             | Inr ds \<Rightarrow> ds \<noteq> [] \<and> (\<exists>v v' analysis.
                 analyzeData E isAdmin (hd ds) (site_bag (e_mp E) (tl ds)) False v = Some (Inr analysis, v')
                 \<and> sr = (site_result r)\<lparr>sr_Analysis := Some (from_tls analysis)\<rparr>)))
         (cg_Results cg) (sp_Results resp)"
proof -
  obtain c n where call: "callCertget S certgetURL host port sni (w_net w) = (c, n)" by fastforce
  with assms obtain cg where cg: "c = Inr cg" by (cases c) (auto simp: doAnalyzeSite_def)
  with call assms obtain y where y: "site_results E (s_pem S) isAdmin (cg_Results cg) (w\<lparr>w_net := n\<rparr>) = Some (y, w')"
    by (auto simp: doAnalyzeSite_def)
  with call cg assms obtain rs where rs: "site_results E (s_pem S) isAdmin (cg_Results cg) (w\<lparr>w_net := n\<rparr>) = Some (Inr rs, w')"
    "sp_Results resp = rs"
    by (cases y) (auto simp: doAnalyzeSite_def)
  have "list_all2 (reported (s_pem S) (site_run E isAdmin)) (cg_Results cg) (sp_Results resp)"
    using site_results_reported [OF rs(1)] rs(2) by simp
  then have "list_all2 (\<lambda>r sr. sr_Client sr = cg_Client r
          \<and> (if \<not> cg_OK r then sr = site_result r
             else case decodePEMBundle (s_pem S) (cg_Chain r) of
               Inl e \<Rightarrow> sr = (site_result r)\<lparr>sr_OK := False, sr_Error := err_text e\<rparr>
             | Inr ds \<Rightarrow> ds \<noteq> [] \<and> (\<exists>v v' analysis.
                 analyzeData E isAdmin (hd ds) (site_bag (e_mp E) (tl ds)) False v = Some (Inr analysis, v')
                 \<and> sr = (site_result r)\<lparr>sr_Analysis := Some (from_tls analysis)\<rparr>)))
         (cg_Results cg) (sp_Results resp)"
    by (rule list_all2_mono) (auto simp: reported_def site_run_def split: sum.splits, blast)
  with call cg show ?thesis by blast
qed

text \<open>
  The analysis of a site always ends, with a response or an error, whatever certget answers: it never
  indexes an empty chain.
\<close>

theorem site_never_panics:
  assumes "\<And>d i. ParseCertInfo (e_mp E) d = Inr i \<Longrightarrow> DER i \<noteq> []"
  shows "\<exists>x w'. doAnalyzeSite E S isAdmin certgetURL host port sni w = Some (x, w')"
proof -
  have "encodes (e_mp E)" using assms by (auto simp: encodes_def)
  from site_results_total [OF this] have "doAnalyzeSite E S isAdmin certgetURL host port sni w \<noteq> None"
    by (auto simp del: not_None_eq simp: doAnalyzeSite_def split: prod.splits sum.splits)
  then show ?thesis by auto
qed

section \<open>Hosts that are not asked for\<close>

text \<open>
  No request of a client makes certview look up or fetch a site whose host the address guard refuses,
  whatever the form of the request: the answer does not depend on the cache or on certget.
\<close>

theorem blocked_hosts_not_fetched:
  assumes "\<And>host port. normalizeSiteURL N url = Inr (host, port) \<Longrightarrow> check_host N host \<noteq> None"
    and "\<And>host port. splitHostPort N hp = Inr (host, port) \<Longrightarrow> check_host N host \<noteq> None"
  shows "analyzeSite N certgetURL get (Inr url) = analyzeSite N certgetURL get' (Inr url)
     \<and> analyzeSiteByHostPort N certgetURL get hp = analyzeSiteByHostPort N certgetURL get' hp
     \<and> (\<exists>status text. status \<in> {400, 403, 503} \<and> analyzeSite N certgetURL get (Inr url) = HttpError status text)"
  using assms
  by (cases "normalizeSiteURL N url"; cases "splitHostPort N hp")
    (auto simp: analyzeSite_def analyzeSiteByHostPort_def respondSite_def)

end
