(* ===== verification/Certget.thy ===== *)
theory Certget
  imports Site
begin

text \<open>
  certget (cmd/certget): the request handler \<open>fetch\<close> with its timeout, \<open>runAll\<close> over any order in which the fetchers
  finish, \<open>derToPEM\<close>, and the two fetchers from the dial or the process's output on. Connecting, the TLS handshake,
  running openssl, the PEM codec and the clock are arguments.
\<close>

section \<open>Results\<close>

definition MaxChainLen :: nat where "MaxChainLen = 16"

record Result =
  re_Chain :: "bytes list"
  re_TLSVersion :: string
  re_CipherSuite :: string

record fetchOutcome =
  fo_Client :: string
  fo_OK :: bool
  fo_Error :: string
  fo_Chain :: "string list"
  fo_TLSVersion :: string
  fo_CipherSuite :: string
  fo_DurationMs :: int

definition no_outcome :: fetchOutcome where
  "no_outcome = \<lparr>fo_Client = '''', fo_OK = False, fo_Error = '''', fo_Chain = [], fo_TLSVersion = '''',
     fo_CipherSuite = '''', fo_DurationMs = 0\<rparr>"

definition derToPEM :: "(bytes \<Rightarrow> string) \<Rightarrow> bytes list \<Rightarrow> string list" where
  "derToPEM enc ds = map enc ds"

text \<open>What one goroutine of \<open>runAll\<close> stores: the fetcher's name, its result and how long it took.\<close>

definition outcome_of :: "(bytes \<Rightarrow> string) \<Rightarrow> string \<times> (goerr + Result) \<times> int \<Rightarrow> fetchOutcome" where
  "outcome_of enc = (\<lambda>(name, res, ms).
     let fo = no_outcome\<lparr>fo_Client := name, fo_DurationMs := ms\<rparr> in
     case res of
       Inl e \<Rightarrow> fo\<lparr>fo_Error := err_text e\<rparr>
     | Inr r \<Rightarrow> fo\<lparr>fo_OK := True, fo_TLSVersion := re_TLSVersion r, fo_CipherSuite := re_CipherSuite r,
         fo_Chain := derToPEM enc (re_Chain r)\<rparr>)"

text \<open>\<open>runAll\<close>: \<open>order\<close> lists the goroutines as they finish; each stores its outcome at its own index.\<close>

definition runAll :: "(bytes \<Rightarrow> string) \<Rightarrow> nat list \<Rightarrow> (string \<times> (goerr + Result) \<times> int) list \<Rightarrow> fetchOutcome list" where
  "runAll enc order runs =
     fold (\<lambda>i outcomes. outcomes[i := outcome_of enc (runs ! i)]) order (replicate (length runs) no_outcome)"

section \<open>The handler\<close>

definition maxRequestTimeout :: gotime where "maxRequestTimeout = 60 * nsec"

text \<open>The deadline of a request. The product is one of 64-bit integers and wraps.\<close>

definition fetch_timeout :: "int \<Rightarrow> gotime" where
  "fetch_timeout ms =
     (if ms > 0
      then (let t = sint (word_of_int (ms * 1000000) :: 64 word) in
            if t > maxRequestTimeout then maxRequestTimeout else t)
      else 30 * nsec)"

record fetchRequest =
  fr_URL :: string
  fr_SNI :: string
  fr_TimeoutMs :: int

record fetchResponse =
  fp_FetchedAt :: gotime
  fp_Host :: string
  fp_IP :: string
  fp_Port :: int
  fp_SNI :: string
  fp_Results :: "fetchOutcome list"

text \<open>
  \<open>fetch\<close> on the decoded body. \<open>run\<close> gives what the fetchers return, in which order they finish and the time then,
  for a deadline, the host, the address, the port and the name for SNI.
\<close>

definition fetch :: "names \<Rightarrow> (bytes \<Rightarrow> string)
    \<Rightarrow> (gotime \<Rightarrow> string \<Rightarrow> string \<Rightarrow> int \<Rightarrow> string \<Rightarrow> (string \<times> (goerr + Result) \<times> int) list \<times> nat list \<times> gotime)
    \<Rightarrow> goerr + fetchRequest \<Rightarrow> fetchResponse answer" where
  "fetch N enc run body =
     (case body of
        Inl e \<Rightarrow> HttpError 400 (''bad request: '' @ err_text e)
      | Inr req \<Rightarrow>
          (case normalizeURL N (fr_URL req) of
             Inl e \<Rightarrow> HttpError 400 (err_text e)
           | Inr (host, port) \<Rightarrow>
               (let sni = (if fr_SNI req = '''' then host else fr_SNI req) in
                case resolveAndGuard N host of
                  Inl e \<Rightarrow> HttpError 403 (''blocked: '' @ err_text e)
                | Inr ip \<Rightarrow>
                    (case run (fetch_timeout (fr_TimeoutMs req)) host ip port sni of
                       (runs, order, now) \<Rightarrow>
                         Answer \<lparr>fp_FetchedAt = now, fp_Host = host, fp_IP = ip, fp_Port = port, fp_SNI = sni,
                           fp_Results = runAll enc order runs\<rparr>))))"

section \<open>The Go fetcher\<close>

definition hex_lower :: "nat \<Rightarrow> char" where
  "hex_lower n = (if n < 10 then char_of (48 + n) else char_of (87 + n))"

definition tlsVersionName :: "16 word \<Rightarrow> string" where
  "tlsVersionName v =
     (if v = 0x0301 then ''TLS 1.0'' else if v = 0x0302 then ''TLS 1.1''
      else if v = 0x0303 then ''TLS 1.2'' else if v = 0x0304 then ''TLS 1.3''
      else let n = unat v in ''unknown(0x'' @ map hex_lower [n div 4096, n div 256 mod 16, n div 16 mod 16, n mod 16] @ '')'')"

text \<open>What the fetcher reads of the connection's state.\<close>

record tlsState =
  ts_Version :: "16 word"
  ts_Suite :: string
  ts_Raw :: "bytes list"

fun raw_chain :: "bytes list \<Rightarrow> goerr + bytes list" where
  "raw_chain [] = Inr []"
| "raw_chain (c # cs) =
     (if length c > CertSize
      then Inl (text_error (''cert too big: '' @ digits_of (length c) @ '' > '' @ digits_of CertSize))
      else map_sum id ((#) c) (raw_chain cs))"

definition stdlib_state :: "tlsState \<Rightarrow> goerr + Result" where
  "stdlib_state st =
     (if ts_Raw st = [] then Inl (text_error ''no peer certificates'')
      else if length (ts_Raw st) > MaxChainLen
      then Inl (text_error (''chain too long: '' @ digits_of (length (ts_Raw st)) @ '' > '' @ digits_of MaxChainLen))
      else map_sum id (\<lambda>chain. \<lparr>re_Chain = chain, re_TLSVersion = tlsVersionName (ts_Version st), re_CipherSuite = ts_Suite st\<rparr>)
             (raw_chain (ts_Raw st)))"

text \<open>
  \<open>GoStdlibFetcher.Fetch\<close>: \<open>dial\<close> is \<open>net.Dialer\<close> with its control function, \<open>handshake\<close> the TLS client on a connection
  to a peer, given the name for SNI.
\<close>

definition GoStdlib_Fetch :: "names \<Rightarrow> (string \<Rightarrow> (addr \<Rightarrow> goerr option) \<Rightarrow> goerr + addr) \<Rightarrow> (addr \<Rightarrow> string \<Rightarrow> goerr + tlsState)
    \<Rightarrow> string \<Rightarrow> int \<Rightarrow> string \<Rightarrow> goerr + Result" where
  "GoStdlib_Fetch N dial handshake ip port sni =
     (case dial (join_host_port ip (string_of_int port))
          (\<lambda>a. DialerControl (n_quote N) (n_text N a) (Inr (n_text N a)) (Inr a)) of
        Inl e \<Rightarrow> Inl (Wrapped ''dial: '' e)
      | Inr peer \<Rightarrow>
          (case handshake peer sni of
             Inl e \<Rightarrow> Inl (Wrapped ''handshake: '' e)
           | Inr st \<Rightarrow> stdlib_state st))"

section \<open>The GOST fetcher\<close>

definition gost_available :: "goerr option \<Rightarrow> string \<Rightarrow> bool" where
  "gost_available err out \<longleftrightarrow> err = None \<and> index_of ''[ available ]'' out \<noteq> None"

definition gostCipherList :: string where
  "gostCipherList = ''GOST2012-KUZNYECHIK-KUZNYECHIKOMAC:'' @ ''GOST2012-MAGMA-MAGMAOMAC:''
     @ ''IANA-GOST2012-GOST8912-GOST8912:'' @ ''LEGACY-GOST2012-GOST8912-GOST8912:'' @ ''GOST2001-GOST89-GOST89''"

definition gost_args :: "string \<Rightarrow> int \<Rightarrow> string \<Rightarrow> string list" where
  "gost_args ip port sni = [''s_client'', ''-engine'', ''gost'', ''-tls1_2'', ''-cipher'', gostCipherList, ''-connect'',
     join_host_port ip (string_of_int port), ''-servername'', sni, ''-showcerts'']"

text \<open>The loop over the blocks of the output; the length of the output is fuel enough.\<close>

fun gost_chain :: "pem_decoder \<Rightarrow> nat \<Rightarrow> string \<Rightarrow> bytes list \<Rightarrow> goerr + bytes list" where
  "gost_chain pem 0 rest chain = Inr chain"
| "gost_chain pem (Suc k) rest chain =
     (case pem rest of
        None \<Rightarrow> Inr chain
      | Some (type, content, r) \<Rightarrow>
          if type \<noteq> ''CERTIFICATE'' then gost_chain pem k r chain
          else if length content > CertSize
          then Inl (text_error (''cert too big: '' @ digits_of (length content) @ '' > '' @ digits_of CertSize))
          else if length (chain @ [content]) > MaxChainLen
          then Inl (text_error (''chain too long: > '' @ digits_of MaxChainLen))
          else gost_chain pem k r (chain @ [content]))"

text \<open>
  \<open>rxNewCipher\<close>. The comma before \<open> Cipher is\<close> ends a run of characters that are no white space, so there is one way
  to match at the start of a line.
\<close>

definition no_space :: "char \<Rightarrow> bool" where
  "no_space c \<longleftrightarrow> (of_char c :: nat) \<notin> {9, 10, 12, 13, 32}"

definition cipher_line :: "string \<Rightarrow> (string \<times> string) option" where
  "cipher_line s =
     (let run = takeWhile no_space (drop 5 s); rest = drop (5 + length run) s; suite = takeWhile no_space (drop 11 rest) in
      if has_prefix s ''New, TLS'' \<and> length run \<ge> 5 \<and> last run = CHR '','' \<and> has_prefix rest '' Cipher is '' \<and> suite \<noteq> ''''
      then Some (butlast run, suite) else None)"

fun find_cipher :: "bool \<Rightarrow> string \<Rightarrow> (string \<times> string) option" where
  "find_cipher line_start [] = None"
| "find_cipher line_start (c # s) =
     (case (if line_start then cipher_line (c # s) else None) of
        Some m \<Rightarrow> Some m
      | None \<Rightarrow> find_cipher (c = CHR 0x0A) s)"

definition trimErr :: "string \<Rightarrow> string" where
  "trimErr s = (if length s > 512 then take 512 s @ ''...'' else s)"

text \<open>\<open>OpensslGostFetcher.Fetch\<close> on what the process printed and how it ended.\<close>

definition OpensslGost_Fetch :: "pem_decoder \<Rightarrow> string \<Rightarrow> string \<Rightarrow> goerr option \<Rightarrow> goerr + Result" where
  "OpensslGost_Fetch pem out errBuf runErr =
     (case gost_chain pem (Suc (length out)) out [] of
        Inl e \<Rightarrow> Inl e
      | Inr chain \<Rightarrow>
          if chain = []
          then (case runErr of
                  Some e \<Rightarrow> Inl (LibError (''openssl: '' @ err_text e @ '' (stderr: '' @ trimErr errBuf @ '')'') None (Some e))
                | None \<Rightarrow> Inl (text_error (''no certificates in openssl output (stderr: '' @ trimErr errBuf @ '')'')))
          else (case find_cipher True out of
                  Some (version, suite) \<Rightarrow> Inr \<lparr>re_Chain = chain, re_TLSVersion = version, re_CipherSuite = suite\<rparr>
                | None \<Rightarrow> Inr \<lparr>re_Chain = chain, re_TLSVersion = '''', re_CipherSuite = ''''\<rparr>))"

section \<open>Which fetchers run\<close>

text \<open>\<open>main\<close>: the fetchers that are available, in their order; none is fatal.\<close>

definition enabled_fetchers :: "(string \<times> bool) list \<Rightarrow> string list option" where
  "enabled_fetchers all_fetchers =
     (let available = map fst (filter snd all_fetchers) in if available = [] then None else Some available)"

end
