(* ===== verification/Certget_Laws.thy ===== *)
theory Certget_Laws
  imports Certget
begin

text \<open>
  The chains certget returns are bounded and reach certview as they were presented; its outcomes stand in the order of
  the fetchers, however they are scheduled; its deadlines.
\<close>

section \<open>Chains\<close>

lemma raw_chain_Inr: "raw_chain cs = Inr chain \<longleftrightarrow> chain = cs \<and> list_all (\<lambda>c. length c \<le> CertSize) cs"
proof (induction cs arbitrary: chain)
  case (Cons c cs)
  then show ?case by (cases "raw_chain cs") (auto simp: not_less)
qed auto

lemma stdlib_state_bounds:
  "stdlib_state st = Inr r \<Longrightarrow> re_Chain r \<noteq> [] \<and> length (re_Chain r) \<le> MaxChainLen
     \<and> list_all (\<lambda>c. length c \<le> CertSize) (re_Chain r)"
  by (auto simp: stdlib_state_def map_sum_def raw_chain_Inr split: if_splits sum.splits)

lemma gost_chain_fuel:
  assumes "\<And>s t c r. pem s = Some (t, c, r) \<Longrightarrow> length r < length s" and "length s < k"
  shows "gost_chain pem k s chain = gost_chain pem (Suc (length s)) s chain"
  using assms(2)
proof (induction "length s" arbitrary: s k chain rule: less_induct)
  case less
  then obtain j where k: "k = Suc j" by (cases k) auto
  show ?case
  proof (cases "pem s")
    case (Some b)
    obtain t c r where b: "b = (t, c, r)" by (cases b)
    with Some assms(1) have r: "length r < length s" by blast
    have "gost_chain pem j r ch = gost_chain pem (length s) r ch" for ch
      using less.hyps [OF r, of j] less.hyps [OF r, of "length s"] less.prems r k by simp
    then show ?thesis by (simp add: k Some b)
  qed (simp add: k)
qed

lemma gost_chain_bounds:
  assumes "gost_chain pem k rest chain = Inr result"
    and "length chain \<le> MaxChainLen" and "list_all (\<lambda>c. length c \<le> CertSize) chain"
  shows "length result \<le> MaxChainLen \<and> list_all (\<lambda>c. length c \<le> CertSize) result"
  using assms
  by (induction pem k rest chain rule: gost_chain.induct) (auto split: option.splits if_splits)

text \<open>
  Property C23. Whatever a server presents or openssl prints, a chain certget returns has one to sixteen certificates of
  at most 64 KiB each.
\<close>

theorem chains_bounded:
  assumes "GoStdlib_Fetch N dial handshake ip port sni = Inr r \<or> OpensslGost_Fetch pem out errBuf runErr = Inr r"
  shows "1 \<le> length (re_Chain r) \<and> length (re_Chain r) \<le> 16 \<and> list_all (\<lambda>c. length c \<le> 65536) (re_Chain r)"
proof -
  have "re_Chain r \<noteq> [] \<and> length (re_Chain r) \<le> MaxChainLen \<and> list_all (\<lambda>c. length c \<le> CertSize) (re_Chain r)"
    using assms
  proof
    assume "GoStdlib_Fetch N dial handshake ip port sni = Inr r"
    then show ?thesis using stdlib_state_bounds by (auto simp: GoStdlib_Fetch_def split: sum.splits)
  next
    assume "OpensslGost_Fetch pem out errBuf runErr = Inr r"
    then obtain chain where "gost_chain pem (Suc (length out)) out [] = Inr chain" "chain \<noteq> []" "re_Chain r = chain"
      by (auto simp: OpensslGost_Fetch_def split: sum.splits if_splits option.splits)
    with gost_chain_bounds [of pem "Suc (length out)" out "[]"] show ?thesis by simp
  qed
  then show ?thesis by (cases "re_Chain r") (auto simp: MaxChainLen_def CertSize_def)
qed

lemma chain_blocks:
  assumes "\<And>content. dec (enc content) = Some (''CERTIFICATE'', content, '''')" and "dec '''' = None" and "cs \<noteq> []"
  shows "decodePEMBundle dec (map enc cs) = Inr cs"
proof -
  have "pem_blocks dec (Suc (length (enc content))) (enc content) = [content]" for content
    using assms(1) [of content] assms(2) by (cases "enc content") auto
  then have "concat (map (\<lambda>block. pem_blocks dec (Suc (length block)) block) (map enc cs)) = cs" for cs
    by (induction cs) (auto simp del: pem_blocks.simps)
  then show ?thesis using assms(3) by (simp add: decodePEMBundle_def Let_def del: pem_blocks.simps map_map)
qed

text \<open>
  What a fetcher of certget returned is what certview analyses: the chain of a successful outcome, written
  as PEM, is decoded to the same certificates in the same order. Of \<open>encoding/pem\<close> it relies on its round trip for one
  block.
\<close>

theorem chain_reaches_certview:
  assumes "\<And>content. dec (enc content) = Some (''CERTIFICATE'', content, '''')" and "dec '''' = None"
    and "re_Chain r \<noteq> []"
  shows "decodePEMBundle dec (fo_Chain (outcome_of enc (name, Inr r, ms))) = Inr (re_Chain r)"
  using chain_blocks [of dec enc "re_Chain r"] assms by (simp add: outcome_of_def derToPEM_def Let_def)

section \<open>Scheduling\<close>

lemma stored_outcomes:
  assumes "length outs = length runs" and "set order \<subseteq> {..<length runs}"
  shows "length (fold (\<lambda>i outcomes. outcomes[i := f (runs ! i)]) order outs) = length runs"
    and "i < length runs \<Longrightarrow> fold (\<lambda>i outcomes. outcomes[i := f (runs ! i)]) order outs ! i =
      (if i \<in> set order then f (runs ! i) else outs ! i)"
  using assms by (induction order arbitrary: outs) (auto simp: nth_list_update)

text \<open>
  However the goroutines of \<open>runAll\<close> are scheduled, once all have finished the outcomes are those of the
  fetchers in their order.
\<close>

theorem outcomes_in_order_of_fetchers:
  assumes "set order = {..<length runs}"
  shows "runAll enc order runs = map (outcome_of enc) runs"
  using stored_outcomes [where outs = "replicate (length runs) no_outcome" and f = "outcome_of enc" and runs = runs and order = order] assms
  by (auto simp: runAll_def intro!: nth_equalityI)

section \<open>Deadlines\<close>

lemma wrapped_product: "- (2 ^ 63) \<le> x \<Longrightarrow> x < 2 ^ 63 \<Longrightarrow> sint (word_of_int x :: 64 word) = x"
  by (simp add: sint_sbintrunc' signed_take_bit_int_eq_self)

text \<open>
  No request waits longer than a minute; the deadline is the one asked for, cut to a minute, or half a
  minute when none is asked for, up to 9223372036854 ms. One millisecond more and the product wraps: the deadline is in
  the past and every fetch of the request fails.
\<close>

theorem deadline_within_a_minute:
  "fetch_timeout ms \<le> 60 * nsec
   \<and> (ms \<le> 9223372036854 \<longrightarrow> fetch_timeout ms = (if ms \<le> 0 then 30 * nsec else min (ms * 1000000) (60 * nsec)))
   \<and> fetch_timeout 9223372036855 < 0"
proof -
  have "fetch_timeout ms \<le> 60 * nsec"
    by (auto simp: fetch_timeout_def maxRequestTimeout_def nsec_def Let_def)
  moreover have "fetch_timeout ms = (if ms \<le> 0 then 30 * nsec else min (ms * 1000000) (60 * nsec))"
    if "ms \<le> 9223372036854"
    using that wrapped_product [of "ms * 1000000"]
    by (cases "ms > 0") (auto simp: fetch_timeout_def maxRequestTimeout_def nsec_def Let_def min_def)
  moreover have "fetch_timeout 9223372036855 < 0"
    by (simp add: fetch_timeout_def maxRequestTimeout_def nsec_def Let_def)
  ultimately show ?thesis by blast
qed

section \<open>Samples\<close>

definition sample_state :: tlsState where
  "sample_state = \<lparr>ts_Version = 0x0304, ts_Suite = ''TLS_AES_128_GCM_SHA256'', ts_Raw = [[48, 0], [48]]\<rparr>"

lemma sample_stdlib: "stdlib_state sample_state =
   Inr \<lparr>re_Chain = [[48, 0], [48]], re_TLSVersion = ''TLS 1.3'', re_CipherSuite = ''TLS_AES_128_GCM_SHA256''\<rparr>"
  by (simp add: stdlib_state_def sample_state_def MaxChainLen_def CertSize_def tlsVersionName_def)

lemma chains_bounded_witness:
  "1 \<le> length [[48, 0], [48 :: byte]] \<and> length [[48, 0], [48 :: byte]] \<le> 16
     \<and> list_all (\<lambda>c. length c \<le> 65536) [[48, 0], [48 :: byte]]"
  using chains_bounded [of _ "\<lambda>_ _. Inr (V4 1)" "\<lambda>_ _. Inr sample_state" "''1.2.3.4''" 443 "''a''"
      "\<lparr>re_Chain = [[48, 0], [48]], re_TLSVersion = ''TLS 1.3'', re_CipherSuite = ''TLS_AES_128_GCM_SHA256''\<rparr>"]
  by (simp add: GoStdlib_Fetch_def sample_stdlib)

text \<open>A codec that marks a block with one letter.\<close>

definition letter_enc :: "bytes \<Rightarrow> string" where
  "letter_enc b = CHR ''P'' # map (\<lambda>x. char_of (unat x)) b"

definition letter_dec :: pem_decoder where
  "letter_dec s = (case s of [] \<Rightarrow> None | c # cs \<Rightarrow> Some (''CERTIFICATE'', map (\<lambda>c. of_nat (of_char c :: nat)) cs, ''''))"

lemma byte_char: "of_nat (of_char (char_of (unat b) :: char)) = (b :: byte)"
proof -
  have "unat b < 256" by (rule unsigned_less [where ?'b = 8, simplified])
  then show ?thesis by (simp only: of_char_char_of) simp
qed

lemma letter_codec: "letter_dec (letter_enc b) = Some (''CERTIFICATE'', b, '''')"
  by (simp add: letter_dec_def letter_enc_def o_def byte_char del: of_char_of)

lemma chain_reaches_certview_witness:
  "decodePEMBundle letter_dec (fo_Chain (outcome_of letter_enc (''go-stdlib'',
     Inr \<lparr>re_Chain = [[48, 0], [48]], re_TLSVersion = '''', re_CipherSuite = ''''\<rparr>, 7))) = Inr [[48, 0], [48]]"
  using chain_reaches_certview [of letter_dec letter_enc "\<lparr>re_Chain = [[48, 0], [48]], re_TLSVersion = '''', re_CipherSuite = ''''\<rparr>"
      "''go-stdlib''" 7, OF letter_codec]
  by (simp add: letter_dec_def)

lemma deadline_within_a_minute_witness:
  "fetch_timeout 5000 = 5 * nsec \<and> fetch_timeout 5000 \<le> 60 * nsec"
  using deadline_within_a_minute [of 5000] by (simp add: nsec_def)

lemma outcomes_in_order_of_fetchers_witness:
  "map fo_Client (runAll letter_enc [1, 0] [(''go-stdlib'', Inl ErrBusy, 3), (''openssl-gost'', Inl ErrBusy, 1)])
     = [''go-stdlib'', ''openssl-gost'']"
proof -
  have "set [1, 0] = {..<length [(''go-stdlib'', Inl ErrBusy :: goerr + Result, 3 :: int), (''openssl-gost'', Inl ErrBusy, 1)]}"
    by auto
  from outcomes_in_order_of_fetchers [OF this, of letter_enc] show ?thesis
    by (simp add: outcome_of_def no_outcome_def)
qed

end
