(* ===== verification/Site_Sample.thy ===== *)
theory Site_Sample
  imports Site_Laws Certget_Laws Analysis_Sample Hosts_Laws
begin

text \<open>
  A site with two clients, one that failed and one that presented the leaf of the sample of Chain_Sample: the
  properties of Site_Laws applied to it.
\<close>

definition failed_client :: certgetResult where
  "failed_client = \<lparr>cg_Client = ''openssl-gost'', cg_OK = False, cg_Error = ''timeout'', cg_Chain = [], cg_TLSVersion = '''',
     cg_CipherSuite = '''', cg_DurationMs = 5\<rparr>"

definition leaf_client :: certgetResult where
  "leaf_client = \<lparr>cg_Client = ''go-stdlib'', cg_OK = True, cg_Error = '''', cg_Chain = [letter_enc [2]], cg_TLSVersion = ''TLS 1.3'',
     cg_CipherSuite = '''', cg_DurationMs = 7\<rparr>"

definition sample_cg :: certgetResponse where
  "sample_cg = \<lparr>cg_FetchedAt = ''now'', cg_Host = ''a.org'', cg_IP = ''8.8.8.8'', cg_Port = 443, cg_SNI = ''a.org'',
     cg_Results = [failed_client, leaf_client]\<rparr>"

definition sample_site :: "unit siteenv" where
  "sample_site = \<lparr>s_request = (\<lambda>u. None), s_do = (\<lambda>u b n. (Inr (200, ''{}'', None), n)), s_json = (\<lambda>b e. Inr sample_cg), s_pem = letter_dec\<rparr>"

lemma sample_call: "callCertget sample_site u h p sni () = (Inr sample_cg, ())"
  by (simp add: callCertget_def sample_site_def)

lemma sample_pem: "s_pem sample_site = letter_dec"
  by (simp add: sample_site_def)

lemma sample_world_net: "sample_world\<lparr>w_net := ()\<rparr> = sample_world"
  by (simp add: sample_world_def)

lemma sample_decoded: "decodePEMBundle letter_dec [letter_enc [2]] = Inr [[2]]"
  using chain_blocks [of letter_dec letter_enc "[[2]]", OF letter_codec] by (simp add: letter_dec_def)

lemma sample_site_run:
  obtains resp w' where "doAnalyzeSite sample_env sample_site False ''http://certget'' ''a.org'' 443 ''a.org'' sample_world
    = Some (Inr resp, w')" and "map sr_OK (sp_Results resp) = [False, True]"
proof -
  from sample_leaf obtain analysis w' where a: "analyzeData sample_env False [2] [] False sample_world = Some (Inr analysis, w')" .
  have w: "sample_world\<lparr>w_warn := []\<rparr> = sample_world" by (simp add: sample_world_def)
  have "site_results sample_env letter_dec False [failed_client, leaf_client] sample_world
      = Some (Inr [site_result failed_client, (site_result leaf_client)\<lparr>sr_Analysis := Some (from_tls analysis)\<rparr>], w')"
    using a by (simp add: failed_client_def leaf_client_def sample_decoded site_bag_def map_filter_simps w Let_def)
  then have "doAnalyzeSite sample_env sample_site False ''http://certget'' ''a.org'' 443 ''a.org'' sample_world
      = Some (Inr \<lparr>sp_Cached = False, sp_FetchedAt = ''now'', sp_Host = ''a.org'', sp_IP = ''8.8.8.8'', sp_Port = 443,
          sp_SNI = ''a.org'', sp_Results = [site_result failed_client,
            (site_result leaf_client)\<lparr>sr_Analysis := Some (from_tls analysis)\<rparr>]\<rparr>, w')"
    by (simp add: doAnalyzeSite_def sample_call sample_pem sample_world_net) (simp add: sample_cg_def)
  then show ?thesis by (rule that) (simp add: site_result_def failed_client_def leaf_client_def)
qed

lemma site_keeps_trust_witness:
  "\<exists>x w'. doAnalyzeSite sample_env sample_site False ''http://certget'' ''a.org'' 443 ''a.org'' sample_world = Some (x, w')
     \<and> IsCertTrusted (SHA256Hex sample_hashes [3]) (w_store w') = IsCertTrusted (SHA256Hex sample_hashes [3]) (w_store sample_world)"
proof -
  obtain resp w' where r: "doAnalyzeSite sample_env sample_site False ''http://certget'' ''a.org'' 443 ''a.org'' sample_world
    = Some (Inr resp, w')" by (rule sample_site_run)
  from r site_keeps_trust [OF r, of "SHA256Hex sample_hashes [3]"] show ?thesis by blast
qed

lemma site_reports_every_client_witness:
  "\<exists>resp w'. doAnalyzeSite sample_env sample_site False ''http://certget'' ''a.org'' 443 ''a.org'' sample_world = Some (Inr resp, w')
     \<and> map sr_Client (sp_Results resp) = [''openssl-gost'', ''go-stdlib'']"
proof -
  obtain resp w' where r: "doAnalyzeSite sample_env sample_site False ''http://certget'' ''a.org'' 443 ''a.org'' sample_world
    = Some (Inr resp, w')" by (rule sample_site_run)
  have "callCertget sample_site ''http://certget'' ''a.org'' 443 ''a.org'' (w_net sample_world) = (Inr sample_cg, ())"
    by (simp add: sample_call)
  with site_reports_every_client [OF r] have "list_all2 (\<lambda>r sr. sr_Client sr = cg_Client r) (cg_Results sample_cg) (sp_Results resp)"
    by (auto elim!: list_all2_mono)
  then have "map sr_Client (sp_Results resp) = [''openssl-gost'', ''go-stdlib'']"
    by (auto simp: sample_cg_def list_all2_Cons1 failed_client_def leaf_client_def)
  with r show ?thesis by (intro exI conjI)
qed

lemma site_never_panics_witness:
  "\<exists>x w'. doAnalyzeSite sample_env sample_site True ''http://certget'' ''a.org'' 443 ''a.org'' sample_world = Some (x, w')"
  using sample_encodes by (intro site_never_panics) (auto simp: encodes_def sample_env_def)

text \<open>The loopback address 127.0.0.1 among the names of Hosts_Laws, with a scheme and without.\<close>

definition loopback :: addr where "loopback = V4 (ip4 127 0 0 1)"

lemma loopback_text: "''42130706433'' = sample_text loopback"
  by (simp add: loopback_def ip4_def digits_of.simps, code_simp)

lemma loopback_blocked: "check_host sample_names ''42130706433'' \<noteq> None"
proof -
  have "n_addr sample_names ''42130706433'' = Some loopback"
    unfolding loopback_text by (simp add: sample_names_def sample_addr_text IsValid_def loopback_def del: sample_text.simps)
  moreover have "checkAddr loopback \<noteq> None" by (simp add: loopback_def checkAddr_V4 public4_iff ip4_def)
  ultimately show ?thesis by (simp add: check_host_def Check_def)
qed

lemma loopback_normalized: "Normalize sample_names ''42130706433'' = Inr ''42130706433''"
proof -
  have "trim_space ''42130706433'' = ''42130706433''" by (rule trim_space_printable) (simp_all add: printable_def)
  moreover have "to_lower ''42130706433'' = ''42130706433''" by (simp add: to_lower_def lower_char_def Let_def)
  moreover have "sample_addr ''42130706433'' = Some loopback"
    unfolding loopback_text by (rule sample_addr_text) (simp add: IsValid_def loopback_def)
  ultimately show ?thesis by (simp add: Normalize_def sample_names_def loopback_text [symmetric] del: sample_text.simps)
qed

lemma loopback_url: "normalizeSiteURL sample_names ''https://42130706433'' = Inr (''42130706433'', 443)"
proof -
  have "trim_space ''https://42130706433'' = ''https://42130706433''" by (rule trim_space_printable) (simp_all add: printable_def)
  moreover have "n_url sample_names (with_scheme ''https://42130706433'') = Inr (''42130706433'', '''')"
    by (simp add: sample_names_def with_scheme_def has_prefix_def)
  ultimately show ?thesis by (simp add: normalizeSiteURL_def loopback_normalized)
qed

lemma loopback_hp: "splitHostPort sample_names ''42130706433'' = Inr (''42130706433'', 443)"
  by (simp add: splitHostPort_def has_prefix_def loopback_normalized)

lemma blocked_hosts_not_fetched_witness:
  "\<exists>status text. status \<in> {400, 403, 503}
     \<and> analyzeSite sample_names ''http://certget'' (\<lambda>key. Inl ErrBusy) (Inr ''https://42130706433'') = HttpError status text"
  using blocked_hosts_not_fetched [of sample_names "''https://42130706433''" "''42130706433''" "''http://certget''"
      "\<lambda>key. Inl ErrBusy" "\<lambda>key. Inl ErrBusy"] loopback_blocked
  by (auto simp: loopback_url loopback_hp)

end
