(* ===== verification/Endpoints.thy ===== *)
theory Endpoints
  imports Link Site
begin

text \<open>
  The endpoints of cmd/certview/handler.go and link.go around an analysis: \<open>analyze\<close>, \<open>respondAnalysis\<close>,
  \<open>derBySHA256\<close>, \<open>analyzeByThumbprint\<close>, \<open>analyzeLink\<close>, and the handler of the pages of main.go. What the response
  cache answers for a key (\<open>get\<close>, the theory RespCache) is an argument, and so are the decoding of JSON and the client.
\<close>

section \<open>Uploads\<close>

text \<open>\<open>respondAnalysis\<close>: \<open>get\<close> is \<open>analysisCache.get\<close> for the key, computing with \<open>doAnalyze\<close> on the data.\<close>

definition respondAnalysis :: "hashes \<Rightarrow> (string \<Rightarrow> bytes \<Rightarrow> goerr + response) \<Rightarrow> bytes \<Rightarrow> response answer" where
  "respondAnalysis H get data =
     (case get (SHA256Hex H data) data of Inl e \<Rightarrow> analysis_error e | Inr resp \<Rightarrow> Answer resp)"

text \<open>\<open>doAnalyze\<close> inside its admission.\<close>

definition doAnalyze :: "('c, 'l, 'o, 's, 'n) env \<Rightarrow> bool \<Rightarrow> bytes \<Rightarrow> 'n world \<Rightarrow> ((goerr + response) \<times> 'n world) option" where
  "doAnalyze E isAdmin data w = analyzeData E isAdmin data [] False w"

text \<open>
  \<open>analyze\<close> after \<open>acquireBig\<close>: \<open>admitted\<close> is its outcome and \<open>sem\<close> the channel then. The result has the channel once the
  handler returned: the place is given back when the input is no longer needed and once more by the deferred call.
\<close>

definition release_twice :: "chan \<Rightarrow> transfer \<Rightarrow> (chan \<times> transfer) option" where
  "release_twice sem t = (case release_big sem t of None \<Rightarrow> None | Some (sem1, t1) \<Rightarrow> release_big sem1 t1)"

definition analyze :: "hashes \<Rightarrow> (string \<Rightarrow> bytes \<Rightarrow> goerr + response) \<Rightarrow> chan \<times> (goerr + transfer) \<Rightarrow> body \<Rightarrow> int
    \<Rightarrow> response answer \<times> chan option" where
  "analyze H get admitted body contentLength =
     (case admitted of
        (sem, Inl e) \<Rightarrow> (analysis_error e, Some sem)
      | (sem, Inr t) \<Rightarrow>
          (case readLimited body contentLength maxCRLSize of
             Inl e \<Rightarrow> (HttpError 413 (err_text e), map_option fst (release_big sem t))
           | Inr data \<Rightarrow>
               if data = [] then (HttpError 400 ''empty body'', map_option fst (release_big sem t))
               else (respondAnalysis H get data, map_option fst (release_twice sem t))))"

section \<open>Stored objects\<close>

text \<open>
  \<open>derBySHA256\<close>: the size is read first, the object once the transfer is let in, so other requests may change the store
  between the two (\<open>s1\<close>, \<open>s2\<close>). The answer is the object and the deadline of its transfer.
\<close>

definition write_deadline :: "gotime \<Rightarrow> bytes \<Rightarrow> gotime" where
  "write_deadline now der = now + 10 * nsec + int (length der) * nsec div 1048576"

definition derBySHA256 :: "(nat \<Rightarrow> goerr + transfer) \<Rightarrow> gotime \<Rightarrow> string \<Rightarrow> store \<Rightarrow> store \<Rightarrow> (bytes \<times> gotime) answer" where
  "derBySHA256 acquire_der now sha s1 s2 =
     (case acquire_der (DERSize sha s1) of
        Inl e \<Rightarrow> analysis_error e
      | Inr t \<Rightarrow>
          (case FindDERBySHA256 sha s2 of
             None \<Rightarrow> HttpError 404 ''not found''
           | Some der \<Rightarrow> Answer (der, write_deadline now der)))"

text \<open>\<open>analyzeByThumbprint\<close>; a \<open>HEAD\<close> request is answered without a body.\<close>

definition analyzeByThumbprint :: "hashes \<Rightarrow> (string \<Rightarrow> bytes \<Rightarrow> goerr + response) \<Rightarrow> bool \<Rightarrow> string \<Rightarrow> store \<Rightarrow> response option answer" where
  "analyzeByThumbprint H get head tp s =
     (if tp = '''' then HttpError 400 ''missing thumbprint''
      else case FindCertByThumbprint tp s of
        None \<Rightarrow> HttpError 404 ''not found''
      | Some der \<Rightarrow>
          if head then Answer None
          else (case respondAnalysis H get der of
                  HttpError status text \<Rightarrow> HttpError status text
                | Answer resp \<Rightarrow> Answer (Some resp)
                | NoAnswer \<Rightarrow> NoAnswer))"

section \<open>Links\<close>

definition analyzeLink :: "('c, 'l, 'o, 's) minipki \<Rightarrow> hashes \<Rightarrow> (string \<Rightarrow> CertInfo list \<Rightarrow> goerr + response) \<Rightarrow> string list option
    \<Rightarrow> response answer" where
  "analyzeLink mp H get body =
     (case body of
        None \<Rightarrow> HttpError 400 ''Bad link: malformed request''
      | Some vs \<Rightarrow>
          (case parseLink mp vs of
             Inl e \<Rightarrow> HttpError 400 (''Bad link: '' @ err_text e)
           | Inr cs \<Rightarrow> (case get (link_key H cs) cs of Inl e \<Rightarrow> analysis_error e | Inr resp \<Rightarrow> Answer resp)))"

section \<open>Pages\<close>

text \<open>
  The root handler of main.go: paths under \<open>/api/\<close> no route matched are not found, files of the embedded directory are
  served, everything else is the page that reads the path itself. \<open>is_file\<close> says whether a file opens.
\<close>

datatype page = PageNotFound | Index | StaticFile string

definition rootHandler :: "(string \<Rightarrow> bool) \<Rightarrow> string \<Rightarrow> page" where
  "rootHandler is_file path =
     (if has_prefix path ''/api/'' then PageNotFound
      else let p = (if has_prefix path ''/'' then tl path else path) in
        if p = '''' then Index else if is_file p then StaticFile p else Index)"

end
