(* ===== verification/Endpoints_Laws.thy ===== *)
theory Endpoints_Laws
  imports Endpoints Gate_Laws Store_Roundtrip
begin

text \<open>
  The keys of the analysis cache tell requests apart, a stored object is served only under its own digest, and uploads
  give back their transfer's place.
\<close>

section \<open>Keys\<close>

lemma hex_digit_bounds: "n < 16 \<Longrightarrow> (of_char (upper_char (hex_digit n)) :: nat) \<in> {48..57} \<union> {65..70}"
proof -
  assume "n < 16"
  then have n: "unat n < 16" by (simp add: word_less_nat_alt)
  then show ?thesis
    by (cases "n < 10") (auto simp: hex_digit_def upper_char_def Let_def word_less_nat_alt)
qed

lemma SHA256Hex_chars: "c \<in> set (SHA256Hex H d) \<Longrightarrow> (of_char c :: nat) \<in> {48..57} \<union> {65..70}"
proof -
  have "c \<in> set (to_upper (hex_encode bs)) \<Longrightarrow> (of_char c :: nat) \<in> {48..57} \<union> {65..70}" for bs
  proof (induction bs)
    case (Cons b bs)
    then show ?case
      using hex_digit_bounds [of "drop_bit 4 b"] hex_digit_bounds [of "b AND 15"] high_nibble low_nibble
      by (auto simp: to_upper_def)
  qed (simp add: to_upper_def)
  then show "c \<in> set (SHA256Hex H d) \<Longrightarrow> (of_char c :: nat) \<in> {48..57} \<union> {65..70}" by (simp add: SHA256Hex_def)
qed

lemma space_words:
  assumes "concat (map (\<lambda>w. CHR '' '' # w) ws) = concat (map (\<lambda>w. CHR '' '' # w) vs)"
    and "\<forall>w \<in> set ws \<union> set vs. CHR '' '' \<notin> set w"
  shows "ws = vs"
  using assms
proof (induction ws arbitrary: vs)
  case Nil
  then show ?case by (cases vs) auto
next
  case (Cons w ws)
  then obtain v vs' where vs: "vs = v # vs'" by (cases vs) auto
  let ?s = "\<lambda>ws. concat (map (\<lambda>w. CHR '' '' # w) ws)"
  have eq: "w @ ?s ws = v @ ?s vs'" using Cons.prems(1) vs by simp
  have head: "takeWhile (\<lambda>c. c \<noteq> CHR '' '') (x @ ?s xs) = x" if "CHR '' '' \<notin> set x" for x xs
    using that by (cases xs) (auto simp: takeWhile_tail takeWhile_append2 intro: takeWhile_eq_all_conv [THEN iffD2])
  have "w = v" using head [of w ws] head [of v vs'] eq Cons.prems(2) vs by simp
  moreover from this eq have "?s ws = ?s vs'" by simp
  ultimately show ?case using Cons vs by auto
qed

lemma link_key_kind: "link_key H cs \<noteq> SHA256Hex H a"
proof -
  have "CHR ''l'' \<notin> set (SHA256Hex H a)" using SHA256Hex_chars [of "CHR ''l''" H a] by auto
  then show ?thesis by (auto simp: link_key_def) (metis list.set_intros(1))
qed

lemma same_digests:
  "map (\<lambda>c. SHA256Hex H (DER c)) cs = map (\<lambda>c. SHA256Hex H (DER c)) cs' \<longleftrightarrow>
   map (\<lambda>c. sha256_sum H (DER c)) cs = map (\<lambda>c. sha256_sum H (DER c)) cs'"
proof (induction cs arbitrary: cs')
  case (Cons c cs)
  then show ?case by (cases cs') (auto simp: SHA256Hex_eq_iff)
qed auto

text \<open>
  Property C27. Two requests share an entry of the analysis cache only when they are of one kind and about the same
  digests: two uploads of content with the same digest, or two links with the same digests in the same order.
\<close>

theorem analysis_keys_tell_apart:
  "(SHA256Hex H a = SHA256Hex H b \<longleftrightarrow> sha256_sum H a = sha256_sum H b)
   \<and> link_key H cs \<noteq> SHA256Hex H a
   \<and> (link_key H cs = link_key H cs' \<longleftrightarrow> map (\<lambda>c. sha256_sum H (DER c)) cs = map (\<lambda>c. sha256_sum H (DER c)) cs')"
proof -
  have plain: "CHR '' '' \<notin> set (SHA256Hex H d)" for d using SHA256Hex_chars [of "CHR '' ''" H d] by auto
  have words: "link_key H xs = ''link'' @ concat (map (\<lambda>w. CHR '' '' # w) (map (\<lambda>c. SHA256Hex H (DER c)) xs))" for xs
    by (simp add: link_key_def o_def)
  have "link_key H cs = link_key H cs' \<longleftrightarrow> map (\<lambda>c. SHA256Hex H (DER c)) cs = map (\<lambda>c. SHA256Hex H (DER c)) cs'"
    unfolding words using space_words [of "map (\<lambda>c. SHA256Hex H (DER c)) cs" "map (\<lambda>c. SHA256Hex H (DER c)) cs'"] plain
    by fastforce
  also have "\<dots> \<longleftrightarrow> map (\<lambda>c. sha256_sum H (DER c)) cs = map (\<lambda>c. sha256_sum H (DER c)) cs'"
    by (rule same_digests)
  finally show ?thesis using link_key_kind by (simp add: SHA256Hex_eq_iff)
qed

section \<open>Objects\<close>

text \<open>
  Property C28. Whatever changes in the store while a request waits for its transfer, what is served under a digest, and
  cached by clients for a year, has this digest; and the deadline of its transfer is ten seconds and, to the nanosecond,
  the time it takes to read its bytes at one MiB a second: a slower reader of a large object is cut, a faster one is not.
\<close>

theorem der_served_under_own_digest:
  assumes "store_ok H s2" and "derBySHA256 acquire_der now sha s1 s2 = Answer (der, deadline)"
  shows "SHA256Hex H der = to_upper sha
     \<and> (deadline - now - 10 * nsec) * 1048576 \<le> int (length der) * nsec
     \<and> int (length der) * nsec < (deadline - now - 10 * nsec + 1) * 1048576"
proof -
  have der: "FindDERBySHA256 sha s2 = Some der" and deadline: "deadline = write_deadline now der"
    using assms(2) by (auto simp: derBySHA256_def analysis_error_def split: sum.splits option.splits)
  have "SHA256Hex H der = to_upper sha"
    using assms(1) der
    by (auto simp: FindDERBySHA256_def store_ok_def certs_ok_def crls_ok_def ocsps_ok_def has_sha_def
        split: option.splits dest!: find_SomeD)
  moreover have "deadline - now - 10 * nsec = int (length der) * nsec div 1048576" by (simp add: deadline write_deadline_def)
  moreover have "n div 1048576 * 1048576 \<le> n \<and> n < (n div 1048576 + 1) * 1048576" for n :: int by presburger
  ultimately show ?thesis by metis
qed

section \<open>Uploads\<close>

text \<open>
  Once the handler of an upload returned, however it answered, the transfers under way are those there were
  before it was let in: its place is given back exactly once though the code gives it back twice.
\<close>

theorem upload_gives_place_back:
  assumes "admitted \<in> set (acquireBig sem ctx over contentLength)"
  shows "snd (analyze H get admitted body contentLength) = Some sem"
proof -
  obtain sem' r where adm: "admitted = (sem', r)" by force
  show ?thesis
  proof (cases r)
    case (Inl e)
    with assms adm show ?thesis by (auto simp: acquireBig_def analyze_def split: if_splits option.splits)
  next
    case (Inr t)
    then have t: "t = Free \<and> sem' = sem \<or> t = Held True \<and> chan_send sem = Some sem'"
      using assms adm by (auto simp: acquireBig_def split: if_splits option.splits)
    then have "map_option fst (release_big sem' t) = Some sem" "map_option fst (release_twice sem' t) = Some sem"
      by (auto simp: release_twice_def chan_send_def chan_recv_def split: if_splits)
    then show ?thesis by (simp add: analyze_def adm Inr split: sum.split)
  qed
qed

section \<open>Samples\<close>

definition der_store :: store where
  "der_store = SaveCert sample_hashes 0
     \<lparr>a_subject = '''', a_issuer = '''', a_serial = '''', a_ski = '''', a_aki = '''', a_name_der = [], a_der = [48, 0],
      a_is_ca = False, a_self_signed = False, a_source = ''''\<rparr> empty_store"

lemma der_served_under_own_digest_witness:
  "\<exists>deadline. derBySHA256 (\<lambda>n. Inr Free) 0 (SHA256Hex sample_hashes [48, 0]) empty_store der_store = Answer ([48, 0], deadline)
     \<and> deadline = 10 * nsec + 1907"
proof -
  have ok: "store_ok sample_hashes der_store" by (simp add: der_store_def store_ok_SaveCert store_ok_empty)
  have "FindDERBySHA256 (SHA256Hex sample_hashes [48, 0]) der_store = Some [48, 0]"
    by (simp add: FindDERBySHA256_def der_store_def SaveCert_def empty_store_def cert_of_args_def has_sha_def)
  then have a: "derBySHA256 (\<lambda>n. Inr Free) 0 (SHA256Hex sample_hashes [48, 0]) empty_store der_store
      = Answer ([48, 0], write_deadline 0 [48, 0])" by (simp add: derBySHA256_def)
  from der_served_under_own_digest [OF ok a] have "write_deadline 0 [48, 0] = 10 * nsec + 1907"
    unfolding nsec_def by simp
  with a show ?thesis by simp
qed

lemma upload_gives_place_back_witness:
  "snd (analyze sample_hashes (\<lambda>k d. Inl ErrBusy) (\<lparr>chan_cap = 2, chan_len = 1\<rparr>, Inr (Held True))
     \<lparr>b_bytes = [], b_err = None\<rparr> (- 1)) = Some (make_chan 2)"
  by (rule upload_gives_place_back [where ctx = None and over = False])
    (simp add: acquireBig_def make_chan_def chan_send_def)

end
