(* ===== verification/Migration.thy ===== *)
theory Migration
  imports Store_Laws
begin

text \<open>
  Opening a database (\<open>Open\<close>, \<open>migrate\<close> and its steps in internal/store/store.go): databases of earlier versions,
  whose rows may lack digests, whose certificates were unique by serial and whose CRLs were filed by URL, become the
  store of the theory Store. A column an old table lacks reads as the default it is added with.
\<close>

section \<open>Databases\<close>

text \<open>The table of CRLs has a column of URLs, or is filed by content.\<close>

datatype crl_table = ByURL "(string \<times> crl_row) list" | ByContent "crl_row list"

record database =
  d_certs :: "cert_row list"
  d_serial_unique :: bool
  d_crls :: crl_table
  d_crl_urls :: "(string \<times> string) list"
  d_ocsps :: "ocsp_row list"
  d_version :: int

text \<open>\<open>backfillSHA256\<close> on each of the three tables.\<close>

definition backfill_certs :: "hashes \<Rightarrow> cert_row list \<Rightarrow> cert_row list" where
  "backfill_certs H = update_where (\<lambda>r. c_sha256 r = '''') (\<lambda>r. r\<lparr>c_sha256 := SHA256Hex H (c_der r)\<rparr>)"

definition backfill_crl :: "hashes \<Rightarrow> crl_row \<Rightarrow> crl_row" where
  "backfill_crl H r = (if k_sha256 r = '''' then r\<lparr>k_sha256 := SHA256Hex H (k_der r)\<rparr> else r)"

definition backfill_ocsps :: "hashes \<Rightarrow> ocsp_row list \<Rightarrow> ocsp_row list" where
  "backfill_ocsps H = update_where (\<lambda>r. o_sha256 r = '''') (\<lambda>r. r\<lparr>o_sha256 := SHA256Hex H (o_der r)\<rparr>)"

fun backfill_crls :: "hashes \<Rightarrow> crl_table \<Rightarrow> crl_table" where
  "backfill_crls H (ByURL rs) = ByURL (map (\<lambda>(u, r). (u, backfill_crl H r)) rs)"
| "backfill_crls H (ByContent rs) = ByContent (map (backfill_crl H) rs)"

definition backfillSHA256 :: "hashes \<Rightarrow> database \<Rightarrow> database" where
  "backfillSHA256 H db = db\<lparr>d_certs := backfill_certs H (d_certs db), d_crls := backfill_crls H (d_crls db),
     d_ocsps := backfill_ocsps H (d_ocsps db)\<rparr>"

text \<open>\<open>dropSerialUnique\<close>: the rows are copied with their ids into a table without the constraint.\<close>

definition dropSerialUnique :: "database \<Rightarrow> database" where
  "dropSerialUnique db = (if d_serial_unique db then db\<lparr>d_serial_unique := False\<rparr> else db)"

text \<open>\<open>url NOT LIKE 'upload://%'\<close>; \<open>LIKE\<close> ignores the case of ASCII letters.\<close>

definition is_upload :: "string \<Rightarrow> bool" where
  "is_upload url \<longleftrightarrow> has_prefix (to_lower url) ''upload://''"

definition url_rows :: "(string \<times> crl_row) list \<Rightarrow> (string \<times> string) list \<Rightarrow> (string \<times> string) list" where
  "url_rows rs us =
     fold (\<lambda>(u, r). map_url u (k_sha256 r)) (filter (\<lambda>(u, r). \<not> is_upload u) (sort_key (\<lambda>(u, r). k_id r) rs)) us"

text \<open>The rows whose id is the greatest of their content.\<close>

definition newest_rows :: "crl_row list \<Rightarrow> crl_row list" where
  "newest_rows rs = filter (\<lambda>r. list_all (\<lambda>r'. k_sha256 r' = k_sha256 r \<longrightarrow> k_id r' \<le> k_id r) rs) rs"

definition splitCRLURLs :: "database \<Rightarrow> database" where
  "splitCRLURLs db =
     (case d_crls db of
        ByContent rs \<Rightarrow> db
      | ByURL rs \<Rightarrow> db\<lparr>d_crl_urls := url_rows rs (d_crl_urls db), d_crls := ByContent (newest_rows (map snd rs))\<rparr>)"

definition repairSHA1 :: "hashes \<Rightarrow> database \<Rightarrow> database" where
  "repairSHA1 H db =
     (if d_version db \<ge> 1 then db
      else db\<lparr>d_certs := map (\<lambda>r. r\<lparr>c_sha1 := sha1hex H (c_der r)\<rparr>) (d_certs db), d_version := 1\<rparr>)"

fun content_rows :: "crl_table \<Rightarrow> crl_row list" where
  "content_rows (ByURL rs) = map snd rs"
| "content_rows (ByContent rs) = rs"

text \<open>\<open>migrate\<close>; \<open>None\<close> when a unique index cannot be made, and the program does not start.\<close>

definition migrate :: "hashes \<Rightarrow> database \<Rightarrow> database option" where
  "migrate H db =
     (let db' = repairSHA1 H (splitCRLURLs (dropSerialUnique (backfillSHA256 H db))) in
      if distinct (map c_sha256 (d_certs db')) \<and> distinct (map k_sha256 (content_rows (d_crls db'))) then Some db' else None)"

text \<open>The store an opened database is, and back.\<close>

definition store_of :: "database \<Rightarrow> store" where
  "store_of db = \<lparr>certs = d_certs db, crls = content_rows (d_crls db), crl_urls = d_crl_urls db, ocsps = d_ocsps db\<rparr>"

definition database_of :: "store \<Rightarrow> database" where
  "database_of s = \<lparr>d_certs = certs s, d_serial_unique = False, d_crls = ByContent (crls s), d_crl_urls = crl_urls s,
     d_ocsps = ocsps s, d_version = 1\<rparr>"

end
