(* ===== verification/Migration_Laws.thy ===== *)
theory Migration_Laws
  imports Migration Store_Roundtrip
begin

text \<open>
  Opening a database of an earlier version gives a well-formed store that keeps every certificate with its trust, every
  content of a CRL and the newest CRL of every URL; opening a database of this version changes nothing.
\<close>

section \<open>Databases of earlier versions\<close>

text \<open>A digest that is missing or right, in rows with content whose ids ascend.\<close>

definition digest_ok :: "hashes \<Rightarrow> string \<Rightarrow> bytes \<Rightarrow> bool" where
  "digest_ok H h d \<longleftrightarrow> d \<noteq> [] \<and> (h = '''' \<or> h = SHA256Hex H d)"

definition old_certs_ok :: "hashes \<Rightarrow> int \<Rightarrow> cert_row list \<Rightarrow> bool" where
  "old_certs_ok H version rs \<longleftrightarrow> sorted_wrt (<) (map c_id rs) \<and> distinct (map (\<lambda>r. SHA256Hex H (c_der r)) rs)
     \<and> list_all (\<lambda>r. digest_ok H (c_sha256 r) (c_der r) \<and> (version \<ge> 1 \<longrightarrow> c_sha1 r = sha1hex H (c_der r))) rs"

definition old_crls_ok :: "hashes \<Rightarrow> crl_table \<Rightarrow> bool" where
  "old_crls_ok H t \<longleftrightarrow> sorted_wrt (<) (map k_id (content_rows t))
     \<and> list_all (\<lambda>r. digest_ok H (k_sha256 r) (k_der r)) (content_rows t)
     \<and> (case t of ByURL rs \<Rightarrow> True | ByContent rs \<Rightarrow> distinct (map (\<lambda>r. SHA256Hex H (k_der r)) rs))"

definition old_ocsps_ok :: "hashes \<Rightarrow> ocsp_row list \<Rightarrow> bool" where
  "old_ocsps_ok H rs \<longleftrightarrow> table_ok o_id o_thumb rs \<and> list_all (\<lambda>r. digest_ok H (o_sha256 r) (o_der r)) rs"

definition old_database_ok :: "hashes \<Rightarrow> database \<Rightarrow> bool" where
  "old_database_ok H db \<longleftrightarrow> old_certs_ok H (d_version db) (d_certs db) \<and> old_crls_ok H (d_crls db)
     \<and> old_ocsps_ok H (d_ocsps db) \<and> distinct (map fst (d_crl_urls db))"

section \<open>The steps\<close>

lemma backfill_certs_map:
  "list_all (\<lambda>r. digest_ok H (c_sha256 r) (c_der r)) rs \<Longrightarrow>
   backfill_certs H rs = map (\<lambda>r. r\<lparr>c_sha256 := SHA256Hex H (c_der r)\<rparr>) rs"
  by (induction rs) (auto simp: backfill_certs_def update_where_def digest_ok_def)

lemma backfill_crl_right: "digest_ok H (k_sha256 r) (k_der r) \<Longrightarrow> backfill_crl H r = r\<lparr>k_sha256 := SHA256Hex H (k_der r)\<rparr>"
  by (auto simp: backfill_crl_def digest_ok_def)

lemma content_rows_backfill [simp]: "content_rows (backfill_crls H t) = map (backfill_crl H) (content_rows t)"
  by (cases t) auto

lemma backfill_ocsps_ok:
  assumes "old_ocsps_ok H rs"
  shows "ocsps_ok H (backfill_ocsps H rs)"
proof -
  have "table_ok o_id o_thumb (backfill_ocsps H rs)"
    using assms by (auto simp: old_ocsps_ok_def backfill_ocsps_def intro: table_ok_update)
  moreover have "o_der r \<noteq> [] \<and> o_sha256 r = SHA256Hex H (o_der r)" if "r \<in> set (backfill_ocsps H rs)" for r
    using that assms
    by (auto simp: old_ocsps_ok_def backfill_ocsps_def table_simps digest_ok_def list_all_iff)
  ultimately show ?thesis by (simp add: ocsps_ok_def)
qed

lemma backfilled_crls:
  assumes "old_crls_ok H t"
  shows "list_all (\<lambda>r. k_der r \<noteq> [] \<and> k_sha256 r = SHA256Hex H (k_der r)) (content_rows (backfill_crls H t))"
    and "map k_id (content_rows (backfill_crls H t)) = map k_id (content_rows t)"
    and "map k_der (content_rows (backfill_crls H t)) = map k_der (content_rows t)"
  using assms by (auto simp: old_crls_ok_def list_all_iff backfill_crl_def digest_ok_def)

lemma newest_sublist: "sorted_wrt (<) (map k_id rs) \<Longrightarrow> sorted_wrt (<) (map k_id (newest_rows rs))"
  by (induction rs rule: rev_induct) (auto simp: newest_rows_def sorted_wrt_append sorted_wrt_filter sorted_wrt_map)

lemma newest_distinct: "sorted_wrt (<) (map k_id rs) \<Longrightarrow> distinct (map k_sha256 (newest_rows rs))"
proof -
  assume sorted: "sorted_wrt (<) (map k_id rs)"
  then have "inj_on k_id (set rs)" "distinct rs"
    by (auto simp: strict_sorted_iff distinct_map)
  then show ?thesis
    by (auto simp: newest_rows_def distinct_map inj_on_def list_all_iff) (metis le_antisym)
qed

lemma newest_keeps_content:
  "(\<lambda>r. k_sha256 r) ` set (newest_rows rs) = (\<lambda>r. k_sha256 r) ` set rs"
proof -
  have "\<exists>r' \<in> set (newest_rows rs). k_sha256 r = k_sha256 r'" if "r \<in> set rs" for r
  proof -
    let ?S = "{r' \<in> set rs. k_sha256 r' = k_sha256 r}"
    have "finite (k_id ` ?S)" "k_id ` ?S \<noteq> {}" using that by auto
    from Max_in [OF this] obtain m where m: "m \<in> ?S" "k_id m = Max (k_id ` ?S)" by auto
    have "k_id r' \<le> k_id m" if "r' \<in> ?S" for r'
      unfolding m(2) by (rule Max_ge) (use that in auto)
    with m show ?thesis by (auto simp: newest_rows_def list_all_iff)
  qed
  moreover have "set (newest_rows rs) \<subseteq> set rs" by (auto simp: newest_rows_def)
  ultimately show ?thesis by (auto simp: image_iff)
qed

text \<open>The URLs of the old table: the last row of a URL wins.\<close>

lemma map_of_url_fold:
  "map_of (fold (\<lambda>(u, r). map_url u (k_sha256 r)) xs us) u =
     (case find (\<lambda>(v, r). v = u) (rev xs) of Some (v, r) \<Rightarrow> Some (k_sha256 r) | None \<Rightarrow> map_of us u)"
  by (induction xs rule: rev_induct) (auto simp: map_of_map_url split: prod.split)

lemma url_rows_newest:
  assumes "sorted_wrt (<) (map (\<lambda>(u, r). k_id r) rs)" and "(u, r) \<in> set rs" and "\<not> is_upload u"
    and "\<forall>(u', r') \<in> set rs. u' = u \<longrightarrow> k_id r' \<le> k_id r"
  shows "map_of (url_rows rs us) u = Some (k_sha256 r)"
proof -
  have sort: "sort_key (\<lambda>(u, r). k_id r) rs = rs"
    using assms(1) by (intro sort_key_id_if_sorted) (simp add: strict_sorted_iff)
  let ?xs = "filter (\<lambda>(u, r). \<not> is_upload u) rs"
  have "(u, r) \<in> set ?xs" using assms(2,3) by auto
  then obtain ys zs where xs: "?xs = ys @ (u, r) # zs" by (meson split_list)
  have "sorted_wrt (\<lambda>a b. k_id (snd a) < k_id (snd b)) rs"
    using assms(1) by (simp add: sorted_wrt_map case_prod_unfold)
  then have "sorted_wrt (\<lambda>a b. k_id (snd a) < k_id (snd b)) ?xs" by (rule sorted_wrt_filter)
  then have later: "\<forall>b \<in> set zs. k_id r < k_id (snd b)" by (simp add: xs sorted_wrt_append)
  have "set zs \<subseteq> set ?xs" unfolding xs by auto
  moreover have "set ?xs \<subseteq> set rs" by auto
  ultimately have "set zs \<subseteq> set rs" by (rule subset_trans)
  then have "\<forall>b \<in> set zs. fst b \<noteq> u" using later assms(4) by fastforce
  then have "find (\<lambda>(v, r). v = u) (rev zs) = None" by (auto simp: find_None_iff)
  then have "find (\<lambda>(v, r). v = u) (rev ?xs) = Some (u, r)" by (simp add: xs find_append)
  then show ?thesis by (simp add: url_rows_def sort map_of_url_fold)
qed

lemma distinct_url_rows: "distinct (map fst us) \<Longrightarrow> distinct (map fst (url_rows rs us))"
proof -
  have "distinct (map fst us) \<Longrightarrow> distinct (map fst (fold (\<lambda>(u, r). map_url u (k_sha256 r)) xs us))" for xs
    by (induction xs arbitrary: us) (auto simp: distinct_map_url)
  then show "distinct (map fst us) \<Longrightarrow> distinct (map fst (url_rows rs us))" by (simp add: url_rows_def)
qed

section \<open>Opening a database\<close>

definition migrated :: "hashes \<Rightarrow> database \<Rightarrow> database" where
  "migrated H db = repairSHA1 H (splitCRLURLs (dropSerialUnique (backfillSHA256 H db)))"

lemma migrated_certs:
  assumes "old_certs_ok H (d_version db) (d_certs db)"
  shows "d_certs (migrated H db) = map (\<lambda>r. r\<lparr>c_sha256 := SHA256Hex H (c_der r), c_sha1 := sha1hex H (c_der r)\<rparr>) (d_certs db)"
proof -
  have "list_all (\<lambda>r. digest_ok H (c_sha256 r) (c_der r)) (d_certs db)"
    using assms by (auto simp: old_certs_ok_def list_all_iff)
  from backfill_certs_map [OF this] have
    "d_certs (splitCRLURLs (dropSerialUnique (backfillSHA256 H db))) = map (\<lambda>r. r\<lparr>c_sha256 := SHA256Hex H (c_der r)\<rparr>) (d_certs db)"
    by (simp add: splitCRLURLs_def dropSerialUnique_def backfillSHA256_def split: crl_table.split)
  moreover have "d_version (splitCRLURLs (dropSerialUnique (backfillSHA256 H db))) = d_version db"
    by (simp add: splitCRLURLs_def dropSerialUnique_def backfillSHA256_def split: crl_table.split)
  ultimately show ?thesis
    using assms by (auto simp: migrated_def repairSHA1_def old_certs_ok_def list_all_iff intro!: cert_row.equality)
qed

lemma migrated_crls:
  "content_rows (d_crls (migrated H db)) =
     (let rs = map (backfill_crl H) (content_rows (d_crls db)) in case d_crls db of ByContent _ \<Rightarrow> rs | ByURL _ \<Rightarrow> newest_rows rs)"
  by (cases "d_crls db")
    (simp_all add: migrated_def repairSHA1_def splitCRLURLs_def dropSerialUnique_def backfillSHA256_def Let_def o_def case_prod_unfold)

lemma migrated_rest:
  "d_crl_urls (migrated H db) = (case d_crls db of
      ByContent rs \<Rightarrow> d_crl_urls db
    | ByURL rs \<Rightarrow> url_rows (map (\<lambda>(u, r). (u, backfill_crl H r)) rs) (d_crl_urls db))"
  "d_ocsps (migrated H db) = backfill_ocsps H (d_ocsps db)"
  by (cases "d_crls db"; simp add: migrated_def repairSHA1_def splitCRLURLs_def dropSerialUnique_def backfillSHA256_def)+

lemma migrated_crls_ok:
  assumes "old_crls_ok H (d_crls db)"
  shows "crls_ok H (content_rows (d_crls (migrated H db)))"
    and "(\<lambda>r. SHA256Hex H (k_der r)) ` set (content_rows (d_crls (migrated H db)))
       = (\<lambda>r. SHA256Hex H (k_der r)) ` set (content_rows (d_crls db))"
proof -
  define rows where "rows = content_rows (d_crls db)"
  define new where "new = map (backfill_crl H) rows"
  have good: "\<forall>r \<in> set new. k_der r \<noteq> [] \<and> k_sha256 r = SHA256Hex H (k_der r)"
    using assms by (auto simp: new_def rows_def old_crls_ok_def list_all_iff backfill_crl_def digest_ok_def)
  have kept: "k_id (backfill_crl H r) = k_id r" "k_der (backfill_crl H r) = k_der r" for r by (simp_all add: backfill_crl_def)
  have sorted: "sorted_wrt (<) (map k_id new)" using assms by (simp add: new_def rows_def old_crls_ok_def o_def kept)
  have digests: "k_sha256 ` set new = (\<lambda>r. SHA256Hex H (k_der r)) ` set rows"
  proof -
    have "k_sha256 ` set new = (\<lambda>r. SHA256Hex H (k_der r)) ` set new" using good by (intro image_cong) auto
    then show ?thesis by (simp add: new_def image_image kept)
  qed
  define result where "result = (case d_crls db of ByContent _ \<Rightarrow> new | ByURL _ \<Rightarrow> newest_rows new)"
  have result: "content_rows (d_crls (migrated H db)) = result"
    by (simp add: migrated_crls result_def new_def rows_def Let_def split: crl_table.split)
  have "set (newest_rows new) \<subseteq> set new" unfolding newest_rows_def by (rule filter_is_subset)
  then have good_result: "\<forall>r \<in> set result. k_der r \<noteq> [] \<and> k_sha256 r = SHA256Hex H (k_der r)"
    using good by (auto simp: result_def split: crl_table.splits)
  have "distinct (map k_sha256 new)" if "d_crls db = ByContent rs" for rs
  proof -
    have "map k_sha256 new = map (\<lambda>r. SHA256Hex H (k_der r)) rows"
      using good by (auto simp: new_def kept)
    then show ?thesis using assms that by (simp add: old_crls_ok_def rows_def)
  qed
  then have "table_ok k_id k_sha256 result"
    using sorted newest_sublist [OF sorted] newest_distinct [OF sorted]
    by (auto simp: result_def table_ok_def split: crl_table.split)
  with good_result show "crls_ok H (content_rows (d_crls (migrated H db)))" by (simp add: result crls_ok_def)
  have "(\<lambda>r. SHA256Hex H (k_der r)) ` set result = k_sha256 ` set result" using good_result by (intro image_cong) auto
  also have "\<dots> = k_sha256 ` set new" using newest_keeps_content [of new] by (simp add: result_def split: crl_table.split)
  finally show "(\<lambda>r. SHA256Hex H (k_der r)) ` set (content_rows (d_crls (migrated H db)))
       = (\<lambda>r. SHA256Hex H (k_der r)) ` set (content_rows (d_crls db))" by (simp add: result digests rows_def)
qed

lemma migrated_ok:
  assumes "old_database_ok H db"
  shows "migrate H db = Some (migrated H db)" and "store_ok H (store_of (migrated H db))"
proof -
  have certs: "certs_ok H (d_certs (migrated H db))"
    using assms migrated_certs [of H db]
    by (auto simp: old_database_ok_def old_certs_ok_def certs_ok_def table_ok_def o_def list_all_iff digest_ok_def)
  have crls: "crls_ok H (content_rows (d_crls (migrated H db)))"
    using assms migrated_crls_ok(1) by (simp add: old_database_ok_def)
  show "migrate H db = Some (migrated H db)"
    using certs crls by (simp add: migrate_def migrated_def [symmetric] certs_ok_def crls_ok_def table_ok_def)
  have "ocsps_ok H (d_ocsps (migrated H db))" "distinct (map fst (d_crl_urls (migrated H db)))"
    using assms by (auto simp: old_database_ok_def migrated_rest backfill_ocsps_ok distinct_url_rows split: crl_table.split)
  with certs crls show "store_ok H (store_of (migrated H db))" by (simp add: store_ok_def store_of_def)
qed

text \<open>
  Property C30. A database of an earlier version opens: the result is a well-formed store with the same certificates
  under the same ids, trust, pool and source, the same contents of CRLs, each once, and for every URL a CRL was fetched
  from the newest one that came from it.
\<close>

theorem old_databases_open:
  assumes "old_database_ok H db"
  shows "\<exists>db'. migrate H db = Some db' \<and> store_ok H (store_of db')
     \<and> map (\<lambda>r. (c_id r, c_der r, c_trusted r, c_pool r, c_source r)) (certs (store_of db'))
       = map (\<lambda>r. (c_id r, c_der r, c_trusted r, c_pool r, c_source r)) (d_certs db)
     \<and> (\<lambda>r. SHA256Hex H (k_der r)) ` set (crls (store_of db')) = (\<lambda>r. SHA256Hex H (k_der r)) ` set (content_rows (d_crls db))
     \<and> (\<forall>rs u r. d_crls db = ByURL rs \<longrightarrow> (u, r) \<in> set rs \<longrightarrow> \<not> is_upload u
          \<longrightarrow> (\<forall>(u', r') \<in> set rs. u' = u \<longrightarrow> k_id r' \<le> k_id r)
          \<longrightarrow> map_of (crl_urls (store_of db')) u = Some (SHA256Hex H (k_der r)))"
proof -
  have certs: "d_certs (migrated H db) = map (\<lambda>r. r\<lparr>c_sha256 := SHA256Hex H (c_der r), c_sha1 := sha1hex H (c_der r)\<rparr>) (d_certs db)"
    using assms by (intro migrated_certs) (simp add: old_database_ok_def)
  have crls: "(\<lambda>r. SHA256Hex H (k_der r)) ` set (content_rows (d_crls (migrated H db)))
       = (\<lambda>r. SHA256Hex H (k_der r)) ` set (content_rows (d_crls db))"
    using assms by (intro migrated_crls_ok(2)) (simp add: old_database_ok_def)
  have urls: "map_of (d_crl_urls (migrated H db)) u = Some (SHA256Hex H (k_der r))"
    if rs: "d_crls db = ByURL rs" and r: "(u, r) \<in> set rs" "\<not> is_upload u"
      and newest: "\<forall>(u', r') \<in> set rs. u' = u \<longrightarrow> k_id r' \<le> k_id r" for rs u r
  proof -
    let ?rs = "map (\<lambda>(u, r). (u, backfill_crl H r)) rs"
    have id: "k_id (backfill_crl H r) = k_id r" for r by (simp add: backfill_crl_def)
    have keys: "map (\<lambda>(u, r). k_id r) ?rs = map k_id (map snd rs)" by (auto simp: id)
    have "sorted_wrt (<) (map (\<lambda>(u, r). k_id r) ?rs)"
      unfolding keys using assms rs by (simp add: old_database_ok_def old_crls_ok_def)
    moreover have "(u, backfill_crl H r) \<in> set ?rs" using r(1) by force
    moreover have "\<forall>(u', r') \<in> set ?rs. u' = u \<longrightarrow> k_id r' \<le> k_id (backfill_crl H r)" using newest by (auto simp: id)
    ultimately have "map_of (url_rows ?rs (d_crl_urls db)) u = Some (k_sha256 (backfill_crl H r))"
      using r(2) by (intro url_rows_newest)
    moreover have "digest_ok H (k_sha256 r) (k_der r)"
      using assms rs r(1) by (force simp: old_database_ok_def old_crls_ok_def list_all_iff)
    ultimately show ?thesis using rs by (simp add: migrated_rest backfill_crl_right)
  qed
  show ?thesis
    using migrated_ok [OF assms] crls urls
    by (intro exI [of _ "migrated H db"]) (auto simp: store_of_def certs)
qed

text \<open>
  Opening a database of this version changes nothing in it.
\<close>

theorem reopening_changes_nothing:
  assumes "store_ok H s"
  shows "migrate H (database_of s) = Some (database_of s)"
proof -
  have certs: "backfill_certs H (certs s) = certs s"
    using assms unfolding backfill_certs_def update_where_def store_ok_def certs_ok_def by (auto intro!: map_idI)
  have crls: "map (backfill_crl H) (crls s) = crls s"
    using assms unfolding backfill_crl_def store_ok_def crls_ok_def by (auto intro!: map_idI)
  have ocsps: "backfill_ocsps H (ocsps s) = ocsps s"
    using assms unfolding backfill_ocsps_def update_where_def store_ok_def ocsps_ok_def by (auto intro!: map_idI)
  have "distinct (map c_sha256 (certs s))" "distinct (map k_sha256 (crls s))"
    using assms by (auto simp: store_ok_def certs_ok_def crls_ok_def table_ok_def)
  then show ?thesis
    by (simp add: migrate_def database_of_def backfillSHA256_def dropSerialUnique_def splitCRLURLs_def repairSHA1_def
        certs crls ocsps)
qed

section \<open>Samples\<close>

definition old_crl :: "nat \<Rightarrow> bytes \<Rightarrow> crl_row" where
  "old_crl i der = \<lparr>k_id = i, k_issuer = ''root'', k_sha256 = '''', k_der = der, k_this = 0, k_next = 10, k_created = 0\<rparr>"

text \<open>Two CRLs from one URL, the older of which was uploaded too.\<close>

definition old_database :: database where
  "old_database = \<lparr>d_certs = [], d_serial_unique = True,
     d_crls = ByURL [(''http://a/crl'', old_crl 1 [7]), (''upload://1'', old_crl 2 [7]), (''http://a/crl'', old_crl 3 [8])],
     d_crl_urls = [], d_ocsps = [], d_version = 0\<rparr>"

lemma old_databases_open_witness:
  "\<exists>db'. migrate sample_hashes old_database = Some db'
     \<and> map_of (crl_urls (store_of db')) ''http://a/crl'' = Some (SHA256Hex sample_hashes [8])"
proof -
  have ok: "old_database_ok sample_hashes old_database"
    by (simp add: old_database_ok_def old_certs_ok_def old_crls_ok_def old_ocsps_ok_def old_database_def old_crl_def digest_ok_def)
  have rows: "d_crls old_database = ByURL [(''http://a/crl'', old_crl 1 [7]), (''upload://1'', old_crl 2 [7]), (''http://a/crl'', old_crl 3 [8])]"
    by (simp add: old_database_def)
  have "\<not> is_upload ''http://a/crl''" by code_simp
  with old_databases_open [OF ok] rows show ?thesis
    by (fastforce simp: old_crl_def)
qed

lemma reopening_changes_nothing_witness:
  "migrate sample_hashes (database_of (SaveCert sample_hashes 0
      \<lparr>a_subject = '''', a_issuer = '''', a_serial = '''', a_ski = '''', a_aki = '''', a_name_der = [], a_der = [48],
       a_is_ca = False, a_self_signed = False, a_source = ''''\<rparr> empty_store)) \<noteq> None"
  using reopening_changes_nothing [OF store_ok_SaveCert [OF store_ok_empty [of sample_hashes]]] by simp

end
