(* ===== verification/Idle.thy ===== *)
theory Idle
  imports Pki
begin

text \<open>
  The idle timeout of the client for downloads (\<open>idleTimeoutTransport\<close> and \<open>idleBody\<close> of cmd/certview/main.go), with
  what it guarantees: a download is cut exactly when no data came for the idle time.
\<close>

section \<open>The transport\<close>

definition errIdleTimeout :: goerr where
  "errIdleTimeout = text_error ''no data received within idle timeout''"

text \<open>The timer, armed for an instant or not, and the cause the context was cancelled with; the first cause stays.\<close>

record idle_state =
  id_deadline :: "gotime option"
  id_cause :: "goerr option"

definition set_cause :: "goerr \<Rightarrow> idle_state \<Rightarrow> idle_state" where
  "set_cause e s = (case id_cause s of None \<Rightarrow> s\<lparr>id_cause := Some e\<rparr> | Some _ \<Rightarrow> s)"

definition idle_start :: "gotime \<Rightarrow> gotime \<Rightarrow> idle_state" where
  "idle_start idle now = \<lparr>id_deadline = Some (now + idle), id_cause = None\<rparr>"

definition timer_fires :: "gotime \<Rightarrow> idle_state \<Rightarrow> idle_state" where
  "timer_fires now s =
     (case id_deadline s of
        Some d \<Rightarrow> if d \<le> now then set_cause errIdleTimeout (s\<lparr>id_deadline := None\<rparr>) else s
      | None \<Rightarrow> s)"

text \<open>The return of \<open>RoundTrip\<close> with an error.\<close>

definition round_trip_failed :: "goerr \<Rightarrow> idle_state \<Rightarrow> goerr \<times> idle_state" where
  "round_trip_failed e s =
     (if id_cause s = Some errIdleTimeout then errIdleTimeout else e, set_cause Canceled (s\<lparr>id_deadline := None\<rparr>))"

definition idle_read :: "gotime \<Rightarrow> gotime \<Rightarrow> nat \<Rightarrow> goerr option \<Rightarrow> idle_state \<Rightarrow> goerr option \<times> idle_state" where
  "idle_read idle now n err s =
     (let s1 = (if n > 0 then s\<lparr>id_deadline := Some (now + idle)\<rparr> else s) in
      (if err \<noteq> None \<and> id_cause s1 = Some errIdleTimeout then Some errIdleTimeout else err, s1))"

definition idle_close :: "idle_state \<Rightarrow> idle_state" where
  "idle_close s = set_cause Canceled (s\<lparr>id_deadline := None\<rparr>)"

text \<open>What happens to a download: time passes, the caller's context ends, the body is read or closed.\<close>

datatype idle_event = Time gotime | CallerDone goerr | BodyRead gotime nat "goerr option" | BodyClose

fun idle_step :: "gotime \<Rightarrow> idle_event \<Rightarrow> idle_state \<Rightarrow> idle_state" where
  "idle_step idle (Time now) s = timer_fires now s"
| "idle_step idle (CallerDone e) s = set_cause e s"
| "idle_step idle (BodyRead now n err) s = snd (idle_read idle now n err s)"
| "idle_step idle BodyClose s = idle_close s"

section \<open>When it cuts\<close>

text \<open>When data last came, the start of the request counting as data.\<close>

fun data_time :: "idle_event \<Rightarrow> gotime \<Rightarrow> gotime" where
  "data_time (BodyRead now n err) t = (if n > 0 then now else t)"
| "data_time ev t = t"

definition last_data :: "gotime \<Rightarrow> idle_event list \<Rightarrow> gotime" where
  "last_data t0 es = fold data_time es t0"

definition silent :: "gotime \<Rightarrow> gotime \<Rightarrow> idle_event list \<Rightarrow> bool" where
  "silent idle t0 es \<longleftrightarrow> (\<exists>es1 now es2. es = es1 @ Time now # es2 \<and> last_data t0 es1 + idle \<le> now)"

fun undisturbed :: "idle_event \<Rightarrow> bool" where
  "undisturbed (Time now) = True"
| "undisturbed (BodyRead now n err) = True"
| "undisturbed _ = False"

lemma silent_snoc:
  "silent idle t0 (es @ [e]) \<longleftrightarrow> silent idle t0 es \<or> (\<exists>now. e = Time now \<and> last_data t0 es + idle \<le> now)"
proof
  assume "silent idle t0 (es @ [e])"
  then obtain es1 now es2 where es: "es @ [e] = es1 @ Time now # es2" and t: "last_data t0 es1 + idle \<le> now"
    by (auto simp: silent_def)
  show "silent idle t0 es \<or> (\<exists>now. e = Time now \<and> last_data t0 es + idle \<le> now)"
  proof (cases es2 rule: rev_cases)
    case Nil
    with es t show ?thesis by auto
  next
    case (snoc ys y)
    with es have "es = es1 @ Time now # ys" by simp
    with t show ?thesis by (auto simp: silent_def)
  qed
next
  assume "silent idle t0 es \<or> (\<exists>now. e = Time now \<and> last_data t0 es + idle \<le> now)"
  then show "silent idle t0 (es @ [e])"
  proof
    assume "silent idle t0 es"
    then obtain es1 now es2 where "es = es1 @ Time now # es2" "last_data t0 es1 + idle \<le> now" by (auto simp: silent_def)
    then have "es @ [e] = es1 @ Time now # (es2 @ [e]) \<and> last_data t0 es1 + idle \<le> now" by simp
    then show ?thesis unfolding silent_def by blast
  next
    assume "\<exists>now. e = Time now \<and> last_data t0 es + idle \<le> now"
    then show ?thesis unfolding silent_def by blast
  qed
qed

lemma idle_run:
  assumes "list_all undisturbed es"
  shows "id_cause (fold (idle_step idle) es (idle_start idle t0)) = (if silent idle t0 es then Some errIdleTimeout else None)
    \<and> (id_deadline (fold (idle_step idle) es (idle_start idle t0)) = Some (last_data t0 es + idle)
      \<or> id_deadline (fold (idle_step idle) es (idle_start idle t0)) = None \<and> silent idle t0 es)"
  using assms
proof (induction es rule: rev_induct)
  case Nil
  then show ?case by (simp add: idle_start_def silent_def last_data_def)
next
  case (snoc e es)
  then show ?case
    by (cases e)
      (auto simp: silent_snoc timer_fires_def set_cause_def idle_read_def last_data_def split: option.splits)
qed

text \<open>
  Property C39. A download that neither its caller ends nor its reader closes is cut exactly when the idle time passed
  without data since the last that came; from then on every read that fails reports the idle timeout, whatever the
  connection reports.
\<close>

theorem cut_exactly_when_idle:
  assumes "list_all undisturbed es"
  shows "(id_cause (fold (idle_step idle) es (idle_start idle t0)) = Some errIdleTimeout \<longleftrightarrow>
      (\<exists>es1 now es2. es = es1 @ Time now # es2 \<and> last_data t0 es1 + idle \<le> now))
    \<and> (id_cause (fold (idle_step idle) es (idle_start idle t0)) = Some errIdleTimeout \<longrightarrow>
        fst (idle_read idle now n (Some e) (fold (idle_step idle) es (idle_start idle t0))) = Some errIdleTimeout)"
  using idle_run [OF assms, of idle t0] by (auto simp: silent_def idle_read_def)

lemma cut_exactly_when_idle_witness:
  "id_cause (fold (idle_step 30) [Time 20, BodyRead 25 100 None, Time 54, Time 55] (idle_start 30 0)) = Some errIdleTimeout
   \<and> fst (idle_read 30 56 0 (Some Canceled)
       (fold (idle_step 30) [Time 20, BodyRead 25 100 None, Time 54, Time 55] (idle_start 30 0))) = Some errIdleTimeout"
proof -
  let ?es = "[Time 20, BodyRead 25 100 None, Time 54, Time 55]"
  have "?es = [Time 20, BodyRead 25 100 None, Time 54] @ Time 55 # [] \<and> last_data 0 [Time 20, BodyRead 25 100 None, Time 54] + 30 \<le> 55"
    by (simp add: last_data_def)
  then have "\<exists>es1 now es2. ?es = es1 @ Time now # es2 \<and> last_data 0 es1 + 30 \<le> now" by blast
  with cut_exactly_when_idle [of ?es 30 0 56 0 Canceled] show ?thesis by simp
qed

end
