(* ===== verification/Fetching.thy ===== *)
theory Fetching
  imports Flight_Laws Limits_Laws
begin

text \<open>
  A single download (\<open>doFetch\<close> of cmd/certview/handler.go): what is made of the answer of the guarded client.
\<close>

record http_response =
  h_status :: int
  h_type :: string
  h_length :: int
  h_body :: body

text \<open>
  \<open>checkObjectStart\<close> peeks the first six bytes and leaves them to be read; the error of a body that ends before is met
  again by the read.
\<close>

definition doFetch :: "goerr + http_response \<Rightarrow> fetch_kind \<Rightarrow> fetched" where
  "doFetch answer kind =
     (case answer of
        Inl e \<Rightarrow> ([], '''', Some e)
      | Inr resp \<Rightarrow>
          if h_status resp \<noteq> 200 then ([], h_type resp, Some (StatusError (h_status resp)))
          else case (if kind = fetchCRL then checkObjectStart (b_bytes (h_body resp)) (fk_max kind) else None) of
            Some e \<Rightarrow> ([], h_type resp, Some e)
          | None \<Rightarrow>
              (case readLimited (h_body resp) (h_length resp) (fk_max kind) of
                 Inl e \<Rightarrow> ([], h_type resp, Some e)
               | Inr data \<Rightarrow> (data, h_type resp, None)))"

text \<open>
  Property C38. A download succeeds exactly when the server answered 200 with a body whose declared and real length are
  within the limit of its kind and which ends without an error, for a CRL one that starts as PEM or as a DER object of
  an announced size within 128 MiB; then its data is the whole body.
\<close>

theorem download_exact:
  "doFetch answer kind = (data, ctype, None) \<longleftrightarrow>
     (\<exists>resp. answer = Inr resp \<and> h_status resp = 200 \<and> ctype = h_type resp
        \<and> (kind = fetchCRL \<longrightarrow> checkObjectStart (b_bytes (h_body resp)) (128 * 1024 * 1024) = None)
        \<and> h_length resp \<le> fk_max kind \<and> int (length (b_bytes (h_body resp))) \<le> fk_max kind
        \<and> b_err (h_body resp) = None \<and> data = b_bytes (h_body resp))"
proof (cases answer)
  case (Inr resp)
  have crl: "fk_max fetchCRL = 128 * 1024 * 1024" by (simp add: fetchCRL_def maxCRLSize_def)
  show ?thesis
  proof (cases "readLimited (h_body resp) (h_length resp) (fk_max kind)")
    case (Inl e)
    then show ?thesis
      using readLimited_iff [of "h_body resp" "h_length resp" "fk_max kind" "b_bytes (h_body resp)"]
      by (auto simp: doFetch_def \<open>answer = Inr resp\<close> split: option.splits)
  next
    case (Inr whole)
    then show ?thesis
      using readLimited_iff [of "h_body resp" "h_length resp" "fk_max kind" whole]
      by (auto simp: doFetch_def \<open>answer = Inr resp\<close> crl split: option.splits)
  qed
qed (simp add: doFetch_def)

text \<open>A small CRL, of four bytes, served without its length.\<close>

definition sample_answer :: "goerr + http_response" where
  "sample_answer = Inr \<lparr>h_status = 200, h_type = ''x'', h_length = - 1, h_body = \<lparr>b_bytes = [48, 2, 5, 0], b_err = None\<rparr>\<rparr>"

lemma sample_crl_start: "checkObjectStart [48, 2, 5, 0] (128 * 1024 * 1024) = None"
  by (simp add: checkObjectStart_def size_check_def bytes_of_def has_prefix_def)

lemma download_exact_witness: "doFetch sample_answer fetchCRL = ([48, 2, 5, 0], ''x'', None)"
  using sample_crl_start by (subst download_exact) (simp add: sample_answer_def fetchCRL_def maxCRLSize_def)

end
