(* ===== verification/Status.thy ===== *)
theory Status
  imports Verdict Analysis_Sample
begin

text \<open>
  The values a response carries: the statuses it can show and how the statuses of the certificates and the status on
  revocation of the whole response belong together.
\<close>

section \<open>The status on revocation\<close>

text \<open>The positions that are checked, and what is shown at one.\<close>

definition checkable :: "chainEntry list \<Rightarrow> nat set" where
  "checkable chain = {i. i < length chain \<and> needs_check (ce_info (chain ! i))}"

definition shown_status :: "response \<Rightarrow> nat \<Rightarrow> string option" where
  "shown_status resp i = map_option rr_status (c_Revocation (r_Chain resp ! i))"

lemma revocation_verdict_status:
  "v_RevocationStatus (revocation_verdict chain f v) =
     (if \<exists>(c, r, reasons) \<in> set (checked_of chain f). rr_revoked r then ''revoked''
      else if checked_of chain f = [] then ''na''
      else if \<forall>(c, r, reasons) \<in> set (checked_of chain f). rr_status r \<noteq> '''' then ''checked'' else ''incomplete'')"
proof -
  have "filter (\<lambda>(c, r, _). rr_status r = '''') (checked_of chain f) = [] \<longleftrightarrow>
      (\<forall>(c, r, reasons) \<in> set (checked_of chain f). rr_status r \<noteq> '''')"
    by (auto simp: filter_empty_conv)
  then show ?thesis by (auto simp: revocation_verdict_def Let_def)
qed

lemma checked_of_empty:
  assumes "length (f_results f) = length chain"
  shows "checked_of chain f = [] \<longleftrightarrow> checkable chain = {}"
  using checked_of_all [OF assms, of "\<lambda>_. False"]
  by (cases "checked_of chain f") (auto simp: checkable_def split_beta)

lemma conclude_revocation:
  assumes "conclude E chain ps tr f w = Some (v, w')"
  shows "v_RevocationStatus v =
     (case chain_Verify (e_mp E) (e_num E) (DER (ce_info (hd chain))) (p_roots ps) (p_ints ps) of
        Some (Inr vr) \<Rightarrow> v_RevocationStatus (revocation_verdict chain f (verdict (ChainStatus vr) (chain_message vr)))
      | _ \<Rightarrow> '''')"
  using assms
  by (auto simp: conclude_def Let_def verdict_def split: option.splits sum.splits if_splits)

text \<open>
  Property C4. The status on revocation of a response is read off its certificates: \<open>revoked\<close> when one that is checked is
  shown revoked, \<open>na\<close> when none is checked, \<open>checked\<close> when each of them is shown unrevoked and \<open>incomplete\<close> otherwise; it
  is empty only when the verifier failed.
\<close>

theorem revocation_status_exactly:
  assumes j: "judge E isAdmin chain ps tr w = Some (Inr resp, w')"
  shows "v_RevocationStatus (r_Verify resp) =
     (case chain_Verify (e_mp E) (e_num E) (DER (ce_info (hd chain))) (p_roots ps) (p_ints ps) of
        Some (Inr vr) \<Rightarrow>
          if \<exists>i \<in> checkable chain. shown_status resp i = Some ''revoked'' then ''revoked''
          else if checkable chain = {} then ''na''
          else if \<forall>i \<in> checkable chain. shown_status resp i = Some ''not_revoked'' then ''checked'' else ''incomplete''
      | _ \<Rightarrow> '''')"
proof -
  from j obtain f w1 w2 v where
    c: "check_chain E chain ps tr [0..<length chain] \<lparr>f_results = [], f_crls = [], f_ocsps = []\<rparr> w = Some (Inr f, w1)" and
    v: "conclude E chain ps tr f w2 = Some (v, w')" and
    r: "resp = \<lparr>r_Chain = chain_json E (w_store w') chain f, r_Verify = v, r_Warnings = w_warn w', r_IsAdmin = isAdmin\<rparr>"
    by (rule judge_response)
  note len = check_chain_backed(1) [OF c]
  have shown: "(rr_revoked (fst (f_results f ! i)) \<longleftrightarrow> shown_status resp i = Some ''revoked'')
      \<and> (rr_status (fst (f_results f ! i)) \<noteq> '''' \<and> \<not> rr_revoked (fst (f_results f ! i)) \<longleftrightarrow> shown_status resp i = Some ''not_revoked'')"
    if i: "i < length chain" for i
    using check_chain_backed(2) [OF c i] chain_json_nth [OF i, of E "w_store w'" f]
    by (auto simp: r shown_status_def no_result_def justified_def split: if_splits)
  have rev: "(\<exists>(c, r, reasons) \<in> set (checked_of chain f). rr_revoked r) \<longleftrightarrow> (\<exists>i \<in> checkable chain. shown_status resp i = Some ''revoked'')"
    using checked_of_all [OF len, where P = "\<lambda>r. \<not> rr_revoked r"] shown by (fastforce simp: checkable_def)
  have ok: "(\<forall>(c, r, reasons) \<in> set (checked_of chain f). rr_status r \<noteq> '''') \<longleftrightarrow>
      (\<forall>i \<in> checkable chain. shown_status resp i = Some ''not_revoked'')"
    if "\<not> (\<exists>i \<in> checkable chain. shown_status resp i = Some ''revoked'')"
    using checked_of_all [OF len, where P = "\<lambda>r. rr_status r \<noteq> ''''"] shown that by (fastforce simp: checkable_def)
  have found: "v_RevocationStatus (revocation_verdict chain f u) =
     (if \<exists>i \<in> checkable chain. shown_status resp i = Some ''revoked'' then ''revoked''
      else if checkable chain = {} then ''na''
      else if \<forall>i \<in> checkable chain. shown_status resp i = Some ''not_revoked'' then ''checked'' else ''incomplete'')" for u
    unfolding revocation_verdict_status rev checked_of_empty [OF len] using ok by presburger
  have "r_Verify resp = v" by (simp add: r)
  then show ?thesis unfolding conclude_revocation [OF v, unfolded found, symmetric] by simp
qed

section \<open>The values of a response\<close>

text \<open>The values of \<open>rcStatus\<close>.\<close>

definition chain_statuses :: "string set" where
  "chain_statuses = {''ok'', ''expired'', ''revoked'', ''no_chain'', ''no_crl'', ''verify_failed'', ''error''}"

lemma rcStatus_values: "fst (rcStatus num rc) \<in> chain_statuses"
  by (cases rc) (auto simp: chain_statuses_def)

lemma chain_status_values:
  assumes "chain_Verify mp num leaf roots ints = Some (Inr vr)"
  shows "ChainStatus vr \<in> chain_statuses"
proof -
  obtain st c where "vr = verify_result mp num st c"
    using assms by (auto simp: chain_Verify_def split: if_splits sum.splits option.splits)
  moreover have "''ok'' \<in> chain_statuses" by (simp add: chain_statuses_def)
  ultimately show ?thesis
    using rcStatus_values [of num] by (auto simp: verify_result_def split: sum.splits prod.splits) (metis fst_conv)+
qed

lemma conclude_values:
  assumes "conclude E chain ps tr f w = Some (v, w')"
  shows "v_Status v \<in> insert ''warn'' chain_statuses
     \<and> v_RevocationStatus v \<in> {'''', ''na'', ''checked'', ''incomplete'', ''revoked''}
     \<and> (v_RevocationStatus v \<in> {''incomplete'', ''revoked''} \<longrightarrow> v_Status v \<noteq> ''ok'')
     \<and> (v_Trusted v \<longrightarrow> v_Status v \<in> {''ok'', ''warn'', ''error''})"
proof (cases "chain_Verify (e_mp E) (e_num E) (DER (ce_info (hd chain))) (p_roots ps) (p_ints ps)")
  case None
  with assms show ?thesis by (simp add: conclude_def)
next
  case (Some x)
  show ?thesis
  proof (cases x)
    case (Inl e)
    with assms Some show ?thesis by (auto simp: conclude_def verdict_def chain_statuses_def)
  next
    case (Inr vr)
    let ?v = "revocation_verdict chain f (verdict (ChainStatus vr) (chain_message vr))"
    have v: "v_Status v = v_Status ?v" "v_RevocationStatus v = v_RevocationStatus ?v"
      "v_Trusted v \<longrightarrow> ChainStatus vr = ''ok''"
      using assms Some Inr
      by (auto simp: conclude_def Let_def verdict_def revocation_verdict_def split: if_splits option.splits)
    have "v_Status ?v = ChainStatus vr \<or> ChainStatus vr = ''ok'' \<and> v_Status ?v \<in> {''error'', ''warn''}"
      "v_RevocationStatus ?v \<in> {''na'', ''checked'', ''incomplete'', ''revoked''}"
      "v_RevocationStatus ?v \<in> {''incomplete'', ''revoked''} \<longrightarrow> v_Status ?v \<noteq> ''ok''"
      by (auto simp: revocation_verdict_def verdict_def Let_def)
    moreover have "''error'' \<in> chain_statuses" by (simp add: chain_statuses_def)
    ultimately show ?thesis
      using chain_status_values [OF Some [unfolded Inr]] v by (metis insert_iff empty_iff)
  qed
qed

lemma doAnalyzeCRL_values:
  assumes "doAnalyzeCRL E isAdmin crl w = Some (resp, w')"
  shows "\<exists>cj status msg. resp = upload_response isAdmin cj status msg w' \<and> status \<in> {''ok'', ''warn'', ''error''} \<and> c_Revocation cj = None"
proof -
  have plain: "c_Revocation (upload_ca_json E s ca j) = None" "c_Revocation (missing_json name j) = None" for s ca j name
    by (simp_all add: upload_ca_json_def certToJSON_def missing_json_def)
  show ?thesis
    using assms unfolding doAnalyzeCRL_def Let_def
    by (auto split: prod.splits option.splits crl_verdict.splits) (use plain in blast)+
qed

text \<open>
  Property C5. Every response has one of the known statuses, of the chain and of its revocation, and does not call a
  chain ok whose revocation is not known or shown; what is shown of a certificate is revoked or unrevoked, by a CRL or
  by OCSP. Trust is claimed only of a chain the verifier accepts.
\<close>

theorem response_values:
  assumes "analyzeData E isAdmin input bag link w = Some (Inr resp, w')"
  shows "v_Status (r_Verify resp) \<in> insert ''warn'' chain_statuses
     \<and> v_RevocationStatus (r_Verify resp) \<in> {'''', ''na'', ''checked'', ''incomplete'', ''revoked''}
     \<and> (v_RevocationStatus (r_Verify resp) \<in> {''incomplete'', ''revoked''} \<longrightarrow> v_Status (r_Verify resp) \<noteq> ''ok'')
     \<and> (v_Trusted (r_Verify resp) \<longrightarrow> v_Status (r_Verify resp) \<in> {''ok'', ''warn'', ''error''})
     \<and> (\<forall>cj \<in> set (r_Chain resp). \<forall>res. c_Revocation cj = Some res \<longrightarrow>
          rr_status res = (if rr_revoked res then ''revoked'' else ''not_revoked'') \<and> rr_via res \<in> {''CRL'', ''OCSP''})"
  using assms
proof (cases rule: analyzeData_cases)
  case (crl l w1 der resp')
  obtain cj status msg where r: "resp' = upload_response isAdmin cj status msg w'" "status \<in> {''ok'', ''warn'', ''error''}"
    "c_Revocation cj = None" using doAnalyzeCRL_values [OF crl(3)] by blast
  have "status \<in> insert ''warn'' chain_statuses" using r(2) by (auto simp: chain_statuses_def)
  with r crl(4) show ?thesis by (simp add: upload_response_def verdict_def)
next
  case refused
  then show ?thesis by (auto simp: verdict_only_def verdict_def chain_statuses_def)
next
  case cut
  then show ?thesis by simp
next
  case (judged leaf w1 chain ps w2)
  from judged(4) obtain f w3 w4 v where
    c: "check_chain E chain ps (transients link leaf bag) [0..<length chain] \<lparr>f_results = [], f_crls = [], f_ocsps = []\<rparr> w2 = Some (Inr f, w3)" and
    v: "conclude E chain ps (transients link leaf bag) f w4 = Some (v, w')" and
    r: "resp = \<lparr>r_Chain = chain_json E (w_store w') chain f, r_Verify = v, r_Warnings = w_warn w', r_IsAdmin = isAdmin\<rparr>"
    by (rule judge_response)
  have "rr_status res = (if rr_revoked res then ''revoked'' else ''not_revoked'') \<and> rr_via res \<in> {''CRL'', ''OCSP''}"
    if shown: "cj \<in> set (r_Chain resp)" "c_Revocation cj = Some res" for cj res
  proof -
    obtain i where i: "i < length chain" "c_Revocation (chain_json E (w_store w') chain f ! i) = Some res"
      using shown by (auto simp: r in_set_conv_nth)
    then have "rr_status res \<noteq> ''''" "res = fst (f_results f ! i)"
      using chain_json_nth [OF i(1), of E "w_store w'" f] by (auto split: if_splits)
    then show ?thesis using check_chain_backed(2) [OF c i(1)] by (auto simp: no_result_def justified_def)
  qed
  with conclude_values [OF v] show ?thesis by (simp add: r)
qed

lemma admin_hint:
  assumes "analyzeData E isAdmin input bag link w = Some (Inr resp, w')" and "r_IsAdmin resp"
  shows isAdmin
  using assms(1)
proof (cases rule: analyzeData_cases)
  case (crl l w1 der resp')
  from doAnalyzeCRL_values [OF crl(3)] crl(4) assms(2) show ?thesis by (auto simp: upload_response_def)
next
  case refused
  with assms(2) show ?thesis by (auto simp: verdict_only_def)
next
  case cut
  then show ?thesis by simp
next
  case (judged leaf w1 chain ps w2)
  from judged(4) assms(2) show ?thesis by (auto elim!: judge_response)
qed

section \<open>Samples\<close>

lemma revocation_status_exactly_witness:
  "\<exists>resp w. judge sample_env False sample_chain2 sample_parts [] sample_world = Some (Inr resp, w)
     \<and> v_RevocationStatus (r_Verify resp) = ''revoked''"
proof -
  from sample_judge_run obtain x w where x: "judge sample_env False sample_chain2 sample_parts [] sample_world = Some (x, w)"
    by auto
  with sample_judge_run obtain resp where r: "x = Inr resp"
    "map c_Revocation (r_Chain resp) = [Some (no_result\<lparr>rr_status := ''revoked'', rr_revoked := True, rr_via := ''CRL''\<rparr>), None]"
    by (cases x) auto
  then have "shown_status resp 0 = Some ''revoked''" by (auto simp: shown_status_def map_eq_Cons_conv)
  moreover have "0 \<in> checkable sample_chain2"
  proof -
    have "0 < length sample_chain2 \<and> needs_check (ce_info (sample_chain2 ! 0))" by code_simp
    then show ?thesis by (simp add: checkable_def)
  qed
  moreover have "(case chain_Verify (e_mp sample_env) (e_num sample_env) (DER (ce_info (hd sample_chain2))) (p_roots sample_parts)
      (p_ints sample_parts) of Some (Inr vr) \<Rightarrow> True | _ \<Rightarrow> False)" by code_simp
  moreover from calculation have "\<exists>i \<in> checkable sample_chain2. shown_status resp i = Some ''revoked''" by blast
  ultimately have "v_RevocationStatus (r_Verify resp) = ''revoked''"
    unfolding revocation_status_exactly [OF x [unfolded r(1)]] by (simp split: option.splits sum.splits)
  with x r show ?thesis by blast
qed

lemma response_values_witness:
  "\<exists>resp w'. analyzeData sample_env False [2] [] False sample_world = Some (Inr resp, w')
     \<and> v_RevocationStatus (r_Verify resp) \<in> {'''', ''na'', ''checked'', ''incomplete'', ''revoked''} \<and> v_Status (r_Verify resp) = ''error''"
proof -
  from sample_leaf obtain resp w' where r: "analyzeData sample_env False [2] [] False sample_world = Some (Inr resp, w')"
    "v_Status (r_Verify resp) = ''error''" .
  with response_values [OF r(1)] show ?thesis by blast
qed

end
