(* ===== verification/Answers.thy ===== *)
theory Answers
  imports Endpoints_Laws RespCache_Laws Status
begin

text \<open>
  Uploads and links share the analysis cache of their listener (\<open>respondAnalysis\<close> of handler.go, \<open>analyzeLink\<close> of
  link.go over respcache.go): what a request is answered with is the response of an analysis of its own content.
\<close>

text \<open>
  What computing a key may return: \<open>up n t d v\<close> says that an analysis of the upload \<open>d\<close>, begun in epoch \<open>n\<close>, ended at time
  \<open>t\<close> with the response \<open>v\<close>, and \<open>lk\<close> the same of the certificates of a link.
\<close>

definition analysis_origin :: "hashes \<Rightarrow> (nat \<Rightarrow> gotime \<Rightarrow> bytes \<Rightarrow> response \<Rightarrow> bool)
    \<Rightarrow> (nat \<Rightarrow> gotime \<Rightarrow> CertInfo list \<Rightarrow> response \<Rightarrow> bool) \<Rightarrow> string \<Rightarrow> nat \<Rightarrow> gotime \<Rightarrow> response \<Rightarrow> bool" where
  "analysis_origin H up lk k n t v \<longleftrightarrow>
     (\<exists>d. k = SHA256Hex H d \<and> up n t d v) \<or> (\<exists>cs. k = link_key H cs \<and> lk n t cs v)"

text \<open>
  Property C6. In every interleaving of the requests of a listener, what an upload is answered with is the response of
  an analysis of content with the upload's digest, not of a link, on this listener; the analysis was begun no earlier
  than the last change of trust before the request was looked up, and when the answer is cached it ended less than the
  time to live ago. Only the admin listener's answers carry the hint that trust can be changed.
\<close>

theorem upload_answered_by_own_analysis:
  assumes "cache_reachable (analysis_origin (e_hash E) up lk) ttl s" and "i < length (cs_callers s)" and "t = cs_callers s ! i"
    and "timely (analysis_origin (e_hash E) up lk) (cs_now s) t a"
    and "get_step (ca_key t) (ca_pc t) a (cs_cache s) = Some (c, GDone (Resp v served))"
    and key: "ca_key t = SHA256Hex (e_hash E) data"
    and runs: "\<And>n t d v. up n t d v \<Longrightarrow> \<exists>w w'. doAnalyze E isAdmin d w = Some (Inr v, w')"
  shows "\<exists>d n t0. sha256_sum (e_hash E) d = sha256_sum (e_hash E) data \<and> up n t0 d v
     \<and> ca_epoch t \<le> n \<and> t0 \<le> cs_now s \<and> (served \<longrightarrow> cs_now s < t0 + ttl) \<and> (r_IsAdmin v \<longrightarrow> isAdmin)"
proof -
  obtain n t0 where o: "analysis_origin (e_hash E) up lk (ca_key t) n t0 v" and n: "ca_epoch t \<le> n" "t0 \<le> cs_now s"
    "served \<longrightarrow> cs_now s < t0 + ttl"
    using response_is_current [OF assms(1-5)] by blast
  from o key obtain d where d: "SHA256Hex (e_hash E) data = SHA256Hex (e_hash E) d" "up n t0 d v"
    using link_key_kind [of "e_hash E" _ data] by (auto simp: analysis_origin_def dest: sym)
  have "r_IsAdmin v \<longrightarrow> isAdmin" using runs [OF d(2)] admin_hint by (auto simp: doAnalyze_def)
  with d n show ?thesis by (auto simp: SHA256Hex_eq_iff)
qed

text \<open>The leaf of Analysis_Sample is uploaded; its analysis ends at once and the caller stores the response.\<close>

lemma upload_answered_by_own_analysis_witness:
  "\<exists>resp w' d t0. analyzeData sample_env False [2] [] False sample_world = Some (Inr resp, w')
     \<and> sha256_sum (e_hash sample_env) d = sha256_sum (e_hash sample_env) [2] \<and> t0 \<le> (0 :: gotime) \<and> \<not> r_IsAdmin resp"
proof -
  from sample_leaf obtain resp w' where run: "analyzeData sample_env False [2] [] False sample_world = Some (Inr resp, w')" .
  define up where "up = (\<lambda>(n :: nat) (t :: gotime) (d :: bytes) v. d = [2] \<and> v = resp)"
  define orig where "orig = analysis_origin (e_hash sample_env) up (\<lambda>n t cs v. False)"
  let ?k = "SHA256Hex (e_hash sample_env) [2]"
  obtain s where s: "cache_reachable orig 60 s" "cs_now s = 0" "cs_callers s = [\<lparr>ca_key = ?k, ca_pc = GCompute 0, ca_epoch = 0, ca_begun = 0\<rparr>]"
    "c_heap (cs_cache s) = [\<lparr>e_gate = \<lparr>chan_cap = 1, chan_len = 1\<rparr>, e_resp = None, e_expires = zero_time\<rparr>]"
  proof -
    have "\<exists>s. exec_events orig [Call ?k, Own 0 Lookup, Own 0 TakeGate, Own 0 (Check 0)] (start_cache 60 0) = Some s
        \<and> cs_now s = 0 \<and> cs_callers s = [\<lparr>ca_key = ?k, ca_pc = GCompute 0, ca_epoch = 0, ca_begun = 0\<rparr>]
        \<and> c_heap (cs_cache s) = [\<lparr>e_gate = \<lparr>chan_cap = 1, chan_len = 1\<rparr>, e_resp = None, e_expires = zero_time\<rparr>]"
      by (simp add: exec_defs)
    then show thesis using exec_start_reachable that by blast
  qed
  have "up 0 0 [2] resp" by (simp add: up_def)
  then have ti: "timely orig (cs_now s) (cs_callers s ! 0) (Computed (Inr resp) 0)"
    by (auto simp: s orig_def analysis_origin_def)
  obtain c where g: "get_step ?k (GCompute 0) (Computed (Inr resp) 0) (cs_cache s) = Some (c, GDone (Resp resp False))"
    by (simp add: leave_gate_def s(4) chan_recv_def)
  have "\<exists>d n t0. sha256_sum (e_hash sample_env) d = sha256_sum (e_hash sample_env) [2] \<and> up n t0 d resp
     \<and> ca_epoch (cs_callers s ! 0) \<le> n \<and> t0 \<le> cs_now s \<and> (False \<longrightarrow> cs_now s < t0 + 60) \<and> (r_IsAdmin resp \<longrightarrow> False)"
    by (rule upload_answered_by_own_analysis [where i = 0 and a = "Computed (Inr resp) 0" and c = c, OF s(1) [unfolded orig_def] _ refl ti [unfolded orig_def]])
      (use g run in \<open>auto simp: s up_def doAnalyze_def\<close>)
  with run show ?thesis by (auto simp: s(2))
qed

end
