(* ===== verification/Service.thy ===== *)
theory Service
  imports Endpoints Trust
begin

text \<open>
  The two listeners of cmd/certview/main.go: the routes \<open>mount\<close> registers, what \<open>net/http\<close>'s \<open>ServeMux\<close> does with a
  request (the path is cleaned, the method and the segments are matched), the admission and the guard around the
  handlers, and the state the listeners share. Unescaping a path is an argument.
\<close>

section \<open>Paths\<close>

fun split_path :: "string \<Rightarrow> string list" where
  "split_path [] = [[]]"
| "split_path (c # s) =
     (if c = CHR ''/'' then [] # split_path s
      else case split_path s of [] \<Rightarrow> [[c]] | seg # segs \<Rightarrow> (c # seg) # segs)"

fun join_path :: "string list \<Rightarrow> string" where
  "join_path [] = []"
| "join_path (seg # segs) = CHR ''/'' # seg @ join_path segs"

text \<open>\<open>path.Clean\<close> of a rooted path, on its segments; \<open>kept\<close> has the elements so far, the last one first.\<close>

fun clean_segs :: "string list \<Rightarrow> string list \<Rightarrow> string list" where
  "clean_segs kept [] = rev kept"
| "clean_segs kept (seg # segs) =
     (if seg = '''' \<or> seg = ''.'' then clean_segs kept segs
      else if seg = ''..'' then clean_segs (tl kept) segs
      else clean_segs (seg # kept) segs)"

text \<open>\<open>cleanPath\<close>: the path gets a slash in front when it has none and keeps the one at its end.\<close>

definition cleanPath :: "string \<Rightarrow> string" where
  "cleanPath p =
     (if p = '''' then ''/''
      else let segs = clean_segs [] (split_path p) in
        if segs = [] then ''/''
        else if last p = CHR ''/'' then join_path (segs @ ['''']) else join_path segs)"

section \<open>Routes\<close>

text \<open>A segment of a pattern is literal or a wildcard; the endpoint gets the wildcard's value.\<close>

datatype pattern_seg = Lit string | Wild

datatype endpoint =
    ToAnalyze
  | ToLink
  | ToCert string
  | ToDER string
  | ToSite
  | ToSiteHost string
  | ToConfig
  | ToPage page
  | ToTrust bool

record route =
  rt_method :: string
  rt_path :: "pattern_seg list"
  rt_to :: "string \<Rightarrow> endpoint"

definition mount :: "route list" where
  "mount =
    [\<lparr>rt_method = ''POST'', rt_path = [Lit ''api'', Lit ''analyze''], rt_to = (\<lambda>_. ToAnalyze)\<rparr>,
     \<lparr>rt_method = ''POST'', rt_path = [Lit ''api'', Lit ''link''], rt_to = (\<lambda>_. ToLink)\<rparr>,
     \<lparr>rt_method = ''GET'', rt_path = [Lit ''api'', Lit ''cert'', Wild], rt_to = ToCert\<rparr>,
     \<lparr>rt_method = ''GET'', rt_path = [Lit ''api'', Lit ''der'', Wild], rt_to = ToDER\<rparr>,
     \<lparr>rt_method = ''POST'', rt_path = [Lit ''api'', Lit ''site''], rt_to = (\<lambda>_. ToSite)\<rparr>,
     \<lparr>rt_method = ''GET'', rt_path = [Lit ''api'', Lit ''site'', Wild], rt_to = ToSiteHost\<rparr>,
     \<lparr>rt_method = ''GET'', rt_path = [Lit ''api'', Lit ''config''], rt_to = (\<lambda>_. ToConfig)\<rparr>]"

definition routes_of :: "bool \<Rightarrow> route list" where
  "routes_of isAdmin = mount @
     (if isAdmin
      then [\<lparr>rt_method = ''POST'', rt_path = [Lit ''api'', Lit ''trust''], rt_to = (\<lambda>_. ToTrust True)\<rparr>,
            \<lparr>rt_method = ''POST'', rt_path = [Lit ''api'', Lit ''untrust''], rt_to = (\<lambda>_. ToTrust False)\<rparr>]
      else [])"

text \<open>
  Matching on unescaped segments; a path that ends with a slash has an empty last one. A wildcard matches no slash: the
  router reads a segment \<open>%2F\<close> as the end of the path.
\<close>

fun match_segs :: "pattern_seg list \<Rightarrow> string list \<Rightarrow> string option" where
  "match_segs [] [] = Some ''''"
| "match_segs (Lit l # ps) (s # segs) = (if s = l then match_segs ps segs else None)"
| "match_segs (Wild # ps) (s # segs) =
     (if s = '''' \<or> s = ''/'' then None else map_option (\<lambda>_. s) (match_segs ps segs))"
| "match_segs _ _ = None"

fun find_route :: "route list \<Rightarrow> string \<Rightarrow> string list \<Rightarrow> endpoint option" where
  "find_route [] m segs = None"
| "find_route (r # rs) m segs =
     (case (if rt_method r = m then match_segs (rt_path r) segs else None) of
        Some v \<Rightarrow> Some (rt_to r v)
      | None \<Rightarrow> find_route rs m segs)"

text \<open>
  \<open>ServeMux\<close>: a path that is not clean is redirected to the clean one; a \<open>GET\<close> pattern serves \<open>HEAD\<close> as well; what no
  other pattern matches goes to the root handler. A \<open>CONNECT\<close> request's path is taken as it is.
\<close>

datatype served = Served endpoint | Redirected string | Refused int string

definition root_route :: "(string \<Rightarrow> bool) \<Rightarrow> (string \<Rightarrow> string) \<Rightarrow> string \<Rightarrow> served" where
  "root_route is_file unescape path =
     (if path = '''' then Refused 404 ''404 page not found'' else Served (ToPage (rootHandler is_file (unescape path))))"

definition serve_mux :: "route list \<Rightarrow> (string \<Rightarrow> bool) \<Rightarrow> (string \<Rightarrow> string) \<Rightarrow> string \<Rightarrow> string \<Rightarrow> served" where
  "serve_mux rs is_file unescape m path =
     (if path = ''*'' then Refused 400 ''''
      else let p = (if m = ''CONNECT'' then path else cleanPath path); segs = map unescape (tl (split_path p)) in
        if p \<noteq> path then Redirected p
        else case find_route rs m segs of
          Some e \<Rightarrow> Served e
        | None \<Rightarrow>
            (case (if m = ''HEAD'' then find_route rs ''GET'' segs else None) of
               Some e \<Rightarrow> Served e
             | None \<Rightarrow> root_route is_file unescape p))"

section \<open>Listeners\<close>

text \<open>The endpoints \<open>mount\<close> registers under \<open>admit\<close>: those that hold input or wait for an analysis.\<close>

fun under_admission :: "endpoint \<Rightarrow> bool" where
  "under_admission ToAnalyze = True"
| "under_admission ToLink = True"
| "under_admission (ToCert _) = True"
| "under_admission ToSite = True"
| "under_admission (ToSiteHost _) = True"
| "under_admission _ = False"

text \<open>
  A request with its \<open>Host\<close>, method and escaped path, on the public or the admin listener: the channel \<open>pending\<close> after
  its admission, and the handler it reaches or the answer it gets without one.
\<close>

definition listener :: "bool \<Rightarrow> (string \<Rightarrow> bool) \<Rightarrow> (string \<Rightarrow> string) \<Rightarrow> chan \<Rightarrow> string \<Rightarrow> string \<Rightarrow> string
    \<Rightarrow> chan \<times> served" where
  "listener isAdmin is_file unescape pending host m path =
     (case (if isAdmin then localOnly host else None) of
        Some (status, text) \<Rightarrow> (pending, Refused status text)
      | None \<Rightarrow>
          (case serve_mux (routes_of isAdmin) is_file unescape m path of
             Served e \<Rightarrow>
               if under_admission e
               then (case admit pending of
                       (sem, Inl (status, text)) \<Rightarrow> (sem, Refused status text)
                     | (sem, Inr _) \<Rightarrow> (sem, Served e))
               else (pending, Served e)
           | answer \<Rightarrow> (pending, answer)))"

text \<open>\<open>config\<close>: whether sites are fetched, and whether this is the admin listener.\<close>

definition config :: "string \<Rightarrow> bool \<Rightarrow> bool \<times> bool" where
  "config certgetURL isAdmin = (certgetURL \<noteq> '''', isAdmin)"

section \<open>The program's state\<close>

text \<open>\<open>main\<close>: one store, and caches of its own for each listener.\<close>

record ('k, 'a, 'j, 'b) app =
  ap_store :: store
  ap_public :: "('k, 'a, 'j, 'b) caches"
  ap_admin :: "('k, 'a, 'j, 'b) caches"

definition new_caches :: "gotime \<Rightarrow> string \<Rightarrow> ('k, 'a, 'j, 'b) caches" where
  "new_caches ttl certgetURL =
     \<lparr>analysisCache = newRespCache ttl, siteCache = (if certgetURL \<noteq> '''' then Some (newRespCache ttl) else None)\<rparr>"

text \<open>The endpoints for trust, of the admin listener's handler.\<close>

definition admin_trust :: "('c, 'l, 'o, 's) minipki \<Rightarrow> hashes \<Rightarrow> gotime \<Rightarrow> bool \<Rightarrow> string \<Rightarrow> (string \<times> bytes) option
    \<Rightarrow> ('k, 'a, 'j, 'b) app \<Rightarrow> ((int \<times> string) + bool) \<times> ('k, 'a, 'j, 'b) app" where
  "admin_trust mp H now on ctype body a =
     (case toggleTrust mp H now on ctype body (ap_store a) (ap_admin a) of
        (answer, s, cs) \<Rightarrow> (answer, a\<lparr>ap_store := s, ap_admin := cs\<rparr>))"

text \<open>One caller of \<open>get\<close>, run to its next wait.\<close>

fun run_get :: "'k \<Rightarrow> 'v gaction list \<Rightarrow> 'v gpc \<Rightarrow> ('k, 'v) cache \<Rightarrow> (('k, 'v) cache \<times> 'v gpc) option" where
  "run_get k [] p c = Some (c, p)"
| "run_get k (a # as) p c = (case get_step k p a c of None \<Rightarrow> None | Some (c', p') \<Rightarrow> run_get k as p' c')"

end
