(* ===== verification/Service_Laws.thy ===== *)
theory Service_Laws
  imports Service Trust_Laws RespCache_Laws Trust_Sample
begin

text \<open>
  What the listeners guarantee: trust is changed only through the admin listener, a full server refuses what must wait
  and nothing else, a redirect leads to a path that is served, and what a change of trust does to the two listeners'
  cached responses.
\<close>

section \<open>Clean paths\<close>

definition plain_seg :: "string \<Rightarrow> bool" where
  "plain_seg s \<longleftrightarrow> s \<noteq> '''' \<and> s \<noteq> ''.'' \<and> s \<noteq> ''..'' \<and> CHR ''/'' \<notin> set s"

lemma split_path_no_slash: "s \<in> set (split_path p) \<Longrightarrow> CHR ''/'' \<notin> set s"
  by (induction p arbitrary: s) (auto split: if_splits list.splits)

lemma split_path_nonempty [simp]: "split_path p \<noteq> []"
  by (induction p) (auto split: list.splits)

lemma split_path_seg: "CHR ''/'' \<notin> set s \<Longrightarrow> split_path (s @ CHR ''/'' # p) = s # split_path p"
  by (induction s) auto

lemma split_path_last: "CHR ''/'' \<notin> set s \<Longrightarrow> split_path s = [s]"
  by (induction s) auto

lemma split_join_path:
  "\<forall>s \<in> set (seg # segs). CHR ''/'' \<notin> set s \<Longrightarrow> split_path (seg @ join_path segs) = seg # segs"
proof (induction segs arbitrary: seg)
  case Nil
  then show ?case by (simp add: split_path_last)
next
  case (Cons s segs)
  then show ?case by (simp add: split_path_seg)
qed

lemma split_rooted: "\<forall>s \<in> set segs. CHR ''/'' \<notin> set s \<Longrightarrow> split_path (join_path segs) = '''' # segs"
  using split_join_path [of "''''" segs] by simp

lemma clean_segs_plain:
  "\<lbrakk>list_all plain_seg kept; \<forall>s \<in> set segs. CHR ''/'' \<notin> set s\<rbrakk> \<Longrightarrow> list_all plain_seg (clean_segs kept segs)"
proof (induction kept segs rule: clean_segs.induct)
  case (2 kept seg segs)
  then show ?case by (cases kept) (auto simp: plain_seg_def)
qed (simp add: list_all_iff)

lemma clean_segs_id: "list_all plain_seg segs \<Longrightarrow> clean_segs kept segs = rev kept @ segs"
  by (induction segs arbitrary: kept) (auto simp: plain_seg_def)

lemma clean_segs_tail: "clean_segs kept (segs @ ['''']) = clean_segs kept segs"
  by (induction kept segs rule: clean_segs.induct) auto

lemma last_join_path: "segs \<noteq> [] \<Longrightarrow> last segs \<noteq> '''' \<Longrightarrow> last (join_path segs) = last (last segs)"
  by (induction segs) (auto simp: neq_Nil_conv)

lemma join_path_append: "join_path (xs @ ys) = join_path xs @ join_path ys"
  by (induction xs) auto

lemma cleanPath_idem: "cleanPath (cleanPath p) = cleanPath p"
proof -
  define segs where "segs = clean_segs [] (split_path p)"
  have plain: "list_all plain_seg segs"
    unfolding segs_def by (rule clean_segs_plain) (auto dest: split_path_no_slash)
  then have no_slash: "\<forall>s \<in> set segs. CHR ''/'' \<notin> set s" by (auto simp: list_all_iff plain_seg_def)
  have root: "cleanPath ''/'' = ''/''" by (simp add: cleanPath_def)
  have slash: "cleanPath (join_path (segs @ [''''])) = join_path (segs @ [''''])" if "segs \<noteq> []"
  proof -
    have "split_path (join_path (segs @ [''''])) = '''' # segs @ ['''']" using no_slash by (intro split_rooted) auto
    then have "clean_segs [] (split_path (join_path (segs @ ['''']))) = segs"
      using clean_segs_id [OF plain] by (simp add: clean_segs_tail)
    then show ?thesis using that by (simp add: cleanPath_def join_path_append)
  qed
  have unslashed: "cleanPath (join_path segs) = join_path segs" if "segs \<noteq> []"
  proof -
    have "split_path (join_path segs) = '''' # segs" using no_slash by (rule split_rooted)
    then have "clean_segs [] (split_path (join_path segs)) = segs" using clean_segs_id [OF plain] by simp
    moreover have "plain_seg (last segs)" using plain that by (auto simp: list_all_iff)
    then have "last segs \<noteq> ''''" "last (last segs) \<noteq> CHR ''/''"
      by (auto simp: plain_seg_def) (metis last_in_set)
    ultimately show ?thesis using that last_join_path [of segs] by (cases segs) (auto simp: cleanPath_def)
  qed
  show ?thesis
    using root slash unslashed
    by (cases "p = ''''") (auto simp: cleanPath_def [of p] cleanPath_def [of "[]"] segs_def [symmetric] Let_def)
qed

definition passed :: "bool \<Rightarrow> string \<Rightarrow> bool" where
  "passed isAdmin host \<longleftrightarrow> (isAdmin \<longrightarrow> localOnly host = None)"

lemma listener_passed:
  "passed isAdmin host \<Longrightarrow> listener isAdmin is_file unescape pending host m path =
     (case serve_mux (routes_of isAdmin) is_file unescape m path of
        Served e \<Rightarrow> (if under_admission e then map_prod id (case_sum (case_prod Refused) (\<lambda>_. Served e)) (admit pending) else (pending, Served e))
      | answer \<Rightarrow> (pending, answer))"
  by (cases "serve_mux (routes_of isAdmin) is_file unescape m path"; cases "admit pending"; cases "snd (admit pending)")
    (auto simp: listener_def passed_def)

lemma listener_refused:
  "\<not> passed isAdmin host \<Longrightarrow> listener isAdmin is_file unescape pending host m path = (pending, Refused 403 ''admin is served on localhost only'')"
  by (auto simp: listener_def passed_def localOnly_def Let_def)

lemma listener_Redirected:
  "snd (listener isAdmin is_file unescape pending host m path) = Redirected q \<longleftrightarrow>
     passed isAdmin host \<and> serve_mux (routes_of isAdmin) is_file unescape m path = Redirected q"
  by (cases "passed isAdmin host"; cases "serve_mux (routes_of isAdmin) is_file unescape m path"; cases "snd (admit pending)")
    (auto simp: listener_passed listener_refused)

lemma listener_Served:
  "snd (listener isAdmin is_file unescape pending host m path) = Served e \<longleftrightarrow>
     passed isAdmin host \<and> serve_mux (routes_of isAdmin) is_file unescape m path = Served e
     \<and> (under_admission e \<longrightarrow> snd (admit pending) = Inr ())"
  by (cases "passed isAdmin host"; cases "serve_mux (routes_of isAdmin) is_file unescape m path"; cases "snd (admit pending)")
    (auto simp: listener_passed listener_refused)

text \<open>
  A client that is redirected to a clean path is served there: the second request, with the same method, is
  not redirected.
\<close>

theorem redirected_once:
  assumes "listener isAdmin is_file unescape pending host m path = (sem, Redirected p)"
  shows "p \<noteq> path \<and> snd (listener isAdmin is_file unescape pending host m p) \<noteq> Redirected q"
proof -
  have mux: "serve_mux (routes_of isAdmin) is_file unescape m path = Redirected p"
    using assms listener_Redirected [of isAdmin is_file unescape pending host m path p] by simp
  then have p: "p = cleanPath path" "p \<noteq> path" "m \<noteq> ''CONNECT''"
    by (auto simp: serve_mux_def root_route_def Let_def split: if_splits option.splits)
  then have "serve_mux (routes_of isAdmin) is_file unescape m p \<noteq> Redirected q"
    by (auto simp: serve_mux_def root_route_def Let_def cleanPath_idem split: option.splits)
  then show ?thesis using p(2) by (simp add: listener_Redirected)
qed

section \<open>Trust\<close>

lemma match_segs_lits: "match_segs (map Lit ls) segs = Some v \<longleftrightarrow> segs = ls \<and> v = ''''"
proof (induction ls arbitrary: segs)
  case Nil
  then show ?case by (cases segs) auto
next
  case (Cons l ls)
  then show ?case by (cases segs) auto
qed

lemma find_route_Some:
  "find_route rs m segs = Some e \<Longrightarrow> \<exists>r v. r \<in> set rs \<and> rt_method r = m \<and> match_segs (rt_path r) segs = Some v \<and> e = rt_to r v"
  by (induction rs) (auto split: option.splits if_splits)

lemma trust_routes:
  "r \<in> set (routes_of isAdmin) \<Longrightarrow> rt_to r v = ToTrust on \<Longrightarrow>
     isAdmin \<and> rt_method r = ''POST'' \<and> rt_path r = map Lit [''api'', if on then ''trust'' else ''untrust'']"
  by (auto simp: routes_of_def mount_def split: if_splits)

lemma trust_route:
  assumes "find_route (routes_of isAdmin) m segs = Some (ToTrust on)"
  shows "isAdmin \<and> m = ''POST'' \<and> segs = [''api'', if on then ''trust'' else ''untrust'']"
proof -
  obtain r v where r: "r \<in> set (routes_of isAdmin)" "rt_method r = m" "match_segs (rt_path r) segs = Some v" "ToTrust on = rt_to r v"
    using find_route_Some [OF assms] by blast
  from trust_routes [OF r(1) r(4) [symmetric]] r(2,3) match_segs_lits show ?thesis by metis
qed

lemma public_trust_unrouted:
  "find_route (routes_of False) ''POST'' [''api'', ''trust''] = None"
  "find_route (routes_of False) ''POST'' [''api'', ''untrust''] = None"
  by (simp_all add: routes_of_def mount_def)

text \<open>
  Property C16. Trust is changed only by a \<open>POST\<close> to \<open>/api/trust\<close> or \<open>/api/untrust\<close> on the admin listener, addressed to
  localhost; on the public listener such a request is not found. Of unescaping it relies on leaving text without \<open>%\<close>
  alone.
\<close>

theorem trust_only_through_admin:
  assumes "\<And>s. CHR ''%'' \<notin> set s \<Longrightarrow> unescape s = s"
  shows "(listener isAdmin is_file unescape pending host m path = (sem, Served (ToTrust on)) \<longrightarrow>
        isAdmin \<and> localOnly host = None \<and> m = ''POST''
        \<and> map unescape (tl (split_path path)) = [''api'', if on then ''trust'' else ''untrust''])
     \<and> listener False is_file unescape pending host ''POST'' ''/api/trust'' = (pending, Served (ToPage PageNotFound))
     \<and> listener False is_file unescape pending host ''POST'' ''/api/untrust'' = (pending, Served (ToPage PageNotFound))"
proof (intro conjI impI)
  assume l: "listener isAdmin is_file unescape pending host m path = (sem, Served (ToTrust on))"
  then have host: "isAdmin \<longrightarrow> localOnly host = None"
    and mux: "serve_mux (routes_of isAdmin) is_file unescape m path = Served (ToTrust on)"
    using listener_Served [of isAdmin is_file unescape pending host m path "ToTrust on"] by (simp_all add: passed_def)
  from mux have "find_route (routes_of isAdmin) m (map unescape (tl (split_path path))) = Some (ToTrust on)
      \<or> find_route (routes_of isAdmin) ''GET'' (map unescape (tl (split_path path))) = Some (ToTrust on)"
    by (auto simp: serve_mux_def root_route_def Let_def split: if_splits option.splits)
  then show "isAdmin" "m = ''POST''" "map unescape (tl (split_path path)) = [''api'', if on then ''trust'' else ''untrust'']"
    using trust_route by fastforce+
  with host show "localOnly host = None" by blast
next
  have plain: "unescape ''api'' = ''api''" "unescape ''trust'' = ''trust''" "unescape ''untrust'' = ''untrust''"
    "unescape ''/api/trust'' = ''/api/trust''" "unescape ''/api/untrust'' = ''/api/untrust''"
    by (simp_all add: assms)
  show "listener False is_file unescape pending host ''POST'' ''/api/trust'' = (pending, Served (ToPage PageNotFound))"
    by (simp add: listener_def serve_mux_def cleanPath_def plain public_trust_unrouted root_route_def rootHandler_def has_prefix_def)
  show "listener False is_file unescape pending host ''POST'' ''/api/untrust'' = (pending, Served (ToPage PageNotFound))"
    by (simp add: listener_def serve_mux_def cleanPath_def plain public_trust_unrouted root_route_def rootHandler_def has_prefix_def)
qed

section \<open>A full server\<close>

lemma admit_eq: "admit pending = (case chan_send pending of Some p \<Rightarrow> (p, Inr ()) | None \<Rightarrow> (pending, Inl (503, err_text ErrBusy)))"
  by (simp add: admit_def)

text \<open>The routes, read off their table.\<close>

lemma match_two: "match_segs [Lit a, Lit b] segs = (if segs = [a, b] then Some '''' else None)"
  using match_segs_lits [of "[a, b]" segs] by (cases "match_segs [Lit a, Lit b] segs") auto

lemma match_wild: "match_segs [Lit a, Lit b, Wild] segs =
   (case segs of [x, y, v] \<Rightarrow> if x = a \<and> y = b \<and> v \<noteq> '''' \<and> v \<noteq> ''/'' then Some v else None | _ \<Rightarrow> None)"
  by (auto split: list.split)

lemma match_none: "match_segs [Lit a, Lit b, Wild] [a', b'] = None" "match_segs [Lit a, Lit b] [a', b', v] = None"
  by auto

text \<open>Which routes are under admission, as a table of requests.\<close>

definition holds_input :: "string \<Rightarrow> string list \<Rightarrow> bool" where
  "holds_input m segs \<longleftrightarrow>
     m = ''POST'' \<and> segs \<in> {[''api'', ''analyze''], [''api'', ''link''], [''api'', ''site'']}
   \<or> m \<in> {''GET'', ''HEAD''} \<and> (\<exists>v. v \<noteq> '''' \<and> v \<noteq> ''/'' \<and> segs \<in> {[''api'', ''cert'', v], [''api'', ''site'', v]})"

lemma admitted_routes:
  "(\<exists>e. find_route (routes_of isAdmin) m segs = Some e \<and> under_admission e) \<longleftrightarrow>
     m = ''POST'' \<and> segs \<in> {[''api'', ''analyze''], [''api'', ''link''], [''api'', ''site'']}
   \<or> m = ''GET'' \<and> (\<exists>v. v \<noteq> '''' \<and> v \<noteq> ''/'' \<and> segs \<in> {[''api'', ''cert'', v], [''api'', ''site'', v]})"
proof (cases "m = ''POST'' \<or> m = ''GET''")
  case False
  then show ?thesis by (auto simp: routes_of_def mount_def)
next
  case True
  then show ?thesis
    by (elim disjE; cases isAdmin)
      (auto simp: routes_of_def mount_def match_two match_wild simp del: match_segs.simps split: list.splits if_splits)
qed

lemma head_unrouted: "find_route (routes_of isAdmin) ''HEAD'' segs = None" "find_route (routes_of isAdmin) ''CONNECT'' segs = None"
  by (simp_all add: routes_of_def mount_def)

lemma star_not_clean: "cleanPath ''*'' \<noteq> ''*''"
  by (simp add: cleanPath_def)

lemma served_under_admission:
  "(\<exists>e. serve_mux (routes_of isAdmin) is_file unescape m path = Served e \<and> under_admission e) \<longleftrightarrow>
     cleanPath path = path \<and> holds_input m (map unescape (tl (split_path path)))"
proof -
  let ?segs = "map unescape (tl (split_path path))" and ?find = "find_route (routes_of isAdmin)"
  have page: "\<not> (\<exists>e. root_route is_file unescape path = Served e \<and> under_admission e)" by (simp add: root_route_def)
  show ?thesis
  proof (cases "cleanPath path = path \<and> path \<noteq> ''*''")
    case False
    then have "cleanPath path \<noteq> path" using star_not_clean by blast
    then show ?thesis using page by (auto simp: serve_mux_def Let_def head_unrouted)
  next
    case True
    then have clean: "(if m = ''CONNECT'' then path else cleanPath path) = path" "path \<noteq> ''*''" by simp_all
    then have "serve_mux (routes_of isAdmin) is_file unescape m path = (case ?find m ?segs of Some e \<Rightarrow> Served e
        | None \<Rightarrow> (case (if m = ''HEAD'' then ?find ''GET'' ?segs else None) of
            Some e \<Rightarrow> Served e | None \<Rightarrow> root_route is_file unescape path))"
      unfolding serve_mux_def clean(1) Let_def by simp
    then have "(\<exists>e. serve_mux (routes_of isAdmin) is_file unescape m path = Served e \<and> under_admission e) \<longleftrightarrow>
        (\<exists>e. ?find (if m = ''HEAD'' then ''GET'' else m) ?segs = Some e \<and> under_admission e)"
      using page by (auto simp: head_unrouted split: option.splits)
    also have "\<dots> \<longleftrightarrow> holds_input m ?segs" unfolding admitted_routes holds_input_def by auto
    finally show ?thesis using True by simp
  qed
qed

text \<open>
  Property C40. While as many requests as allowed are under way, a request is refused at once as busy exactly when it is a
  \<open>POST\<close> to \<open>/api/analyze\<close>, \<open>/api/link\<close> or \<open>/api/site\<close>, or a \<open>GET\<close> or \<open>HEAD\<close> of \<open>/api/cert/\<close> or \<open>/api/site/\<close> with one more
  segment, on either listener: those hold input or wait for an analysis. Pages, stored objects, the configuration and
  changes of trust are answered as ever, and so is a redirect. With room, no request is refused as busy.
\<close>

theorem full_server_refuses:
  assumes "isAdmin \<longrightarrow> localOnly host = None"
  shows "snd (listener isAdmin is_file unescape pending host m path) = Refused 503 text \<longleftrightarrow>
       text = ''server busy, try again later'' \<and> chan_send pending = None \<and> cleanPath path = path
       \<and> (let segs = map unescape (tl (split_path path)) in
            m = ''POST'' \<and> segs \<in> {[''api'', ''analyze''], [''api'', ''link''], [''api'', ''site'']}
          \<or> m \<in> {''GET'', ''HEAD''} \<and> (\<exists>v. v \<noteq> '''' \<and> v \<noteq> ''/'' \<and> segs \<in> {[''api'', ''cert'', v], [''api'', ''site'', v]}))"
proof -
  have "serve_mux (routes_of isAdmin) is_file unescape m path \<noteq> Refused 503 text"
    by (simp add: serve_mux_def root_route_def Let_def split: option.split)
  then have "snd (listener isAdmin is_file unescape pending host m path) = Refused 503 text \<longleftrightarrow>
       text = ''server busy, try again later'' \<and> chan_send pending = None
       \<and> (\<exists>e. serve_mux (routes_of isAdmin) is_file unescape m path = Served e \<and> under_admission e)"
    using assms
    by (cases "serve_mux (routes_of isAdmin) is_file unescape m path"; cases "chan_send pending")
      (auto simp: listener_passed passed_def admit_eq)
  then show ?thesis by (simp only: served_under_admission holds_input_def Let_def)
qed

section \<open>Two listeners\<close>

text \<open>A caller that finds a fresh response and a free gate is answered with it.\<close>

lemma run_get_hit:
  assumes "map_of (c_entries c) k = Some r" and "chan_send (e_gate (c_heap c ! r)) = Some g" and "r < length (c_heap c)"
    and "e_resp (c_heap c ! r) = Some v" and "t < e_expires (c_heap c ! r)"
  shows "\<exists>c'. run_get k [Lookup, TakeGate, Check t] GNew c = Some (c', GDone (Resp v True))"
proof -
  have "chan_recv g \<noteq> None" using assms(2) by (auto simp: chan_send_def chan_recv_def split: if_splits)
  with assms show ?thesis by (auto simp: get_lookup_def put_entry_def leave_gate_def)
qed

text \<open>After a purge the caller of any key has to compute.\<close>

lemma run_get_purged:
  "\<exists>c' r. run_get k [Lookup, TakeGate, Check t] GNew (purge c) = Some (c', GCompute r)"
  by (auto simp: get_lookup_def purge_def respCacheMax_def put_entry_def new_entry_def make_chan_def chan_send_def)

text \<open>
  Property C17. A change of trust empties the caches of the admin listener only: a response cached for the public one is
  answered there, as a hit, until it expires, while the admin listener has to compute it anew.
\<close>

theorem public_answers_outlive_untrust:
  assumes "admin_trust mp H now on ctype body a = (Inr t, a')"
    and "map_of (c_entries (analysisCache (ap_public a))) k = Some r" and "r < length (c_heap (analysisCache (ap_public a)))"
    and "e_resp (c_heap (analysisCache (ap_public a)) ! r) = Some v"
    and "chan_send (e_gate (c_heap (analysisCache (ap_public a)) ! r)) \<noteq> None"
    and "later < e_expires (c_heap (analysisCache (ap_public a)) ! r)"
  shows "(\<exists>c. run_get k [Lookup, TakeGate, Check later] GNew (analysisCache (ap_public a')) = Some (c, GDone (Resp v True)))
     \<and> (\<exists>c r'. run_get k [Lookup, TakeGate, Check later] GNew (analysisCache (ap_admin a')) = Some (c, GCompute r'))"
proof -
  obtain s' cs' where run: "toggleTrust mp H now on ctype body (ap_store a) (ap_admin a) = (Inr t, s', cs')"
    and a': "a' = a\<lparr>ap_store := s', ap_admin := cs'\<rparr>"
    using assms(1) by (auto simp: admin_trust_def split: prod.splits)
  have "cs' = purge_all (ap_admin a)"
    using run by (cases rule: toggleTrust_cases) (auto split: sum.splits)
  moreover have "\<exists>c. run_get k [Lookup, TakeGate, Check later] GNew (analysisCache (ap_public a)) = Some (c, GDone (Resp v True))"
    using run_get_hit [OF assms(2) _ assms(3,4,6)] assms(5) by blast
  ultimately show ?thesis using run_get_purged by (simp add: a' purge_all_def del: run_get.simps)
qed

section \<open>Samples\<close>

lemma redirected_once_witness:
  "snd (listener False (\<lambda>_. False) id (make_chan 64) ''a.org'' ''GET'' ''/a//b'') = Redirected ''/a/b''
   \<and> snd (listener False (\<lambda>_. False) id (make_chan 64) ''a.org'' ''GET'' ''/a/b'') \<noteq> Redirected ''/''"
proof -
  have "listener False (\<lambda>_. False) id (make_chan 64) ''a.org'' ''GET'' ''/a//b'' = (make_chan 64, Redirected ''/a/b'')"
    by (simp add: listener_def serve_mux_def cleanPath_def)
  with redirected_once [OF this, of "''/''"] show ?thesis by simp
qed

lemma trust_only_through_admin_witness:
  "snd (listener True (\<lambda>_. False) id (make_chan 64) ''localhost:8081'' ''POST'' ''/api/untrust'') = Served (ToTrust False)
   \<and> localOnly ''localhost:8081'' = None
   \<and> listener False (\<lambda>_. False) id (make_chan 64) ''a.org'' ''POST'' ''/api/trust'' = (make_chan 64, Served (ToPage PageNotFound))"
proof -
  have "localOnly ''localhost:8081'' = None" by code_simp
  then have l: "listener True (\<lambda>_. False) id (make_chan 64) ''localhost:8081'' ''POST'' ''/api/untrust''
      = (make_chan 64, Served (ToTrust False))"
    by (simp add: listener_def serve_mux_def cleanPath_def routes_of_def mount_def)
  have "True \<and> localOnly ''localhost:8081'' = None"
    using trust_only_through_admin [of id True "\<lambda>_. False" "make_chan 64" "''localhost:8081''" "''POST''" "''/api/untrust''"
        "make_chan 64" False] l by auto
  moreover have "listener False (\<lambda>_. False) id (make_chan 64) ''a.org'' ''POST'' ''/api/trust''
      = (make_chan 64, Served (ToPage PageNotFound))"
    using trust_only_through_admin [of id False "\<lambda>_. False" "make_chan 64" "''a.org''" "''POST''" "''/api/trust''"] by auto
  ultimately show ?thesis using l by simp
qed

lemma full_server_refuses_witness:
  "snd (listener False (\<lambda>_. False) id \<lparr>chan_cap = 64, chan_len = 64\<rparr> ''a.org'' ''POST'' ''/api/analyze'')
     = Refused 503 ''server busy, try again later''"
proof -
  have "cleanPath ''/api/analyze'' = ''/api/analyze''" by (simp add: cleanPath_def)
  moreover have "chan_send \<lparr>chan_cap = 64, chan_len = 64\<rparr> = None" by (simp add: chan_send_def)
  ultimately show ?thesis
    using full_server_refuses [of False "''a.org''" "\<lambda>_. False" id "\<lparr>chan_cap = 64, chan_len = 64\<rparr>" "''POST''" "''/api/analyze''"
        "''server busy, try again later''"] by simp
qed

text \<open>The root of Trust_Sample is untrusted while the public listener has an answer computed before.\<close>

definition sample_app :: "(string, string, string, unit) app" where
  "sample_app = \<lparr>ap_store = root_store,
     ap_public = \<lparr>analysisCache = \<lparr>c_entries = [(''k'', 0)],
         c_heap = [\<lparr>e_gate = make_chan 1, e_resp = Some ''trusted'', e_expires = 60 * nsec\<rparr>], c_ttl = 60 * nsec\<rparr>,
       siteCache = None\<rparr>,
     ap_admin = new_caches (60 * nsec) ''''\<rparr>"

lemma public_answers_outlive_untrust_witness:
  "\<exists>a'. admin_trust bundle_mp sample_hashes 0 False ''application/json'' (Some (sample_root, [])) sample_app = (Inr False, a')
     \<and> (\<exists>c. run_get ''k'' [Lookup, TakeGate, Check (59 * nsec)] GNew (analysisCache (ap_public a'))
           = Some (c, GDone (Resp ''trusted'' True)))"
proof -
  obtain s' cs' where t: "toggleTrust bundle_mp sample_hashes 0 False ''application/json'' (Some (sample_root, [])) root_store
      (ap_admin sample_app) = (Inr False, s', cs')"
    using root_untrusted [of "ap_admin sample_app"] by (metis prod.collapse)
  have "ap_store sample_app = root_store" by (simp add: sample_app_def)
  with t obtain a' where a': "admin_trust bundle_mp sample_hashes 0 False ''application/json'' (Some (sample_root, [])) sample_app
      = (Inr False, a')" by (simp add: admin_trust_def)
  from public_answers_outlive_untrust [OF a', of "''k''" 0 "''trusted''" "59 * nsec"] a' show ?thesis
    by (auto simp del: run_get.simps simp: sample_app_def make_chan_def chan_send_def nsec_def)
qed

end
