(* ===== verification/Lifecycle.thy ===== *)
theory Lifecycle
  imports Service_Laws Site_Laws Link_Laws Migration_Laws
begin

text \<open>
  The program over its whole life: the start of cmd/certview/main.go from the database it finds, the writes of the
  analyses of both listeners, the administrator's requests and any number of restarts. What is trusted at the end is
  what was decided last.
\<close>

section \<open>What analyses write\<close>

text \<open>A write of an analysis; the certificates it archives are never filed under a bundle's name.\<close>

definition bundle_name :: "string \<Rightarrow> bool" where
  "bundle_name src \<longleftrightarrow> src = ''mozilla'' \<or> src = ''ru-gov''"

fun save_source :: "store_op \<Rightarrow> string" where
  "save_source (Op_SaveCert t a) = a_source a"
| "save_source (Op_SavePoolCert t a) = a_source a"
| "save_source op = ''''"

definition analysis_save :: "store_op \<Rightarrow> bool" where
  "analysis_save op \<longleftrightarrow> analysis_op op \<and> \<not> bundle_name (save_source op)"

definition saved :: "hashes \<Rightarrow> store \<Rightarrow> store \<Rightarrow> bool" where
  "saved H s s' \<longleftrightarrow> (\<exists>ops. list_all analysis_save ops \<and> s' = fold (apply_op H) ops s)"

lemma saved_refl: "saved H s s"
  unfolding saved_def by (rule exI [of _ "[]"]) simp

lemma saved_trans: "saved H s s' \<Longrightarrow> saved H s' s'' \<Longrightarrow> saved H s s''"
  unfolding saved_def by (elim exE, rule_tac x = "ops @ opsa" in exI) simp

lemma saved_op: "analysis_save op \<Longrightarrow> saved H s (apply_op H op s)"
  unfolding saved_def by (rule exI [of _ "[op]"]) simp

lemma saved_ops:
  "\<not> bundle_name (a_source a) \<Longrightarrow> saved H s (SaveCert H t a s)"
  "\<not> bundle_name (a_source a) \<Longrightarrow> saved H s (fst (SavePoolCert H t a s))"
  "saved H s (SaveCRL H t1 t2 t3 i u d b n s)"
  "saved H s (fst (SaveOCSP H t1 t2 th u st d b n p s))"
  using saved_op [of "Op_SaveCert t a" H s] saved_op [of "Op_SavePoolCert t a" H s] saved_op [of "Op_SaveCRL t1 t2 t3 i u d b n" H s]
    saved_op [of "Op_SaveOCSP t1 t2 th u st d b n p" H s]
  by (simp_all add: analysis_save_def bundle_name_def)

lemma source_args_of [simp]: "a_source (args_of c src) = src"
  by (simp add: args_of_def)

interpretation sourced: check_laws E tr "\<lambda>k r. True" "saved (e_hash E)" "\<lambda>src. \<not> bundle_name src" for E :: "('c, 'l, 'o, 's, 'n) env" and tr
  by unfold_locales (auto intro: saved_refl saved_trans saved_ops simp: bundle_name_def)

lemma analyzeData_saved:
  assumes a: "analyzeData E isAdmin input bag link w = Some (x, w')"
    and bag: "sources_in (\<lambda>src. \<not> bundle_name src) bag" and tls: "link \<Longrightarrow> \<forall>c \<in> set bag. bc_source c \<noteq> ''tls''"
  shows "saved (e_hash E) (w_store w) (w_store w')"
  using a
proof (cases rule: analyzeData_cases)
  case (crl l w1 der resp)
  from sourced.doAnalyzeCRL_R [OF crl(3) refl crl(2)] crl(1) show ?thesis by simp
next
  case refused
  then show ?thesis by (simp add: saved_refl)
next
  case (cut leaf w1 e)
  from sourced.analyze_chain_R [OF cut(3) refl bag] tls cut(1) show ?thesis by simp
next
  case (judged leaf w1 chain ps w2)
  have "saved (e_hash E) (w_store w1) (w_store w2)" using sourced.analyze_chain_R [OF judged(3) refl bag] tls by simp
  from saved_trans [OF this] sourced.judge_R [OF judged(4)] judged(1) show ?thesis by simp
qed

lemma site_results_saved:
  "site_results E pem isAdmin rs w = Some (x, w') \<Longrightarrow> saved (e_hash E) (w_store w) (w_store w')"
proof (induction rs arbitrary: w x)
  case Nil
  then show ?case by (simp add: saved_refl)
next
  case (Cons r rs)
  have bag: "sources_in (\<lambda>src. \<not> bundle_name src) (site_bag mp ds)" for mp and ds :: "bytes list"
    by (auto simp: sources_in_def site_bag_def List.map_filter_def bundle_name_def split: sum.splits)
  from Cons.prems show ?case
  proof (cases rule: site_resultsE)
    case (failed e ds)
    from analyzeData_saved [OF failed(2) bag] show ?thesis by simp
  next
    case (next_client sr w1 res)
    have "saved (e_hash E) (w_store w) (w_store w1)"
      using next_client(2) by (auto simp: saved_refl dest!: analyzeData_saved [OF _ bag])
    with Cons.IH [OF next_client(3)] show ?thesis by (blast intro: saved_trans)
  qed
qed

text \<open>
  Whatever is uploaded, sent in a link or presented by a site, an analysis is a sequence of such writes.
\<close>

lemma analyses_save:
  "doAnalyze E isAdmin data w = Some (x, w') \<Longrightarrow> saved (e_hash E) (w_store w) (w_store w')"
  "doAnalyzeLink E isAdmin cs w = Some (x, w') \<Longrightarrow> saved (e_hash E) (w_store w) (w_store w')"
  "doAnalyzeSite E S isAdmin url host port sni w = Some (y, w') \<Longrightarrow> saved (e_hash E) (w_store w) (w_store w')"
proof -
  show "doAnalyze E isAdmin data w = Some (x, w') \<Longrightarrow> saved (e_hash E) (w_store w) (w_store w')"
    unfolding doAnalyze_def by (erule analyzeData_saved) (simp_all add: sources_in_def)
  show "doAnalyzeLink E isAdmin cs w = Some (x, w') \<Longrightarrow> saved (e_hash E) (w_store w) (w_store w')"
    unfolding doAnalyzeLink_def by (erule analyzeData_saved) (auto simp: sources_in_def link_bag_def bundle_name_def)
  show "doAnalyzeSite E S isAdmin url host port sni w = Some (y, w') \<Longrightarrow> saved (e_hash E) (w_store w) (w_store w')"
    by (auto simp: doAnalyzeSite_def saved_refl dest!: site_results_saved split: prod.splits sum.splits)
qed

section \<open>The program\<close>

text \<open>What \<open>main\<close> is given: the library, the hashes, the embedded bundles, the caches' time to live, certget's URL.\<close>

record ('c, 'l, 'o, 's) program =
  pg_mp :: "('c, 'l, 'o, 's) minipki"
  pg_hash :: hashes
  pg_mozilla :: bytes
  pg_russian :: bytes
  pg_ttl :: gotime
  pg_certget :: string

text \<open>What \<open>main\<close> makes of the database: it is opened, the bundles are imported, the caches are made. \<open>None\<close>: it exits.\<close>

definition startup :: "('c, 'l, 'o, 's) program \<Rightarrow> (nat \<Rightarrow> gotime) \<Rightarrow> (nat \<Rightarrow> gotime) \<Rightarrow> database \<Rightarrow> ('k, 'a, 'j, 'b) app option" where
  "startup P clock1 clock2 db =
     map_option (\<lambda>db'.
         \<lparr>ap_store = ImportDefaults (pg_mp P) (pg_hash P) clock1 clock2 (pg_mozilla P) (pg_russian P) (store_of db'),
          ap_public = new_caches (pg_ttl P) (pg_certget P), ap_admin = new_caches (pg_ttl P) (pg_certget P)\<rparr>)
       (migrate (pg_hash P) db)"

text \<open>
  The whole of \<open>main\<close>: what opening the library, the database file and the embedded page gave, and the two addresses.
  \<open>Inl\<close>: the call \<open>log.Fatalf\<close> names before it ends the program. \<open>Inr\<close>: the state and the listeners, each with its address
  and whether it is the admin one. A bundle that does not import is only logged.
\<close>

definition listeners_of :: "string \<Rightarrow> string \<Rightarrow> (string \<times> bool) list" where
  "listeners_of addr adminAddr = (addr, False) # (if adminAddr \<noteq> '''' then [(adminAddr, True)] else [])"

definition main :: "('c, 'l, 'o, 's) program \<Rightarrow> goerr option \<Rightarrow> goerr + database \<Rightarrow> goerr option \<Rightarrow> (nat \<Rightarrow> gotime) \<Rightarrow> (nat \<Rightarrow> gotime)
    \<Rightarrow> string \<Rightarrow> string \<Rightarrow> string + ('k, 'a, 'j, 'b) app \<times> (string \<times> bool) list" where
  "main P pki_open db_open read_index clock1 clock2 addr adminAddr =
     (case pki_open of Some e \<Rightarrow> Inl ''pki.Open''
      | None \<Rightarrow>
         (case db_open of Inl e \<Rightarrow> Inl ''store.Open''
          | Inr db \<Rightarrow>
             (case startup P clock1 clock2 db of None \<Rightarrow> Inl ''store.Open''
              | Some a \<Rightarrow>
                 (case read_index of Some e \<Rightarrow> Inl ''web/index.html''
                  | None \<Rightarrow> Inr (a, listeners_of addr adminAddr)))))"

text \<open>
  One step, labelled with the trust it set: a single write of an analysis under way, any change of the listeners' caches,
  a request of the administrator, a restart on the database the program left.
\<close>

inductive app_step :: "('c, 'l, 'o, 's) program \<Rightarrow> ('k, 'a, 'j, 'b) app \<Rightarrow> (string \<times> bool) option \<Rightarrow> ('k, 'a, 'j, 'b) app \<Rightarrow> bool"
  for P where
  save: "analysis_save op \<Longrightarrow> app_step P a None (a\<lparr>ap_store := apply_op (pg_hash P) op (ap_store a)\<rparr>)"
| respond: "app_step P a None (a\<lparr>ap_public := pub, ap_admin := adm\<rparr>)"
| granted: "admin_trust (pg_mp P) (pg_hash P) now on ctype (Some (sha, der)) a = (Inr t, a') \<Longrightarrow>
    app_step P a (Some (to_upper sha, t)) a'"
| refused: "admin_trust (pg_mp P) (pg_hash P) now on ctype body a = (Inl e, a') \<Longrightarrow> app_step P a None a'"
| restart: "startup P clock1 clock2 (database_of (ap_store a)) = Some a' \<Longrightarrow> app_step P a None a'"

inductive app_run :: "('c, 'l, 'o, 's) program \<Rightarrow> ('k, 'a, 'j, 'b) app \<Rightarrow> (string \<times> bool) option list \<Rightarrow> ('k, 'a, 'j, 'b) app \<Rightarrow> bool"
  for P where
  stop: "app_run P a [] a"
| go_on: "app_step P a l b \<Longrightarrow> app_run P b ls c \<Longrightarrow> app_run P a (l # ls) c"

text \<open>What was decided last on a certificate, and what was trusted before any decision.\<close>

fun last_decision :: "string \<Rightarrow> (string \<times> bool) option list \<Rightarrow> bool \<Rightarrow> bool" where
  "last_decision h [] t = t"
| "last_decision h (None # ls) t = last_decision h ls t"
| "last_decision h (Some (k, d) # ls) t = last_decision h ls (if k = h then d else t)"


section \<open>The entries that decide\<close>

text \<open>Of a digest: the trust in its entry, and whether the entry is filed where a restart leaves it alone.\<close>

fun view_trusts :: "(string option \<times> bool \<times> bool) option \<Rightarrow> bool" where
  "view_trusts None = False"
| "view_trusts (Some (src, self, t)) = t"

definition roots_in :: "('c, 'l, 'o, 's) program \<Rightarrow> bytes \<Rightarrow> string list" where
  "roots_in P data = bundle_roots (pg_hash P) (bundle_certs (pg_mp P) (splitPEM data))"

definition settled :: "('c, 'l, 'o, 's) program \<Rightarrow> string \<Rightarrow> (string option \<times> bool \<times> bool) option \<Rightarrow> bool" where
  "settled P h v \<longleftrightarrow>
     (if h \<in> set (roots_in P (pg_mozilla P)) then \<exists>self t. v = Some (Some ''mozilla'', self, t)
      else if h \<in> set (roots_in P (pg_russian P)) then \<exists>self t. v = Some (Some ''ru-gov'', self, t)
      else \<forall>src self t. v = Some (Some src, self, t) \<longrightarrow> bundle_name src \<longrightarrow> \<not> self)"

text \<open>What is relied on of the two embedded bundles: readable roots, in one of them only, and no empty certificate.\<close>

definition bundles_ok :: "('c, 'l, 'o, 's) program \<Rightarrow> bool" where
  "bundles_ok P \<longleftrightarrow>
     roots_in P (pg_mozilla P) \<noteq> [] \<and> good_bundle (pg_hash P) (bundle_certs (pg_mp P) (splitPEM (pg_mozilla P)))
   \<and> roots_in P (pg_russian P) \<noteq> [] \<and> good_bundle (pg_hash P) (bundle_certs (pg_mp P) (splitPEM (pg_russian P)))
   \<and> set (roots_in P (pg_mozilla P)) \<inter> set (roots_in P (pg_russian P)) = {}"

abbreviation defaults :: "('c, 'l, 'o, 's) program \<Rightarrow> (nat \<Rightarrow> gotime) \<Rightarrow> (nat \<Rightarrow> gotime) \<Rightarrow> store \<Rightarrow> store" where
  "defaults P clock1 clock2 \<equiv> ImportDefaults (pg_mp P) (pg_hash P) clock1 clock2 (pg_mozilla P) (pg_russian P)"

lemma trusted_by_view: "IsCertTrusted h s = view_trusts (trust_view (ledger s) (to_upper h))"
  by (simp add: trusted_view split: option.split prod.split)

lemma ImportDefaults_view:
  assumes "bundles_ok P"
  obtains v1 where
    "v1 = (if h \<in> set (roots_in P (pg_mozilla P)) then import_view ''mozilla'' (trust_view (ledger s) h)
           else withdraw_view ''mozilla'' (trust_view (ledger s) h))
      \<or> h \<notin> set (roots_in P (pg_mozilla P)) \<and> trust_view (ledger s) h = None \<and> v1 = Some (Some ''mozilla'', False, False)"
    "trust_view (ledger (defaults P clock1 clock2 s)) h
       = (if h \<in> set (roots_in P (pg_russian P)) then import_view ''ru-gov'' v1 else withdraw_view ''ru-gov'' v1)
      \<or> h \<notin> set (roots_in P (pg_russian P)) \<and> v1 = None
        \<and> trust_view (ledger (defaults P clock1 clock2 s)) h = Some (Some ''ru-gov'', False, False)"
proof -
  note b = assms [unfolded bundles_ok_def roots_in_def]
  show thesis
    by (rule that [OF importBundle_view [OF refl, of "pg_hash P" "pg_mp P" "pg_mozilla P" clock1 "''mozilla''" s h, folded roots_in_def]])
      (use b importBundle_view [OF refl, of "pg_hash P" "pg_mp P" "pg_russian P" clock2 "''ru-gov''" _ h]
        in \<open>simp_all add: ImportDefaults_def roots_in_def\<close>)
qed

lemma start_settles:
  assumes "bundles_ok P"
  shows "settled P h (trust_view (ledger (defaults P clock1 clock2 s)) h)"
proof -
  have disj: "h \<in> set (roots_in P (pg_mozilla P)) \<Longrightarrow> h \<notin> set (roots_in P (pg_russian P))"
    using assms by (auto simp: bundles_ok_def)
  from ImportDefaults_view [OF assms, of h s clock1 clock2] disj show ?thesis
    by cases (cases "trust_view (ledger s) h"; auto simp: settled_def bundle_name_def split: if_splits)
qed

lemma restart_keeps:
  assumes b: "bundles_ok P" and "settled P h (trust_view (ledger s) h)"
  shows "view_trusts (trust_view (ledger (defaults P clock1 clock2 s)) h) = view_trusts (trust_view (ledger s) h)"
proof -
  have disj: "h \<in> set (roots_in P (pg_mozilla P)) \<Longrightarrow> h \<notin> set (roots_in P (pg_russian P))"
    using b by (auto simp: bundles_ok_def)
  from ImportDefaults_view [OF b, of h s clock1 clock2] disj assms(2) show ?thesis
    by cases (cases "trust_view (ledger s) h"; auto simp: settled_def bundle_name_def split: if_splits)
qed


text \<open>A write of an analysis leaves an entry's view, or makes one that is not trusted and not a bundle's.\<close>

lemma upsert_view:
  assumes "\<And>e. (en_source (f e), en_self (f e), en_trusted (f e)) = (en_source e, en_self e, en_trusted e)"
  shows "trust_view (upsert H False p f a m) h = trust_view m h
    \<or> trust_view m h = None \<and> trust_view (upsert H False p f a m) h = Some (Some (a_source a), a_self_signed a, False)"
  using assms by (auto simp: trust_view_def upsert_def new_ledger_entry_def split: option.split)

lemma save_view:
  assumes "analysis_save op"
  shows "trust_view (ledger (apply_op H op s)) h = trust_view (ledger s) h
    \<or> trust_view (ledger s) h = None \<and>
       (\<exists>src self. trust_view (ledger (apply_op H op s)) h = Some (Some src, self, False) \<and> \<not> bundle_name src)"
proof (cases op)
  case (Op_SaveCert t a)
  with upsert_view [of id H False a "ledger s" h] assms show ?thesis
    by (auto simp: ledger_apply_op analysis_save_def simp del: apply_op.simps)
next
  case (Op_SavePoolCert t a)
  with upsert_view [of "\<lambda>e. e\<lparr>en_pool := True\<rparr>" H True a "ledger s" h] assms show ?thesis
    by (auto simp: ledger_apply_op analysis_save_def simp del: apply_op.simps)
qed (use assms in \<open>simp_all add: ledger_apply_op analysis_save_def del: apply_op.simps\<close>)

lemma save_settled:
  assumes "analysis_save op" and "settled P h (trust_view (ledger s) h)"
  shows "settled P h (trust_view (ledger (apply_op H op s)) h)
    \<and> view_trusts (trust_view (ledger (apply_op H op s)) h) = view_trusts (trust_view (ledger s) h)"
proof (cases "trust_view (ledger (apply_op H op s)) h = trust_view (ledger s) h")
  case True
  with assms(2) show ?thesis by simp
next
  case False
  with save_view [OF assms(1), of H s h] assms(2) show ?thesis by (auto simp: settled_def split: if_splits)
qed

text \<open>What the administrator sets.\<close>

lemma set_view:
  "trust_view (ledger (fst (SetTrusted sha on s))) h =
     (if h = to_upper sha then map_option (\<lambda>(src, self, t). (src, self, on)) (trust_view (ledger s) h) else trust_view (ledger s) h)"
  by (auto simp: ledger_SetTrusted trust_view_def split: option.split)

lemma set_settled:
  assumes "settled P h (trust_view (ledger s) h)"
  shows "settled P h (trust_view (ledger (fst (SetTrusted sha on s))) h)"
  using assms unfolding set_view by (cases "trust_view (ledger s) h") (auto simp: settled_def split: if_splits)

lemma admin_effect:
  assumes a: "admin_trust mp H now on ctype body a = (answer, a')" and s: "settled P (to_upper h) (trust_view (ledger (ap_store a)) (to_upper h))"
  shows "settled P (to_upper h) (trust_view (ledger (ap_store a')) (to_upper h))"
    and "store_ok H (ap_store a) \<Longrightarrow> store_ok H (ap_store a')"
    and "answer = Inl e \<Longrightarrow> IsCertTrusted h (ap_store a') = IsCertTrusted h (ap_store a)"
    and "answer = Inr t \<Longrightarrow> body = Some (sha, der) \<Longrightarrow>
      IsCertTrusted h (ap_store a') = (if to_upper sha = to_upper h then t else IsCertTrusted h (ap_store a))"
proof -
  obtain s' cs' where run: "toggleTrust mp H now on ctype body (ap_store a) (ap_admin a) = (answer, s', cs')"
    and a': "a' = a\<lparr>ap_store := s', ap_admin := cs'\<rparr>"
    using a by (auto simp: admin_trust_def split: prod.splits)
  have "settled P (to_upper h) (trust_view (ledger s') (to_upper h)) \<and> (store_ok H (ap_store a) \<longrightarrow> store_ok H s')
     \<and> (case answer of Inl e \<Rightarrow> IsCertTrusted h s' = IsCertTrusted h (ap_store a)
        | Inr t \<Rightarrow> \<forall>sha der. body = Some (sha, der) \<longrightarrow>
            IsCertTrusted h s' = (if to_upper sha = to_upper h then t else IsCertTrusted h (ap_store a)))"
    using run
  proof (cases rule: toggleTrust_cases)
    case refused
    with s show ?thesis by simp
  next
    case (asked sha der s1 r)
    have admin: "analysis_save (Op_SaveCert now (args_of c ''admin''))" for c by (simp add: analysis_save_def bundle_name_def)
    have "settled P (to_upper h) (trust_view (ledger s1) (to_upper h)) \<and> (store_ok H (ap_store a) \<longrightarrow> store_ok H s1)
        \<and> IsCertTrusted h s1 = IsCertTrusted h (ap_store a)"
      using save_settled [OF admin s, of H] asked(3) s by (auto simp: store_ok_SaveCert trust_simps)
    then show ?thesis
      using set_settled [of P "to_upper h" s1 sha on] store_ok_SetTrusted [of H s1 sha on] SetTrusted_effect(2,3) [OF asked(4)] asked
      by (auto split: sum.splits)
  qed
  then show "settled P (to_upper h) (trust_view (ledger (ap_store a')) (to_upper h))"
    "store_ok H (ap_store a) \<Longrightarrow> store_ok H (ap_store a')"
    "answer = Inl e \<Longrightarrow> IsCertTrusted h (ap_store a') = IsCertTrusted h (ap_store a)"
    "answer = Inr t \<Longrightarrow> body = Some (sha, der) \<Longrightarrow>
      IsCertTrusted h (ap_store a') = (if to_upper sha = to_upper h then t else IsCertTrusted h (ap_store a))"
    by (simp_all add: a')
qed

section \<open>Stores stay well formed\<close>

lemma import_blocks_ok: "store_ok H (b_store b) \<Longrightarrow> store_ok H (b_store (import_blocks mp H clock source i blocks b))"
proof (induction blocks arbitrary: i b)
  case (Cons block blocks)
  have "store_ok H (b_store (import_root H now source c b))" for c now
    using store_ok_ImportTrustedCert [OF Cons.prems, of now "args_of c source"]
    by (auto simp: import_root_def split: prod.split)
  moreover have "store_ok H (b_store (import_other H now source c b))" for c now
    using Cons.prems by (simp add: import_other_def store_ok_SavePoolCert)
  ultimately show ?case using Cons by (auto split: sum.split)
qed simp

lemma ImportDefaults_ok: "store_ok H s \<Longrightarrow> store_ok H (ImportDefaults mp H clock1 clock2 mozilla russian s)"
  by (simp add: ImportDefaults_def importBundle_def Let_def import_blocks_ok store_ok_WithdrawBundleRoots)

lemma store_of_database_of [simp]: "store_of (database_of s) = s"
  by (simp add: store_of_def database_of_def)

lemma reopened:
  assumes "store_ok (pg_hash P) s"
  shows "startup P clock1 clock2 (database_of s) = Some
    \<lparr>ap_store = defaults P clock1 clock2 s, ap_public = new_caches (pg_ttl P) (pg_certget P),
     ap_admin = new_caches (pg_ttl P) (pg_certget P)\<rparr>"
  using reopening_changes_nothing [OF assms] by (simp add: startup_def)

section \<open>Whole lives\<close>

text \<open>What every step keeps, for one digest.\<close>

definition app_ok :: "('c, 'l, 'o, 's) program \<Rightarrow> string \<Rightarrow> ('k, 'a, 'j, 'b) app \<Rightarrow> bool" where
  "app_ok P h a \<longleftrightarrow> store_ok (pg_hash P) (ap_store a) \<and> settled P h (trust_view (ledger (ap_store a)) h)"

lemma step_ok:
  assumes "app_step P a l a'" and b: "bundles_ok P" and ok: "app_ok P (to_upper h) a"
  shows "app_ok P (to_upper h) a' \<and> IsCertTrusted h (ap_store a') = last_decision (to_upper h) [l] (IsCertTrusted h (ap_store a))"
  using assms(1)
proof cases
  case (save op)
  with ok save_settled [of op P "to_upper h" "ap_store a" "pg_hash P"] show ?thesis
    by (simp add: app_ok_def trusted_by_view store_ok_apply_op)
next
  case (respond pub adm)
  with ok show ?thesis by (simp add: app_ok_def)
next
  case (granted now on ctype sha der t)
  with ok admin_effect [OF granted(2), of P h] show ?thesis by (auto simp: app_ok_def)
next
  case (refused now on ctype body e)
  with ok admin_effect [OF refused(2), of P h] show ?thesis by (auto simp: app_ok_def)
next
  case (restart clock1 clock2)
  from ok have st: "store_ok (pg_hash P) (ap_store a)" "settled P (to_upper h) (trust_view (ledger (ap_store a)) (to_upper h))"
    by (simp_all add: app_ok_def)
  have "ap_store a' = defaults P clock1 clock2 (ap_store a)" using restart(2) by (auto simp: reopened [OF st(1)])
  then show ?thesis
    using restart(1) st start_settles [OF b] restart_keeps [OF b st(2)] by (simp add: app_ok_def trusted_by_view ImportDefaults_ok)
qed

lemma run_ok:
  assumes "app_run P a ls a'" and "bundles_ok P" and "app_ok P (to_upper h) a"
  shows "app_ok P (to_upper h) a' \<and> IsCertTrusted h (ap_store a') = last_decision (to_upper h) ls (IsCertTrusted h (ap_store a))"
  using assms(1,3)
proof (induction rule: app_run.induct)
  case (stop a)
  then show ?case by simp
next
  case (go_on a l b ls c)
  have "last_decision k (l # ls) t = last_decision k ls (last_decision k [l] t)" for k t
    by (cases l) auto
  with step_ok [OF go_on(1) assms(2) go_on.prems] go_on.IH show ?case by (simp del: last_decision.simps)
qed


text \<open>A whole analysis, which is a sequence of such writes, is a run; it decides nothing.\<close>

lemma saved_run:
  assumes "saved (pg_hash P) (ap_store a) s'"
  shows "\<exists>n. app_run P a (replicate n None) (a\<lparr>ap_store := s'\<rparr>)"
proof -
  obtain ops where "list_all analysis_save ops" "s' = fold (apply_op (pg_hash P)) ops (ap_store a)"
    using assms by (auto simp: saved_def)
  then have "app_run P a (replicate (length ops) None) (a\<lparr>ap_store := s'\<rparr>)"
  proof (induction ops arbitrary: a)
    case Nil
    then show ?case by (simp add: app_run.stop)
  next
    case (Cons op ops)
    from Cons.prems(1) have op: "analysis_save op" and ops: "list_all analysis_save ops" by simp_all
    let ?a = "a\<lparr>ap_store := apply_op (pg_hash P) op (ap_store a)\<rparr>"
    have "app_run P ?a (replicate (length ops) None) (?a\<lparr>ap_store := s'\<rparr>)"
      using Cons.prems(2) by (intro Cons.IH [OF ops]) simp
    with app_run.go_on [OF app_step.save [of op P a, OF op]] show ?case by simp
  qed
  then show ?thesis ..
qed

text \<open>
  Property C14. From the start on a database of any version, through any interleaving of analyses' writes, cached
  answers, requests of the administrator and restarts, a certificate is trusted exactly when the administrator's last
  decision on it was to trust it, or when none was made and it was trusted at the start. The program can always be
  started again, and that changes no trust.
\<close>

theorem last_decision_stands:
  fixes a0 a :: "('k, 'a, 'j, 'b) app"
  assumes "bundles_ok P" and "old_database_ok (pg_hash P) db" and "startup P clock1 clock2 db = Some a0" and "app_run P a0 ls a"
  shows "IsCertTrusted h (ap_store a) = last_decision (to_upper h) ls (IsCertTrusted h (ap_store a0))
     \<and> (\<exists>a' :: ('k, 'a, 'j, 'b) app. startup P clock3 clock4 (database_of (ap_store a)) = Some a'
          \<and> IsCertTrusted h (ap_store a') = IsCertTrusted h (ap_store a))"
proof -
  have "ap_store a0 = defaults P clock1 clock2 (store_of (migrated (pg_hash P) db))"
    using assms(3) migrated_ok(1) [OF assms(2)] by (auto simp: startup_def)
  then have "app_ok P (to_upper h) a0"
    using migrated_ok(2) [OF assms(2)] by (simp add: app_ok_def ImportDefaults_ok start_settles [OF assms(1)])
  note run = run_ok [OF assms(4,1) this]
  then have ok: "store_ok (pg_hash P) (ap_store a)" "settled P (to_upper h) (trust_view (ledger (ap_store a)) (to_upper h))"
    by (simp_all add: app_ok_def)
  show ?thesis
    using run restart_keeps [OF assms(1) ok(2)] by (simp add: trusted_by_view reopened [OF ok(1)])
qed

section \<open>A sample\<close>

text \<open>The bundles of Trust_Sample on an empty database: the root is untrusted, a copy of it is uploaded, the program restarts.\<close>

definition sample_program :: "(bytes, bytes, bytes, bytes list) program" where
  "sample_program = \<lparr>pg_mp = bundle_mp, pg_hash = sample_hashes, pg_mozilla = bundle_data [77, 73], pg_russian = bundle_data [],
     pg_ttl = 60 * nsec, pg_certget = ''''\<rparr>"

lemma sample_program_bundles: "bundles_ok sample_program" "roots_in sample_program (pg_mozilla sample_program) = [sample_root]"
  by (simp_all add: bundles_ok_def roots_in_def sample_program_def sample_bundle dash_def sample_bundle_roots sample_bundle_good)
    (simp add: sample_root_def SHA256Hex_eq_iff, simp add: sample_hashes_def)

lemma sample_database: "old_database_ok sample_hashes (database_of empty_store)"
  by (simp add: old_database_ok_def old_certs_ok_def old_crls_ok_def old_ocsps_ok_def database_of_def empty_store_def)

lemma last_decision_stands_witness:
  "\<exists>(a0 :: (string, response, string, unit) app) a1 (a :: (string, response, string, unit) app).
     startup sample_program (\<lambda>_. 0) (\<lambda>_. 1) (database_of empty_store) = Some a0
     \<and> IsCertTrusted sample_root (ap_store a0)
     \<and> admin_trust bundle_mp sample_hashes 5 False ''application/json'' (Some (sample_root, [])) a0 = (Inr False, a1)
     \<and> startup sample_program (\<lambda>_. 6) (\<lambda>_. 7) (database_of (SaveCert sample_hashes 5 (args_of (sample_info [1]) '''') (ap_store a1))) = Some a
     \<and> \<not> IsCertTrusted sample_root (ap_store a)"
proof -
  have old: "old_database_ok (pg_hash sample_program) (database_of empty_store)"
    using sample_database by (simp add: sample_program_def)
  define a0 :: "(string, response, string, unit) app" where
    "a0 = the (startup sample_program (\<lambda>_. 0) (\<lambda>_. 1) (database_of empty_store))"
  have s0: "ap_store a0 = defaults sample_program (\<lambda>_. 0) (\<lambda>_. 1) empty_store"
    and start: "startup sample_program (\<lambda>_. 0) (\<lambda>_. 1) (database_of empty_store) = Some a0"
    by (simp_all add: a0_def reopened store_ok_empty)
  have upper: "to_upper sample_root = sample_root" by (rule root_ledger(3))
  have not2: "sample_root \<notin> set (roots_in sample_program (pg_russian sample_program))"
    using sample_program_bundles by (auto simp: bundles_ok_def)
  from ImportDefaults_view [OF sample_program_bundles(1), of sample_root empty_store "\<lambda>_. 0" "\<lambda>_. 1"] not2
  have "trust_view (ledger (ap_store a0)) sample_root = Some (Some ''mozilla'', True, True)"
    unfolding s0 by cases (auto simp: sample_program_bundles(2) trust_view_def)
  then have led: "ledger (ap_store a0) sample_root \<noteq> None" and before: "IsCertTrusted sample_root (ap_store a0)"
    by (auto simp: trust_view_def trusted_by_view upper)
  have "length sample_root > 0" by (simp add: sample_root_def length_SHA256Hex sample_hashes_def)
  then have "sample_root \<noteq> []" by blast
  then obtain a1 where untrust: "admin_trust bundle_mp sample_hashes 5 False ''application/json'' (Some (sample_root, [])) a0 = (Inr False, a1)"
    using led by (simp add: admin_trust_def toggleTrust_def has_prefix_def SetTrusted_def listed_iff upper)
  define a2 where "a2 = a1\<lparr>ap_store := SaveCert sample_hashes 5 (args_of (sample_info [1]) '''') (ap_store a1)\<rparr>"
  have step1: "app_step sample_program a0 (Some (sample_root, False)) a1"
    using app_step.granted [of sample_program 5 False "''application/json''" sample_root "[]" a0 False a1] untrust
    by (simp add: sample_program_def upper)
  have step2: "app_step sample_program a1 None a2"
    using app_step.save [of "Op_SaveCert 5 (args_of (sample_info [1]) '''')" sample_program a1]
    by (simp add: a2_def analysis_save_def bundle_name_def sample_program_def)
  have "app_run sample_program a0 [Some (sample_root, False), None] a2"
    by (intro go_on [OF step1] go_on [OF step2] stop)
  from last_decision_stands [OF sample_program_bundles(1) old start this, of sample_root "\<lambda>_. 6" "\<lambda>_. 7"]
  obtain a :: "(string, response, string, unit) app" where "startup sample_program (\<lambda>_. 6) (\<lambda>_. 7) (database_of (ap_store a2)) = Some a" "\<not> IsCertTrusted sample_root (ap_store a)"
    by (auto simp: upper)
  with start before untrust show ?thesis unfolding a2_def 
    by (intro exI [of _ a0] exI [of _ a1] exI [of _ a] conjI) simp_all
qed

end
