(* ===== verification/Downloads.thy ===== *)
theory Downloads
  imports Fetching Endpoints_Laws
begin

text \<open>
  The downloads of all analyses together (\<open>fetchWithInfo\<close> and \<open>postOCSP\<close> of cmd/certview/handler.go over \<open>fetchFlight\<close>
  and \<open>doFetch\<close>): the key a request is shared under, and that whatever is shared, an analysis is answered with what a
  server said to its own request.
\<close>

section \<open>Requests and their keys\<close>

datatype request = GetURL string | PostTo string bytes

fun request_url :: "request \<Rightarrow> string" where
  "request_url (GetURL url) = url"
| "request_url (PostTo url body) = url"

text \<open>What analyses ask for: AIA and CRLs by \<open>fetchWithInfo\<close>, OCSP by \<open>postOCSP\<close>.\<close>

definition asked_for :: "fetch_kind \<Rightarrow> request \<Rightarrow> bool" where
  "asked_for kind req \<longleftrightarrow>
     (case req of GetURL url \<Rightarrow> kind = fetchAIA \<or> kind = fetchCRL | PostTo url body \<Rightarrow> kind = fetchOCSP)"

fun request_key :: "hashes \<Rightarrow> fetch_kind \<Rightarrow> request \<Rightarrow> string" where
  "request_key H kind (GetURL url) = fk_name kind @ '' '' @ url"
| "request_key H kind (PostTo url body) = ''OCSP '' @ url @ '' '' @ SHA256Hex H body"

text \<open>A request enters \<open>do\<close>; \<open>parse\<close> is \<open>net/url\<close>.\<close>

definition download :: "hashes \<Rightarrow> (string \<Rightarrow> neturl option) \<Rightarrow> flight \<Rightarrow> goerr option \<Rightarrow> fetch_kind \<Rightarrow> request \<Rightarrow> gotime \<Rightarrow> gotime
    \<Rightarrow> 32 word option \<Rightarrow> flight \<times> 32 word option \<times> (goerr + nat)" where
  "download H parse f ctx kind req now1 now2 budget =
     do_enter f ctx kind (request_key H kind req) (urlEndpoint (request_url req) (parse (request_url req))) now1 now2 budget"

text \<open>
  What the function given to \<open>do\<close> may return for a key: \<open>doFetch\<close> of an answer the network may give to a request with this
  key; an error in making the request is one of the answers.
\<close>

definition answers_key :: "hashes \<Rightarrow> (fetch_kind \<Rightarrow> request \<Rightarrow> goerr + http_response \<Rightarrow> bool) \<Rightarrow> string \<Rightarrow> fetched \<Rightarrow> bool" where
  "answers_key H network key x \<longleftrightarrow>
     (\<exists>kind req answer. asked_for kind req \<and> key = request_key H kind req \<and> network kind req answer \<and> x = doFetch answer kind)"

definition honest :: "hashes \<Rightarrow> (fetch_kind \<Rightarrow> request \<Rightarrow> goerr + http_response \<Rightarrow> bool) \<Rightarrow> flight \<Rightarrow> bool" where
  "honest H network f \<longleftrightarrow> (\<forall>c \<in> set (f_heap f). \<forall>x b. k_progress c = Returned x b \<longrightarrow> answers_key H network (k_key c) x)"

text \<open>Runs of all callers, with what each asked for: a request comes, or any other step of the shared downloads.\<close>

inductive download_run :: "hashes \<Rightarrow> (string \<Rightarrow> neturl option) \<Rightarrow> (fetch_kind \<Rightarrow> request \<Rightarrow> goerr + http_response \<Rightarrow> bool)
    \<Rightarrow> fsys \<Rightarrow> (fetch_kind \<times> request) list \<Rightarrow> bool" for H parse network where
  start: "download_run H parse network (start_flight ttl) []"
| ask: "\<lbrakk>download_run H parse network s asked; asked_for kind req;
      download H parse (fs_flight s) ctx kind req now1 now2 b = (f, b', x);
      p = (case x of Inl e \<Rightarrow> DEnd (Inl e) | Inr r \<Rightarrow> DWait r)\<rbrakk>
    \<Longrightarrow> download_run H parse network \<lparr>fs_flight = f, fs_pcs = fs_pcs s @ [p]\<rparr> (asked @ [(kind, req)])"
| move: "\<lbrakk>download_run H parse network s asked; flight_step s s'; length (fs_pcs s') = length (fs_pcs s);
      honest H network (fs_flight s')\<rbrakk>
    \<Longrightarrow> download_run H parse network s' asked"

section \<open>Keys tell requests apart\<close>

definition same_request :: "hashes \<Rightarrow> request \<Rightarrow> request \<Rightarrow> bool" where
  "same_request H req req' \<longleftrightarrow>
     (case (req, req') of
        (GetURL url, GetURL url') \<Rightarrow> url = url'
      | (PostTo url body, PostTo url' body') \<Rightarrow> url = url' \<and> sha256_sum H body = sha256_sum H body'
      | _ \<Rightarrow> False)"

lemma SHA256Hex_no_space: "CHR '' '' \<notin> set (SHA256Hex H d)"
  using SHA256Hex_chars [of "CHR '' ''" H d] by auto

lemma last_word:
  assumes "a @ CHR '' '' # x = b @ CHR '' '' # y" and "CHR '' '' \<notin> set x" and "CHR '' '' \<notin> set y"
  shows "a = b \<and> x = y"
  using assms by (auto simp: append_eq_append_conv2 Cons_eq_append_conv append_eq_Cons_conv)

lemma request_keys:
  assumes "asked_for kind req" and "asked_for kind' req'" and "request_key H kind req = request_key H kind' req'"
  shows "kind = kind' \<and> same_request H req req'"
proof (cases req)
  case (GetURL url)
  with assms show ?thesis
    by (cases req') (auto simp: asked_for_def same_request_def fetchAIA_def fetchCRL_def fetchOCSP_def)
next
  case (PostTo url body)
  with assms obtain url' body' where req': "req' = PostTo url' body'" "kind' = kind"
    by (cases req') (auto simp: asked_for_def fetchAIA_def fetchCRL_def)
  with assms(3) PostTo have "url @ CHR '' '' # SHA256Hex H body = url' @ CHR '' '' # SHA256Hex H body'" by simp
  from last_word [OF this] SHA256Hex_no_space [of H] have "url = url'" "SHA256Hex H body = SHA256Hex H body'" by simp_all
  with PostTo req' show ?thesis by (simp add: same_request_def SHA256Hex_eq_iff)
qed

section \<open>What a caller is answered\<close>

definition caller_answered :: "hashes \<Rightarrow> (fetch_kind \<Rightarrow> request \<Rightarrow> goerr + http_response \<Rightarrow> bool) \<Rightarrow> flight \<Rightarrow> string \<Rightarrow> dpc \<Rightarrow> bool" where
  "caller_answered H network f key p \<longleftrightarrow>
     (case p of
        DWait r \<Rightarrow> r < length (f_heap f) \<and> k_key (f_heap f ! r) = key
      | DEnd (Inr x) \<Rightarrow> answers_key H network key x
      | _ \<Rightarrow> True)"

fun result_of :: "progress \<Rightarrow> fetched option" where
  "result_of Running = None"
| "result_of (Returned x b) = Some x"
| "result_of (Completed x) = Some x"

definition callers_answered :: "hashes \<Rightarrow> (fetch_kind \<Rightarrow> request \<Rightarrow> goerr + http_response \<Rightarrow> bool) \<Rightarrow> flight
    \<Rightarrow> (fetch_kind \<times> request) list \<Rightarrow> dpc list \<Rightarrow> bool" where
  "callers_answered H network f = list_all2 (\<lambda>(kind, req). caller_answered H network f (request_key H kind req))"

definition call_answered :: "hashes \<Rightarrow> (fetch_kind \<Rightarrow> request \<Rightarrow> goerr + http_response \<Rightarrow> bool) \<Rightarrow> call \<Rightarrow> bool" where
  "call_answered H network c \<longleftrightarrow> (\<forall>x. result_of (k_progress c) = Some x \<longrightarrow> answers_key H network (k_key c) x)"

lemma call_answered_result: "\<lbrakk>call_answered H network c; result_of (k_progress c) = Some x\<rbrakk> \<Longrightarrow> answers_key H network (k_key c) x"
  by (simp add: call_answered_def)

lemma call_answered_same:
  "\<lbrakk>call_answered H network c; k_progress c' = k_progress c; k_key c' = k_key c\<rbrakk> \<Longrightarrow> call_answered H network c'"
  by (simp add: call_answered_def)

text \<open>A result is one for the call's key, and a caller waits for a call of its key or was answered with one.\<close>

definition downloads_ok :: "hashes \<Rightarrow> (fetch_kind \<Rightarrow> request \<Rightarrow> goerr + http_response \<Rightarrow> bool) \<Rightarrow> fsys \<Rightarrow> (fetch_kind \<times> request) list
    \<Rightarrow> bool" where
  "downloads_ok H network s asked \<longleftrightarrow>
     flight_ok s
   \<and> (\<forall>c \<in> set (f_heap (fs_flight s)). call_answered H network c)
   \<and> callers_answered H network (fs_flight s) asked (fs_pcs s)"

text \<open>What a step that is no request does to the calls and to the callers.\<close>

lemma call_replaced:
  assumes "\<forall>c \<in> set h. call_answered H network c" and "r < length h" and "k_key c = k_key (h ! r)"
    and "\<And>x. result_of (k_progress c) = Some x \<Longrightarrow> result_of (k_progress (h ! r)) = Some x \<or> answers_key H network (k_key c) x"
  shows "map k_key (h[r := c]) = map k_key h \<and> (\<forall>c \<in> set (h[r := c]). call_answered H network c)"
proof -
  have "call_answered H network (h ! r)" using assms(1,2) by simp
  then have "call_answered H network c" using assms(3,4) unfolding call_answered_def by metis
  moreover have "map k_key (h[r := c]) = map k_key h" using assms(3) by (metis list_update_id map_update)
  ultimately show ?thesis using assms(1) set_update_subset_insert [of h r c] by blast
qed

lemma call_moved:
  assumes h: "f_heap f' = h[r := c]" and r: "r < length h" and c: "k_key c = k_key (h ! r)"
    and new: "\<And>x. result_of (k_progress c) = Some x \<Longrightarrow> result_of (k_progress (h ! r)) = Some x \<or> (\<exists>b. k_progress c = Returned x b)"
    and "\<forall>c \<in> set h. call_answered H network c" and "honest H network f'"
  shows "map k_key (f_heap f') = map k_key h \<and> (\<forall>c \<in> set (f_heap f'). call_answered H network c)"
proof -
  have "c \<in> set (f_heap f')" using r h by (simp add: set_update_memI)
  then have "answers_key H network (k_key c) y" if "k_progress c = Returned y b" for y b
    using assms(6) that unfolding honest_def by blast
  with new have "result_of (k_progress (h ! r)) = Some y \<or> answers_key H network (k_key c) y"
    if "result_of (k_progress c) = Some y" for y using that by blast
  then show ?thesis unfolding h by (rule call_replaced [OF assms(5) r c])
qed

lemma moved_calls:
  assumes "flight_step s s'" and "length (fs_pcs s') = length (fs_pcs s)" and "honest H network (fs_flight s')"
    and ok: "flight_ok s" and "\<forall>c \<in> set (f_heap (fs_flight s)). call_answered H network c"
  shows "map k_key (f_heap (fs_flight s')) = map k_key (f_heap (fs_flight s))
    \<and> (\<forall>c \<in> set (f_heap (fs_flight s')). call_answered H network c)"
proof -
  let ?h = "f_heap (fs_flight s)"
  note one = call_moved [OF _ _ _ _ assms(5,3)]
  from assms(1) show ?thesis
  proof cases
    case enter
    with assms(2) show ?thesis by simp
  next
    case got
    with assms(5) show ?thesis by simp
  next
    case (leave i r e)
    have "DWait r \<in> set (fs_pcs s)" using leave(2,3) by (metis nth_mem)
    then have "r < length ?h" using ok by (auto simp: flight_ok_def waiters_ok_def)
    then show ?thesis
      by (rule one [rotated, where c = "if k_waiters (?h ! r) - 1 = 0 then cancel_call ((?h ! r)\<lparr>k_waiters := k_waiters (?h ! r) - 1\<rparr>)
          else (?h ! r)\<lparr>k_waiters := k_waiters (?h ! r) - 1\<rparr>"]) (auto simp: leave do_leave_def Let_def split: if_split_asm)
  next
    case (deadline r)
    then show ?thesis by (intro one [where r = r and c = "(?h ! r)\<lparr>k_ctx := Some DeadlineExceeded\<rparr>"]) auto
  next
    case (returns r x f)
    then show ?thesis
      by (intro one [where r = r and c = "cancel_call ((?h ! r)\<lparr>k_progress := Returned x (k_ctx (?h ! r) = Some Canceled)\<rparr>)"])
        (auto simp: fetch_returns_def Let_def split: if_splits)
  next
    case (finish r now f)
    from finish(3) obtain data ct err ab where "k_progress (?h ! r) = Returned (data, ct, err) ab"
      "f_heap f = ?h[r := (?h ! r)\<lparr>k_progress := Completed (data, ct, err)\<rparr>]" by (rule finish_callE)
    with finish(1,2) show ?thesis
      by (intro one [where r = r and c = "(?h ! r)\<lparr>k_progress := Completed (data, ct, err)\<rparr>"]) auto
  qed
qed

lemma moved_callers:
  assumes "flight_step s s'" and "length (fs_pcs s') = length (fs_pcs s)" and "i < length (fs_pcs s)"
  shows "fs_pcs s' ! i = fs_pcs s ! i \<or> (\<exists>e. fs_pcs s' ! i = DEnd (Inl e))
    \<or> (\<exists>r x. fs_pcs s ! i = DWait r \<and> do_done (fs_flight s) r = Some x \<and> fs_pcs s' ! i = DEnd (Inr x))"
  using assms by (cases rule: flight_step.cases) (auto simp: nth_list_update)

lemma answered_by_done:
  assumes "do_done f r = Some x" and "r < length (f_heap f)"
    and "\<forall>c \<in> set (f_heap f). call_answered H network c"
  shows "answers_key H network (k_key (f_heap f ! r)) x"
proof -
  have "result_of (k_progress (f_heap f ! r)) = Some x" using assms(1) by (auto simp: do_done_def split: progress.splits)
  with assms(2,3) show ?thesis by (intro call_answered_result) simp_all
qed

lemma downloads_move:
  assumes ok: "downloads_ok H network s asked" and step: "flight_step s s'" and len: "length (fs_pcs s') = length (fs_pcs s)"
    and hon: "honest H network (fs_flight s')"
  shows "downloads_ok H network s' asked"
proof -
  note ok = ok [unfolded downloads_ok_def]
  from ok have calls: "map k_key (f_heap (fs_flight s')) = map k_key (f_heap (fs_flight s))"
    "\<forall>c \<in> set (f_heap (fs_flight s')). call_answered H network c"
    using moved_calls [OF step len hon] by blast+
  have keys: "r < length (f_heap (fs_flight s)) \<longleftrightarrow> r < length (f_heap (fs_flight s'))"
    "r < length (f_heap (fs_flight s)) \<Longrightarrow> k_key (f_heap (fs_flight s') ! r) = k_key (f_heap (fs_flight s) ! r)" for r
    using calls(1) by (metis length_map, metis length_map nth_map)
  have "caller_answered H network (fs_flight s') key (fs_pcs s' ! i)"
    if "i < length (fs_pcs s)" "caller_answered H network (fs_flight s) key (fs_pcs s ! i)" for i key
    using moved_callers [OF step len that(1)]
  proof (elim disjE exE conjE)
    assume "fs_pcs s' ! i = fs_pcs s ! i"
    with that(2) keys show ?thesis by (auto simp: caller_answered_def split: dpc.splits sum.splits)
  next
    fix r x
    assume "fs_pcs s ! i = DWait r" "do_done (fs_flight s) r = Some x" "fs_pcs s' ! i = DEnd (Inr x)"
    with that(2) answered_by_done [of "fs_flight s" r x H network] ok show ?thesis by (auto simp: caller_answered_def)
  qed (simp add: caller_answered_def)
  then have "callers_answered H network (fs_flight s') asked (fs_pcs s')"
    using ok len by (auto simp: callers_answered_def list_all2_conv_all_nth split: prod.splits)
  with calls(2) flight_ok_step [OF _ step] ok show ?thesis by (simp add: downloads_ok_def)
qed

lemma caller_answered_grows:
  assumes "caller_answered H network f key p" and "length (f_heap f) \<le> length (f_heap f')"
    and "\<forall>r < length (f_heap f). k_key (f_heap f' ! r) = k_key (f_heap f ! r)"
  shows "caller_answered H network f' key p"
  using assms by (cases p) (auto simp: caller_answered_def)

lemma asked_calls:
  assumes "do_enter f ctx kind key endpoint n1 n2 b = (f', b', x)" and "\<forall>c \<in> set (f_heap f). call_answered H network c"
    and "\<forall>r. map_of (f_calls f) key = Some r \<longrightarrow> r < length (f_heap f) \<and> k_key (f_heap f ! r) = key"
  shows "\<forall>c \<in> set (f_heap f'). call_answered H network c" (is ?calls)
    and "length (f_heap f) \<le> length (f_heap f')" (is ?len)
    and "\<forall>r < length (f_heap f). k_key (f_heap f' ! r) = k_key (f_heap f ! r)" (is ?keys)
    and "caller_answered H network f' key (case x of Inl e \<Rightarrow> DEnd (Inl e) | Inr r \<Rightarrow> DWait r)" (is ?caller)
proof -
  from assms(1) have "?calls \<and> ?len \<and> ?keys \<and> ?caller"
  proof (cases rule: do_enter_cases)
    case (refuse e)
    with assms(2) show ?thesis by (simp add: caller_answered_def)
  next
    case (join r)
    note r = assms(3) [rule_format, OF join(2)]
    from call_replaced [OF assms(2) conjunct1 [OF r], of "(f_heap f ! r)\<lparr>k_waiters := k_waiters (f_heap f ! r) + 1\<rparr>"]
    have ?calls unfolding join by simp
    with r join show ?thesis by (simp add: caller_answered_def nth_list_update)
  next
    case new
    then have "call_answered H network ((new_call kind key endpoint)\<lparr>k_waiters := 1\<rparr>)"
      by (simp add: call_answered_def new_call_def)
    with new assms(2) show ?thesis by (auto simp: caller_answered_def nth_append new_call_def)
  qed
  then show ?calls ?len ?keys ?caller by blast+
qed

lemma downloads_ask:
  assumes ok: "downloads_ok H network s asked"
    and enter: "download H parse (fs_flight s) ctx kind req n1 n2 b = (f, b', x)"
    and p: "p = (case x of Inl e \<Rightarrow> DEnd (Inl e) | Inr r \<Rightarrow> DWait r)"
  shows "downloads_ok H network \<lparr>fs_flight = f, fs_pcs = fs_pcs s @ [p]\<rparr> (asked @ [(kind, req)])"
proof -
  note ok = ok [unfolded downloads_ok_def callers_answered_def]
  note enter = enter [unfolded download_def]
  have "flight_step s \<lparr>fs_flight = f, fs_pcs = fs_pcs s @ [p]\<rparr>" by (rule flight_step.enter [OF enter p])
  then have flight: "flight_ok \<lparr>fs_flight = f, fs_pcs = fs_pcs s @ [p]\<rparr>" using flight_ok_step ok by blast
  have calls: "\<forall>c \<in> set (f_heap (fs_flight s)). call_answered H network c" using ok by blast
  have "\<forall>r. map_of (f_calls (fs_flight s)) (request_key H kind req) = Some r
      \<longrightarrow> r < length (f_heap (fs_flight s)) \<and> k_key (f_heap (fs_flight s) ! r) = request_key H kind req"
    using ok by (simp add: flight_ok_def calls_ok_def)
  note f = asked_calls [OF enter calls this, folded p]
  have "caller_answered H network f key q" if "caller_answered H network (fs_flight s) key q" for key q
    by (rule caller_answered_grows [OF that f(2,3)])
  then have "callers_answered H network f (asked @ [(kind, req)]) (fs_pcs s @ [p])"
    using ok f(4) unfolding callers_answered_def by (auto intro!: list_all2_appendI elim!: list_all2_mono)
  with f(1) flight show ?thesis by (simp only: downloads_ok_def fsys.select_convs simp_thms)
qed

lemma download_run_ok: "download_run H parse network s asked \<Longrightarrow> downloads_ok H network s asked"
proof (induction rule: download_run.induct)
  case (start ttl)
  show ?case using flight_ok_start by (simp add: downloads_ok_def callers_answered_def start_flight_def new_flight_def)
next
  case (ask s asked kind req ctx now1 now2 b f b' x p)
  show ?case by (rule downloads_ask [OF ask.IH ask.hyps(3,4)])
next
  case (move s asked s')
  show ?case by (rule downloads_move [OF move.IH move.hyps(2-4)])
qed

lemma download_run_asked: "download_run H parse network s asked \<Longrightarrow> \<forall>(kind, req) \<in> set asked. asked_for kind req"
  by (induction rule: download_run.induct) auto

text \<open>
  Property C7. In every interleaving of the downloads of all analyses, joined, cancelled, timed out and remembered as
  failed in any order, an analysis that is answered gets what its own fetch would make of a server's answer to its own
  request: of the same kind, for the same URL and, for OCSP, a request with the same digest.
\<close>

theorem downloads_not_mixed_up:
  assumes "download_run H parse network s asked" and "i < length asked" and "asked ! i = (kind, req)"
    and "fs_pcs s ! i = DEnd (Inr x)"
  shows "\<exists>req' answer. same_request H req req' \<and> network kind req' answer \<and> x = doFetch answer kind"
proof -
  have "callers_answered H network (fs_flight s) asked (fs_pcs s)"
    using download_run_ok [OF assms(1)] by (simp add: downloads_ok_def)
  from list_all2_nthD [OF this [unfolded callers_answered_def] assms(2)] have "answers_key H network (request_key H kind req) x"
    by (simp add: assms(3,4) caller_answered_def)
  then obtain kind' req' answer where k: "asked_for kind' req'" "request_key H kind req = request_key H kind' req'"
    "network kind' req' answer" "x = doFetch answer kind'" by (auto simp: answers_key_def)
  moreover have "asked_for kind req" using download_run_asked [OF assms(1)] nth_mem [OF assms(2)] unfolding assms(3) by auto
  ultimately show ?thesis using request_keys [of kind req kind' req' H] by blast
qed

text \<open>Two callers of one CRL: the download ends, and the second takes its result.\<close>

definition sample_url :: "string \<Rightarrow> neturl option" where
  "sample_url url = Some \<lparr>u_scheme = ''http'', u_hostname = ''a'', u_port = ''''\<rparr>"

definition sample_done :: fsys where
  "sample_done = \<lparr>fs_flight = (new_flight 60)\<lparr>f_heap :=
       [sample_call\<lparr>k_ctx := Some Canceled, k_progress := Completed ([48, 2, 5, 0], ''x'', None)\<rparr>]\<rparr>,
     fs_pcs = [DWait 0, DEnd (Inr ([48, 2, 5, 0], ''x'', None))]\<rparr>"

abbreviation sample_requests :: "(fetch_kind \<times> request) list" where
  "sample_requests \<equiv> [(fetchCRL, GetURL ''http://a/1''), (fetchCRL, GetURL ''http://a/1'')]"

abbreviation sample_network :: "fetch_kind \<Rightarrow> request \<Rightarrow> goerr + http_response \<Rightarrow> bool" where
  "sample_network \<equiv> \<lambda>kind req answer. req = GetURL ''http://a/1'' \<and> answer = sample_answer"

lemma sample_answer_fetched: "doFetch sample_answer fetchCRL = ([48, 2, 5, 0], ''x'', None)"
proof -
  have "readLimited \<lparr>b_bytes = [48, 2, 5, 0], b_err = None\<rparr> (- 1) (fk_max fetchCRL) = Inr [48, 2, 5, 0]"
    unfolding readLimited_iff by (simp add: fetchCRL_def maxCRLSize_def)
  moreover have "checkObjectStart [48, 2, 5, 0] (fk_max fetchCRL) = None"
    using sample_crl_start by (simp add: fetchCRL_def maxCRLSize_def)
  ultimately show ?thesis by (simp add: sample_answer_def doFetch_def)
qed

lemma sample_answers_key: "answers_key sample_hashes sample_network ''CRL http://a/1'' ([48, 2, 5, 0], ''x'', None)"
  unfolding answers_key_def
  by (intro exI [of _ fetchCRL] exI [of _ "GetURL ''http://a/1''"] exI [of _ sample_answer])
    (simp add: sample_answer_fetched asked_for_def, simp add: fetchCRL_def)

lemma sample_endpoint: "urlEndpoint ''http://a/1'' (sample_url ''http://a/1'') = ''http://a:80''"
  by code_simp

lemma sample_asks:
  "download_run sample_hashes sample_url sample_network sample_fsys sample_requests"
proof -
  let ?run = "download_run sample_hashes sample_url sample_network"
  have asked: "asked_for fetchCRL (GetURL ''http://a/1'')" by (simp add: asked_for_def)
  have key: "request_key sample_hashes fetchCRL (GetURL ''http://a/1'') = ''CRL http://a/1''" by (simp add: fetchCRL_def)
  have enters: "download sample_hashes sample_url (new_flight 60) None fetchCRL (GetURL ''http://a/1'') 0 0 None
      = (sample_flight_one, None, Inr 0)"
    "download sample_hashes sample_url sample_flight_one None fetchCRL (GetURL ''http://a/1'') 0 0 None
      = (sample_flight, None, Inr 0)"
    by (simp_all only: download_def request_url.simps key sample_endpoint sample_enters)
  have "?run \<lparr>fs_flight = new_flight 60, fs_pcs = []\<rparr> []" using download_run.start [of _ _ _ 60] by (simp add: start_flight_def)
  from download_run.ask [OF this asked _ refl] enters(1)
  have "?run \<lparr>fs_flight = sample_flight_one, fs_pcs = [DWait 0]\<rparr> [(fetchCRL, GetURL ''http://a/1'')]" by fastforce
  from download_run.ask [OF this asked _ refl] enters(2)
  show ?thesis unfolding sample_fsys_def by fastforce
qed

lemma downloads_not_mixed_up_witness:
  "download_run sample_hashes sample_url sample_network sample_done sample_requests
   \<and> (\<exists>req' answer. same_request sample_hashes (GetURL ''http://a/1'') req' \<and> sample_network fetchCRL req' answer
        \<and> ([48, 2, 5, 0], ''x'', None) = doFetch answer fetchCRL)"
proof -
  let ?x = "([48, 2, 5, 0], ''x'', None) :: fetched"
  let ?run = "\<lambda>s. download_run sample_hashes sample_url sample_network s sample_requests"
  let ?s1 = "sample_fsys\<lparr>fs_flight := sample_flight\<lparr>f_heap := [sample_call\<lparr>k_ctx := Some Canceled, k_progress := Returned ?x False\<rparr>]\<rparr>\<rparr>"
  let ?s2 = "sample_done\<lparr>fs_pcs := [DWait 0, DWait 0]\<rparr>"
  note sample = sample_fsys_def sample_flight_def sample_call_def sample_done_def new_flight_def
  have "flight_step sample_fsys ?s1"
    by (rule flight_step.returns [of 0 _ ?x]) (simp_all add: sample fetch_returns_def put_call_def cancel_call_def)
  from download_run.move [OF sample_asks this] have "?run ?s1"
    using sample_answers_key by (simp add: sample honest_def)
  moreover have "flight_step ?s1 ?s2"
    by (rule flight_step.finish [of 0 _ 5, THEN back_subst [of "flight_step ?s1"]])
      (auto simp: sample finish_call_def forget_call_def put_call_def map_del_def)
  ultimately have "?run ?s2" by (rule download_run.move) (simp_all add: sample honest_def)
  moreover have "flight_step ?s2 sample_done"
    using flight_step.got [of 1 ?s2 0 ?x] by (simp add: sample do_done_def)
  ultimately have run: "?run sample_done" by (rule download_run.move) (simp_all add: sample honest_def)
  from run downloads_not_mixed_up [OF run, of 1 fetchCRL "GetURL ''http://a/1''" ?x] show ?thesis
    by (simp add: sample_done_def)
qed

end
