(* ===== verification/Spec2Isabelle.thy ===== *)
theory Spec2Isabelle
  imports Store_Find Store_Roundtrip Limits_Laws Gate_Laws RespCache_Laws Flight_Laws Ssrf_Laws Idp_Laws
    Chain_Sample Analysis_Sample Link_Laws Hosts_Laws Trust_Sample
    Site_Sample Endpoints_Laws Migration_Laws Idle Fetching Answers Lifecycle Downloads
begin

text \<open>
  certview, a verification development.

  \<^bold>\<open>The program.\<close> certview (src/cmd/certview) is a web service that analyses certificates and CRLs: it builds the chain of
  an uploaded certificate, checks the revocation of each of its certificates and says whether the store's trusted
  roots vouch for it. It keeps what it saw in a SQLite database (src/internal/store) and calls the C library MiniPKI
  (src/internal/pki) for cryptography. certget (src/cmd/certget) is its helper that connects to a site and returns the
  chains it presents. A public and an admin listener serve the same handlers; only the admin listener changes trust.

  \<^bold>\<open>How it is modelled.\<close> Go functions are HOL functions under their own names. Errors are values: \<open>goerr\<close> for the errors
  a fetch or an analysis ends with, sums for results, \<open>option\<close> for a panic or a missing answer. State is passed
  explicitly; what other goroutines share is a system of steps with every interleaving (Gate, RespCache, Flight).
  Integers that can wrap are words or are wrapped in place (the fetch budget, certget's timeout); times are nanoseconds.
  What is not in the repository is an argument: MiniPKI (the record \<open>minipki\<close>), the two hashes (\<open>hashes\<close>), the ASN.1
  readers of cryptobyte (\<open>readers\<close>), names, addresses and URLs (\<open>names\<close>), the network, the clock and the context of an
  analysis (\<open>env\<close>), encoding/json and encoding/pem.

  \<^bold>\<open>Theories and sources.\<close>

  \<^item> Prelude: Go's byte slices, strings and times, the shapes of SQL statement, and two interfaces as locales: a
    transition system with an invariant and a bounded semaphore. Digest: \<open>sha1hex\<close>, \<open>SHA256Hex\<close>.
  \<^item> Store (internal/store/store.go): the tables as lists of rows, one operation per exported method. Store_Laws has the
    invariant \<open>store_ok\<close> under every sequence of operations, Store_Find the candidates of \<open>FindIssuers\<close>, Store_Roundtrip
    what is found again, Ledger the refinement of the table of certificates to a map from digests.
  \<^item> Migration (store.go, \<open>migrate\<close>): databases of earlier versions become a well-formed store.
  \<^item> Limits (guard.go): constants, errors, the text a client is told, the budget, bounded reading. Fetching: \<open>doFetch\<close> of
    handler.go. Idle (main.go): the idle timeout of downloads. Downloads (handler.go, \<open>fetchWithInfo\<close>, \<open>postOCSP\<close>): the keys
    downloads are shared under, and that no analysis is answered with another request's download.
  \<^item> Gate (guard.go): slots, the gate and queue for large CRLs, transfers, \<open>admit\<close>, the watchdog. Gate_Laws: bounds in
    every interleaving, no deadlock, everything is given back.
  \<^item> RespCache (respcache.go): \<open>get\<close>, \<open>purge\<close>, \<open>cleanupLoop\<close> over shared entries. Flight (guard.go, \<open>fetchFlight\<close>): one
    download per key, cancelled when abandoned, failures remembered.
  \<^item> Ssrf (internal/ssrfguard, main.go): which addresses may be connected to. Hosts (internal/dnshost, site.go, certget's
    handler.go, guard.go): names and ports of clients, \<open>resolveAndGuard\<close>, \<open>localOnly\<close>.
  \<^item> Pki, Idp, Crl (internal/pki): what pki.go and idp.go make of the library's answers.
  \<^item> Chain, Revocation, Analyze (handler.go, \<open>analyzeData\<close>): the chain with its issuers from the bag, the pool, AIA and the
    archive; the check of each certificate by CRLs and OCSP; the verdict and the response; uploaded CRLs. Chain_Laws,
    Revocation_Laws and Analyze_Laws carry locales that go through the steps once for any invariant; Analysis_Props,
    Verdict, Total and Status interpret them: evidence behind every status, what may enter the store, what the verdict
    means, that an analysis ends, which values a response has. Chain_Sample and Analysis_Sample are concrete runs.
  \<^item> Link (link.go), Endpoints (handler.go, link.go, main.go), Site (site.go), Certget (cmd/certget): the requests around
    an analysis. Trust (internal/trustbundle, handler.go): the bundles and the administrator.
  \<^item> Answers: the analysis cache over the endpoints and the analysis, what a request is answered with in every interleaving.
  \<^item> Service (main.go): the routes of both listeners, ServeMux's paths, admission, and the state they share.
  \<^item> Lifecycle (main.go): the start of the program on the database it finds, and its whole life as runs of single writes of
    analyses, changes of the caches, requests of the administrator and restarts; what decides on trust at the end.

  \<^bold>\<open>Bounds and fuel.\<close> \<open>parseIDP\<close> runs on fuel of the length of its input, which Idp_Laws shows to be enough; the loops over PEM
  blocks run on the length of the text, enough when each block leaves a shorter rest (\<open>pem_blocks_fuel\<close>, \<open>gost_chain_fuel\<close>); \<open>chainsToTrust\<close> and the chain are bounded
  by the code's own limit of ten. Everything else is structurally recursive or has its termination proof.

  \<^bold>\<open>Assumed.\<close> SQLite executes each statement atomically, as documented, and without an error of the disk. An analysis is
  a sequential function of its store: statements of other requests between its own are not interleaved, except where a
  theorem says so (\<open>derBySHA256\<close>, and the runs of Lifecycle, where they interleave one by one). MiniPKI is any
  function; theorems that need it to return nonempty encodings say so. The runs of Downloads take each download's result
  from any answer the network may give to a request with its key (\<open>honest\<close>).

  \<^bold>\<open>Not modelled.\<close> Opening and closing MiniPKI's and SQLite's handles; log lines; encoding responses as JSON; parsing the
  flags; the timeouts \<open>limits.ListenAndServe\<close> gives net/http's server; the embedded web page. None has logic
  beyond calls of a library.
\<close>

end
